(* ===== verification/Prelude.thy ===== *)
theory Prelude
  imports Complex_Main "HOL-Library.Multiset" "HOL-Library.Char_ord" "HOL-Library.List_Lexorder"
begin

text \<open>
  What every component shares: the errors of the program as values, the computations of an
  \<open>async\<close> function as state-passing functions with an explicit outcome, the control flow of
  JavaScript over them (\<open>await\<close>, \<open>throw\<close>, \<open>try/catch\<close>, \<open>try/finally\<close>, \<open>Promise.allSettled\<close>),
  and two small calculi that carry the proofs of the components: \<open>wp\<close>, the weakest
  precondition of a computation, and \<open>upholds\<close>, which lifts a reflexive and transitive
  relation between the state before and the state after from the primitives to everything
  built from them.  The collections \<open>wp_rules\<close> and \<open>upholds_intros\<close> hold the rules.
\<close>

named_theorems wp_rules "rewrite rules for weakest preconditions"
named_theorems upholds_intros "introduction rules for state relations"
named_theorems monad_defs "definitions of the control operators"


section \<open>Numbers\<close>

text \<open>
  A JavaScript number: an integer, a finite value that is not an integer, an infinity or
  \<open>NaN\<close>.  The program computes with integers only; the others are there to be refused.
\<close>

datatype js_number = Whole int | Fraction rat | PosInfinity | NegInfinity | NaN

definition is_integer :: "js_number \<Rightarrow> bool" where
  "is_integer q = (case q of Whole _ \<Rightarrow> True | _ \<Rightarrow> False)"

definition is_finite :: "js_number \<Rightarrow> bool" where
  "is_finite q = (case q of Whole _ \<Rightarrow> True | Fraction _ \<Rightarrow> True | _ \<Rightarrow> False)"

definition le_zero :: "js_number \<Rightarrow> bool" where
  "le_zero q = (case q of Whole k \<Rightarrow> k \<le> 0 | Fraction r \<Rightarrow> r \<le> 0
                 | PosInfinity \<Rightarrow> False | NegInfinity \<Rightarrow> True | NaN \<Rightarrow> False)"

definition lt_zero :: "js_number \<Rightarrow> bool" where
  "lt_zero q = (case q of Whole k \<Rightarrow> k < 0 | Fraction r \<Rightarrow> r < 0
                 | PosInfinity \<Rightarrow> False | NegInfinity \<Rightarrow> True | NaN \<Rightarrow> False)"


section \<open>Errors and outcomes\<close>

text \<open>
  What a statement of the database refuses, by the constraint of the migration it breaks.
\<close>

datatype db_error =
    UniqueViolation string
  | ForeignKeyViolation string
  | CheckViolation string
  | NumericOutOfRange string
  | ValueTooLong string
  | InvalidText string

text \<open>
  A thrown value.  \<open>JsError\<close> is \<open>new Error(message)\<close>, \<open>NumberError\<close> and
  \<open>InvalidTransition\<close> are errors of the code whose message prints the values they hold; the
  other constructors are the errors of the libraries the program calls, with what the program
  reads of them.
\<close>

datatype error =
    JsError string
  | NumberError string js_number
  | InvalidTransition string string string
  | DecimalError string
  | DbError db_error
  | IoError string
  | HttpError nat string
  | ValidationError "(string \<times> string) list"

text \<open>
  The outcome of an \<open>async\<close> function: it fulfils, it rejects, or the process dies while it
  runs.  No handler of the program sees the last one.
\<close>

datatype 'a res = Ok 'a | Throw error | Crashed

type_synonym ('s, 'a) prog = "'s \<Rightarrow> 'a res \<times> 's"


section \<open>Control flow\<close>

definition ret :: "'a \<Rightarrow> ('s, 'a) prog" where
  "ret a = (\<lambda>s. (Ok a, s))"

definition throw :: "error \<Rightarrow> ('s, 'a) prog" where
  "throw e = (\<lambda>s. (Throw e, s))"

definition bindM :: "('s, 'a) prog \<Rightarrow> ('a \<Rightarrow> ('s, 'b) prog) \<Rightarrow> ('s, 'b) prog" where
  "bindM m f = (\<lambda>s. case m s of
      (Ok a, s') \<Rightarrow> f a s'
    | (Throw e, s') \<Rightarrow> (Throw e, s')
    | (Crashed, s') \<Rightarrow> (Crashed, s'))"

definition thenM :: "('s, 'a) prog \<Rightarrow> ('s, 'b) prog \<Rightarrow> ('s, 'b) prog" where
  "thenM m n = bindM m (\<lambda>_. n)"

definition catchM :: "('s, 'a) prog \<Rightarrow> (error \<Rightarrow> ('s, 'a) prog) \<Rightarrow> ('s, 'a) prog" where
  "catchM m h = (\<lambda>s. case m s of
      (Ok a, s') \<Rightarrow> (Ok a, s')
    | (Throw e, s') \<Rightarrow> h e s'
    | (Crashed, s') \<Rightarrow> (Crashed, s'))"

text \<open>
  \<open>try { m } finally { f }\<close>: the block \<open>f\<close> runs after a value and after an error, and an
  error of \<open>f\<close> replaces the outcome of \<open>m\<close>.
\<close>

definition finallyM :: "('s, 'a) prog \<Rightarrow> ('s, unit) prog \<Rightarrow> ('s, 'a) prog" where
  "finallyM m f = (\<lambda>s. case m s of
      (Ok a, s') \<Rightarrow> bindM f (\<lambda>_. ret a) s'
    | (Throw e, s') \<Rightarrow> bindM f (\<lambda>_. throw e) s'
    | (Crashed, s') \<Rightarrow> (Crashed, s'))"

definition getsM :: "('s \<Rightarrow> 'a) \<Rightarrow> ('s, 'a) prog" where
  "getsM g = (\<lambda>s. (Ok (g s), s))"

definition modifyM :: "('s \<Rightarrow> 's) \<Rightarrow> ('s, unit) prog" where
  "modifyM g = (\<lambda>s. (Ok (), g s))"

definition liftR :: "error + 'a \<Rightarrow> ('s, 'a) prog" where
  "liftR r = (case r of Inl e \<Rightarrow> throw e | Inr a \<Rightarrow> ret a)"

definition whenM :: "bool \<Rightarrow> ('s, unit) prog \<Rightarrow> ('s, unit) prog" where
  "whenM b m = (if b then m else ret ())"

text \<open>\<open>await m\<close> inside a \<open>try\<close>: the outcome as a value.\<close>

definition tryM :: "('s, 'a) prog \<Rightarrow> ('s, error + 'a) prog" where
  "tryM m = catchM (bindM m (\<lambda>a. ret (Inr a))) (\<lambda>e. ret (Inl e))"

text \<open>\<open>for (const x of xs) await f(x)\<close>, for a body with no early return.\<close>

primrec forM :: "'a list \<Rightarrow> ('a \<Rightarrow> ('s, unit) prog) \<Rightarrow> ('s, unit) prog" where
  "forM [] f = ret ()"
| "forM (x # xs) f = thenM (f x) (forM xs f)"

text \<open>\<open>Promise.allSettled\<close>: every computation runs, rejections are dropped.\<close>

definition all_settled :: "('s, 'a) prog list \<Rightarrow> ('s, unit) prog" where
  "all_settled ms = forM ms (\<lambda>m. catchM (thenM m (ret ())) (\<lambda>_. ret ()))"

lemmas control_defs [monad_defs] =
  ret_def throw_def bindM_def thenM_def catchM_def finallyM_def getsM_def modifyM_def
  liftR_def whenM_def all_settled_def


section \<open>Errors in pure code\<close>

text \<open>A pure function of the code that may throw returns \<open>error + 'a\<close>.\<close>

definition bindE :: "error + 'a \<Rightarrow> ('a \<Rightarrow> error + 'b) \<Rightarrow> error + 'b" where
  "bindE m f = (case m of Inl e \<Rightarrow> Inl e | Inr a \<Rightarrow> f a)"

lemma bindE_simps [simp]:
  "bindE (Inl e) f = Inl e"
  "bindE (Inr a) f = f a"
  by (simp_all add: bindE_def)

lemma bindE_eq_Inr: "bindE m f = Inr b \<longleftrightarrow> (\<exists>a. m = Inr a \<and> f a = Inr b)"
  by (cases m) simp_all

text \<open>\<open>xs.map(f)\<close> for an \<open>f\<close> that may throw: the first error ends it.\<close>

primrec mapE :: "('a \<Rightarrow> error + 'b) \<Rightarrow> 'a list \<Rightarrow> error + 'b list" where
  "mapE f [] = Inr []"
| "mapE f (x # xs) = bindE (f x) (\<lambda>y. bindE (mapE f xs) (\<lambda>ys. Inr (y # ys)))"

lemma mapE_Inr_length: "mapE f xs = Inr ys \<Longrightarrow> length ys = length xs"
  by (induction xs arbitrary: ys) (auto simp: bindE_eq_Inr)

lemma mapE_Inr_iff: "mapE f xs = Inr ys \<longleftrightarrow> list_all2 (\<lambda>x y. f x = Inr y) xs ys"
proof (induction xs arbitrary: ys)
  case Nil
  then show ?case by auto
next
  case (Cons x xs)
  then show ?case by (cases ys) (auto simp: bindE_eq_Inr)
qed


section \<open>Weakest preconditions\<close>

text \<open>\<open>wp m P s\<close>: run from \<open>s\<close>, the outcome and the state after satisfy \<open>P\<close>.\<close>

definition wp :: "('s, 'a) prog \<Rightarrow> ('a res \<Rightarrow> 's \<Rightarrow> bool) \<Rightarrow> 's \<Rightarrow> bool" where
  "wp m P s = P (fst (m s)) (snd (m s))"

lemma wpI: "wp m P s \<Longrightarrow> m s = (r, s') \<Longrightarrow> P r s'"
  by (simp add: wp_def)

lemma wp_mono: "wp m P s \<Longrightarrow> (\<And>r s'. P r s' \<Longrightarrow> Q r s') \<Longrightarrow> wp m Q s"
  by (simp add: wp_def)

lemma wp_always: "(\<And>r s'. P r s') \<Longrightarrow> wp m P s"
  by (simp add: wp_def)

lemma wp_conj: "wp m (\<lambda>r s'. P r s' \<and> Q r s') s \<longleftrightarrow> wp m P s \<and> wp m Q s"
  by (simp add: wp_def)

lemma wp_ret [wp_rules]: "wp (ret a) P s = P (Ok a) s"
  by (simp add: wp_def ret_def)

lemma wp_throw [wp_rules]: "wp (throw e) P s = P (Throw e) s"
  by (simp add: wp_def throw_def)

lemma wp_bindM [wp_rules]:
  "wp (bindM m f) P s =
     wp m (\<lambda>r s'. case r of Ok a \<Rightarrow> wp (f a) P s' | Throw e \<Rightarrow> P (Throw e) s'
                          | Crashed \<Rightarrow> P Crashed s') s"
  by (simp add: wp_def bindM_def split: prod.splits res.splits)

lemma wp_thenM [wp_rules]:
  "wp (thenM m n) P s =
     wp m (\<lambda>r s'. case r of Ok a \<Rightarrow> wp n P s' | Throw e \<Rightarrow> P (Throw e) s'
                          | Crashed \<Rightarrow> P Crashed s') s"
  by (simp add: thenM_def wp_bindM)

lemma wp_catchM [wp_rules]:
  "wp (catchM m h) P s =
     wp m (\<lambda>r s'. case r of Ok a \<Rightarrow> P (Ok a) s' | Throw e \<Rightarrow> wp (h e) P s'
                          | Crashed \<Rightarrow> P Crashed s') s"
  by (simp add: wp_def catchM_def split: prod.splits res.splits)

lemma wp_finallyM [wp_rules]:
  "wp (finallyM m f) P s =
     wp m (\<lambda>r s'. case r of Ok a \<Rightarrow> wp (bindM f (\<lambda>_. ret a)) P s'
                          | Throw e \<Rightarrow> wp (bindM f (\<lambda>_. throw e)) P s'
                          | Crashed \<Rightarrow> P Crashed s') s"
  by (simp add: wp_def finallyM_def split: prod.splits res.splits)

lemma wp_tryM [wp_rules]:
  "wp (tryM m) P s =
     wp m (\<lambda>r s'. case r of Ok a \<Rightarrow> P (Ok (Inr a)) s' | Throw e \<Rightarrow> P (Ok (Inl e)) s'
                          | Crashed \<Rightarrow> P Crashed s') s"
  by (simp add: tryM_def wp_def catchM_def bindM_def ret_def split: prod.splits res.splits)

lemma wp_getsM [wp_rules]: "wp (getsM g) P s = P (Ok (g s)) s"
  by (simp add: wp_def getsM_def)

lemma wp_modifyM [wp_rules]: "wp (modifyM g) P s = P (Ok ()) (g s)"
  by (simp add: wp_def modifyM_def)

lemma wp_liftR [wp_rules]:
  "wp (liftR r) P s = (case r of Inl e \<Rightarrow> P (Throw e) s | Inr a \<Rightarrow> P (Ok a) s)"
  by (simp add: liftR_def wp_ret wp_throw split: sum.splits)

lemma wp_whenM [wp_rules]: "wp (whenM b m) P s = (if b then wp m P s else P (Ok ()) s)"
  by (simp add: whenM_def wp_ret)


section \<open>Relations between the state before and after\<close>

text \<open>
  \<open>upholds R m\<close>: whatever the outcome, the state before and the state after are related by
  \<open>R\<close>.  With \<open>R s s' = (I s \<longrightarrow> I s')\<close> it says that \<open>m\<close> keeps the invariant \<open>I\<close>.
\<close>

definition upholds :: "('s \<Rightarrow> 's \<Rightarrow> bool) \<Rightarrow> ('s, 'a) prog \<Rightarrow> bool" where
  "upholds R m \<longleftrightarrow> (\<forall>s. R s (snd (m s)))"

definition preord :: "('s \<Rightarrow> 's \<Rightarrow> bool) \<Rightarrow> bool" where
  "preord R \<longleftrightarrow> (\<forall>s. R s s) \<and> (\<forall>s t u. R s t \<longrightarrow> R t u \<longrightarrow> R s u)"

definition keeps :: "('s \<Rightarrow> bool) \<Rightarrow> 's \<Rightarrow> 's \<Rightarrow> bool" where
  "keeps I s s' \<longleftrightarrow> (I s \<longrightarrow> I s')"

definition same :: "('s \<Rightarrow> 'b) \<Rightarrow> 's \<Rightarrow> 's \<Rightarrow> bool" where
  "same f s s' \<longleftrightarrow> f s' = f s"

lemma preord_keeps [intro, simp]: "preord (keeps I)"
  by (auto simp: preord_def keeps_def)

lemma preord_same [intro, simp]: "preord (same f)"
  by (auto simp: preord_def same_def)

lemma preord_eq [intro, simp]: "preord (=)"
  by (auto simp: preord_def)

lemma preord_refl: "preord R \<Longrightarrow> R s s"
  by (simp add: preord_def)

lemma preord_trans: "preord R \<Longrightarrow> R s t \<Longrightarrow> R t u \<Longrightarrow> R s u"
  unfolding preord_def by blast

lemma upholdsD: "upholds R m \<Longrightarrow> m s = (r, s') \<Longrightarrow> R s s'"
  unfolding upholds_def by (metis snd_conv)

lemma upholds_snd: "upholds R m \<Longrightarrow> R s (snd (m s))"
  unfolding upholds_def by blast

lemma upholdsI: "(\<And>s. R s (snd (m s))) \<Longrightarrow> upholds R m"
  by (simp add: upholds_def)

lemma upholds_wp: "upholds R m \<Longrightarrow> wp m (\<lambda>_ s'. R s s') s"
  by (simp add: upholds_def wp_def)

lemma upholds_ret [upholds_intros]: "preord R \<Longrightarrow> upholds R (ret a)"
  by (simp add: upholds_def ret_def preord_refl)

lemma upholds_throw [upholds_intros]: "preord R \<Longrightarrow> upholds R (throw e)"
  by (simp add: upholds_def throw_def preord_refl)

lemma upholds_bindM [upholds_intros]:
  assumes "preord R" and "upholds R m" and "\<And>a. upholds R (f a)"
  shows "upholds R (bindM m f)"
proof (rule upholdsI)
  fix s
  obtain r s' where m: "m s = (r, s')" by (cases "m s")
  then have "R s s'" using assms(2) by (rule upholdsD [rotated])
  moreover have "R s' (snd (f a s'))" for a using assms(3) by (rule upholds_snd)
  ultimately show "R s (snd (bindM m f s))"
    using preord_trans [OF assms(1)] by (auto simp: bindM_def m split: res.splits)
qed

lemma upholds_thenM [upholds_intros]:
  "preord R \<Longrightarrow> upholds R m \<Longrightarrow> upholds R n \<Longrightarrow> upholds R (thenM m n)"
  unfolding thenM_def by (rule upholds_bindM)

lemma upholds_catchM [upholds_intros]:
  assumes "preord R" and "upholds R m" and "\<And>e. upholds R (h e)"
  shows "upholds R (catchM m h)"
proof (rule upholdsI)
  fix s
  obtain r s' where m: "m s = (r, s')" by (cases "m s")
  then have "R s s'" using assms(2) by (rule upholdsD [rotated])
  moreover have "R s' (snd (h e s'))" for e using assms(3) by (rule upholds_snd)
  ultimately show "R s (snd (catchM m h s))"
    using preord_trans [OF assms(1)] by (auto simp: catchM_def m split: res.splits)
qed

lemma upholds_finallyM [upholds_intros]:
  fixes m :: "('s, 'a) prog"
  assumes "preord R" and "upholds R m" and "upholds R f"
  shows "upholds R (finallyM m f)"
proof (rule upholdsI)
  fix s
  obtain r s' where m: "m s = (r, s')" by (cases "m s")
  then have "R s s'" using assms(2) by (rule upholdsD [rotated])
  moreover have "R s' (snd (bindM f (\<lambda>_. ret a) s'))" for a :: 'a
    by (rule upholds_snd) (intro upholds_bindM upholds_ret assms(1,3))
  moreover have "R s' (snd ((bindM f (\<lambda>_. throw e) :: ('s, 'a) prog) s'))" for e
    by (rule upholds_snd) (intro upholds_bindM upholds_throw assms(1,3))
  ultimately show "R s (snd (finallyM m f s))"
    using preord_trans [OF assms(1)] by (auto simp: finallyM_def m split: res.splits)
qed

lemma upholds_tryM [upholds_intros]: "preord R \<Longrightarrow> upholds R m \<Longrightarrow> upholds R (tryM m)"
  unfolding tryM_def by (intro upholds_catchM upholds_bindM upholds_ret)

lemma upholds_getsM [upholds_intros]: "preord R \<Longrightarrow> upholds R (getsM g)"
  by (simp add: upholds_def getsM_def preord_refl)

lemma upholds_liftR [upholds_intros]: "preord R \<Longrightarrow> upholds R (liftR r)"
  by (cases r) (simp_all add: liftR_def upholds_ret upholds_throw)

lemma upholds_whenM [upholds_intros]:
  "preord R \<Longrightarrow> upholds R m \<Longrightarrow> upholds R (whenM b m)"
  by (simp add: whenM_def upholds_ret)

lemma upholds_if [upholds_intros]:
  "upholds R m \<Longrightarrow> upholds R n \<Longrightarrow> upholds R (if b then m else n)"
  by simp

lemma upholds_option [upholds_intros]:
  "upholds R m \<Longrightarrow> (\<And>a. upholds R (f a)) \<Longrightarrow>
     upholds R (case x of None \<Rightarrow> m | Some a \<Rightarrow> f a)"
  by (cases x) simp_all

lemma upholds_forM [upholds_intros]:
  "preord R \<Longrightarrow> (\<And>x. x \<in> set xs \<Longrightarrow> upholds R (f x)) \<Longrightarrow> upholds R (forM xs f)"
  by (induction xs) (auto intro: upholds_ret upholds_thenM)

lemma upholds_all_settled [upholds_intros]:
  "preord R \<Longrightarrow> (\<And>m. m \<in> set ms \<Longrightarrow> upholds R m) \<Longrightarrow> upholds R (all_settled ms)"
  unfolding all_settled_def
  by (intro upholds_forM upholds_catchM upholds_thenM upholds_ret) auto

lemma upholds_modifyM: "(\<And>s. R s (g s)) \<Longrightarrow> upholds R (modifyM g)"
  by (simp add: upholds_def modifyM_def)


section \<open>Relations and results together\<close>

text \<open>\<open>yields R P m\<close>: \<open>m\<close> upholds \<open>R\<close>, and the value it fulfils with, if any, satisfies \<open>P\<close>.\<close>

definition yields :: "('s \<Rightarrow> 's \<Rightarrow> bool) \<Rightarrow> ('a \<Rightarrow> bool) \<Rightarrow> ('s, 'a) prog \<Rightarrow> bool" where
  "yields R P m \<longleftrightarrow> (\<forall>s. wp m (\<lambda>r s'. R s s' \<and> (\<forall>a. r = Ok a \<longrightarrow> P a)) s)"

lemma yieldsD: "yields R P m \<Longrightarrow> wp m (\<lambda>r s'. R s s' \<and> (\<forall>a. r = Ok a \<longrightarrow> P a)) s"
  by (simp add: yields_def)

lemma yields_upholds: "yields R P m \<Longrightarrow> upholds R m"
  by (simp add: yields_def upholds_def wp_def)

lemma upholds_yields: "upholds R m \<Longrightarrow> (\<And>a. P a) \<Longrightarrow> yields R P m"
  by (simp add: yields_def upholds_def wp_def)

lemma yields_mono: "yields R P m \<Longrightarrow> (\<And>a. P a \<Longrightarrow> Q a) \<Longrightarrow> yields R Q m"
  by (auto simp: yields_def wp_def)

lemma yields_ret: "preord R \<Longrightarrow> P a \<Longrightarrow> yields R P (ret a)"
  by (simp add: yields_def wp_ret preord_refl)

lemma yields_throw: "preord R \<Longrightarrow> yields R P (throw e)"
  by (simp add: yields_def wp_throw preord_refl)

lemma yields_bindM:
  assumes "preord R" and m: "yields R P m" and f: "\<And>a. P a \<Longrightarrow> yields R Q (f a)"
  shows "yields R Q (bindM m f)"
  unfolding yields_def
proof
  fix s
  show "wp (bindM m f) (\<lambda>r s'. R s s' \<and> (\<forall>a. r = Ok a \<longrightarrow> Q a)) s"
    unfolding wp_bindM
  proof (rule wp_mono [OF yieldsD [OF m]])
    fix r s1
    assume r: "R s s1 \<and> (\<forall>a. r = Ok a \<longrightarrow> P a)"
    have "wp (f a) (\<lambda>r s'. R s s' \<and> (\<forall>a. r = Ok a \<longrightarrow> Q a)) s1" if "P a" for a
      by (rule wp_mono [OF yieldsD [OF f [OF that]]]) (use r preord_trans [OF assms(1)] in blast)
    with r show "case r of
        Ok a \<Rightarrow> wp (f a) (\<lambda>r s'. R s s' \<and> (\<forall>a. r = Ok a \<longrightarrow> Q a)) s1
      | Throw e \<Rightarrow> R s s1 \<and> (\<forall>a. Throw e = Ok a \<longrightarrow> Q a)
      | Crashed \<Rightarrow> R s s1 \<and> (\<forall>a. Crashed = Ok a \<longrightarrow> Q a)"
      by (cases r) auto
  qed
qed

lemma upholds_bind_yields:
  assumes "preord R" and "yields R P m" and f: "\<And>a. P a \<Longrightarrow> upholds R (f a)"
  shows "upholds R (bindM m f)"
proof (rule yields_upholds [OF yields_bindM [OF assms(1,2)]])
  show "yields R (\<lambda>_. True) (f a)" if "P a" for a
    by (rule upholds_yields [OF f [OF that]]) simp
qed

lemma yields_tryM:
  assumes "preord R" and "yields R P m"
  shows "yields R (case_sum (\<lambda>_. True) P) (tryM m)"
  unfolding yields_def wp_tryM
  by (intro allI, rule wp_mono [OF yieldsD [OF assms(2)]]) (auto split: res.split)

lemma yields_catchM:
  assumes "preord R" and m: "yields R P m" and h: "\<And>e. yields R P (h e)"
  shows "yields R P (catchM m h)"
  unfolding yields_def
proof
  fix s
  show "wp (catchM m h) (\<lambda>r s'. R s s' \<and> (\<forall>a. r = Ok a \<longrightarrow> P a)) s"
    unfolding wp_catchM
  proof (rule wp_mono [OF yieldsD [OF m]])
    fix r s1
    assume r: "R s s1 \<and> (\<forall>a. r = Ok a \<longrightarrow> P a)"
    have "wp (h e) (\<lambda>r s'. R s s' \<and> (\<forall>a. r = Ok a \<longrightarrow> P a)) s1" for e
      by (rule wp_mono [OF yieldsD [OF h]]) (use r preord_trans [OF assms(1)] in blast)
    with r show "case r of
        Ok a \<Rightarrow> R s s1 \<and> (\<forall>b. Ok a = Ok b \<longrightarrow> P b)
      | Throw e \<Rightarrow> wp (h e) (\<lambda>r s'. R s s' \<and> (\<forall>a. r = Ok a \<longrightarrow> P a)) s1
      | Crashed \<Rightarrow> R s s1 \<and> (\<forall>a. Crashed = Ok a \<longrightarrow> P a)"
      by (cases r) auto
  qed
qed


section \<open>Lists\<close>

text \<open>\<open>rows.find(p)\<close> and \<open>const [row] = rows\<close>.\<close>

lemma find_map_same:
  "(\<And>x. P (f x) = P x) \<Longrightarrow> find P (map f xs) = map_option f (find P xs)"
  by (induction xs) auto

lemma find_append: "find P (xs @ ys) = (case find P xs of None \<Rightarrow> find P ys | Some x \<Rightarrow> Some x)"
  by (induction xs) auto

lemma find_SomeD: "find P xs = Some x \<Longrightarrow> x \<in> set xs \<and> P x"
  by (auto simp: find_Some_iff)

lemma find_None_iff_all: "find P xs = None \<longleftrightarrow> (\<forall>x \<in> set xs. \<not> P x)"
  by (auto simp: find_None_iff)

text \<open>
  \<open>Array.prototype.sort\<close> with a comparison function is stable; \<open>le x y\<close> is \<open>cmp(x, y) <= 0\<close>.
\<close>

fun insert_by :: "('a \<Rightarrow> 'a \<Rightarrow> bool) \<Rightarrow> 'a \<Rightarrow> 'a list \<Rightarrow> 'a list" where
  "insert_by le x [] = [x]"
| "insert_by le x (y # ys) = (if le x y then x # y # ys else y # insert_by le x ys)"

definition sort_by :: "('a \<Rightarrow> 'a \<Rightarrow> bool) \<Rightarrow> 'a list \<Rightarrow> 'a list" where
  "sort_by le xs = foldr (insert_by le) xs []"

lemma sort_by_simps [simp]:
  "sort_by le [] = []"
  "sort_by le (x # xs) = insert_by le x (sort_by le xs)"
  by (simp_all add: sort_by_def)

lemma mset_insert_by [simp]: "mset (insert_by le x xs) = add_mset x (mset xs)"
  by (induction xs) auto

lemma mset_sort_by [simp]: "mset (sort_by le xs) = mset xs"
  by (induction xs) auto

lemma set_sort_by [simp]: "set (sort_by le xs) = set xs"
  by (metis mset_sort_by set_mset_mset)

lemma length_sort_by [simp]: "length (sort_by le xs) = length xs"
  by (metis mset_sort_by size_mset)

lemma sorted_insert_by:
  assumes total: "\<And>x y. le x y \<or> le y x" and trans: "\<And>x y z. le x y \<Longrightarrow> le y z \<Longrightarrow> le x z"
  shows "sorted_wrt le xs \<Longrightarrow> sorted_wrt le (insert_by le x xs)"
proof (induction xs)
  case Nil
  then show ?case by simp
next
  case (Cons y ys)
  have set_ins: "set (insert_by le x ys) = insert x (set ys)"
    by (metis mset_insert_by set_mset_add_mset_insert set_mset_mset)
  show ?case
  proof (cases "le x y")
    case True
    with Cons.prems show ?thesis using trans by auto
  next
    case False
    with total have "le y x" by blast
    with False Cons show ?thesis by (auto simp: set_ins)
  qed
qed

lemma sorted_sort_by:
  assumes "\<And>x y. le x y \<or> le y x" and "\<And>x y z. le x y \<Longrightarrow> le y z \<Longrightarrow> le x z"
  shows "sorted_wrt le (sort_by le xs)"
  by (induction xs) (auto intro: sorted_insert_by [OF assms])


lemma sorted_wrt_unique:
  assumes "sorted_wrt R xs" and "sorted_wrt R ys" and "mset xs = mset ys"
    and "\<And>a b. a \<in> set xs \<Longrightarrow> b \<in> set xs \<Longrightarrow> R a b \<Longrightarrow> R b a \<Longrightarrow> a = b"
  shows "xs = ys"
  using assms
proof (induction xs arbitrary: ys)
  case Nil
  then show ?case by simp
next
  case (Cons x xs)
  then obtain y zs where ys: "ys = y # zs" by (cases ys) auto
  have sets: "insert x (set xs) = insert y (set zs)"
    using mset_eq_setD [OF Cons.prems(3)] ys by simp
  have "x = y"
  proof (rule ccontr)
    assume "x \<noteq> y"
    then have "x \<in> set zs" "y \<in> set xs" using sets by auto
    then have "R y x" "R x y" using Cons.prems(1,2) ys by auto
    with \<open>y \<in> set xs\<close> \<open>x \<noteq> y\<close> show False using Cons.prems(4) by auto
  qed
  with Cons ys show ?case by auto
qed


section \<open>Strings\<close>

text \<open>
  Strings are lists of code units below 256.  \<open>toUpperCase\<close> and \<open>toLowerCase\<close> on ASCII.
\<close>

definition upper_char :: "char \<Rightarrow> char" where
  "upper_char c = (if CHR ''a'' \<le> c \<and> c \<le> CHR ''z'' then char_of (of_char c - 32 :: nat) else c)"

definition lower_char :: "char \<Rightarrow> char" where
  "lower_char c = (if CHR ''A'' \<le> c \<and> c \<le> CHR ''Z'' then char_of (of_char c + 32 :: nat) else c)"

definition toUpperCase :: "string \<Rightarrow> string" where
  "toUpperCase s = map upper_char s"

definition toLowerCase :: "string \<Rightarrow> string" where
  "toLowerCase s = map lower_char s"

lemma length_toUpperCase [simp]: "length (toUpperCase s) = length s"
  by (simp add: toUpperCase_def)

definition is_digit :: "char \<Rightarrow> bool" where
  "is_digit c \<longleftrightarrow> CHR ''0'' \<le> c \<and> c \<le> CHR ''9''"

definition is_alpha :: "char \<Rightarrow> bool" where
  "is_alpha c \<longleftrightarrow> (CHR ''a'' \<le> c \<and> c \<le> CHR ''z'') \<or> (CHR ''A'' \<le> c \<and> c \<le> CHR ''Z'')"

text \<open>\<open>parts.join(',')\<close>\<close>

fun commas :: "string list \<Rightarrow> string" where
  "commas [] = []"
| "commas [s] = s"
| "commas (s # ss) = s @ '','' @ commas ss"

text \<open>Decimal digits of a number, as \<open>String(n)\<close> prints it.\<close>

definition digit_char :: "nat \<Rightarrow> char" where
  "digit_char d = char_of (48 + d)"

fun digits_of :: "nat \<Rightarrow> string" where
  "digits_of n = (if n < 10 then [digit_char n] else digits_of (n div 10) @ [digit_char (n mod 10)])"

declare digits_of.simps [simp del]

lemma digits_of_nonempty [simp]: "digits_of n \<noteq> []"
  by (subst digits_of.simps) simp

text \<open>The number a string of decimal digits denotes, read from the left.\<close>

definition digit_val :: "char \<Rightarrow> nat" where
  "digit_val c = of_char c - 48"

definition number_of :: "string \<Rightarrow> nat" where
  "number_of s = foldl (\<lambda>n c. 10 * n + digit_val c) 0 s"

lemma digit_char_props:
  assumes "d < 10"
  shows "digit_val (digit_char d) = d" "is_digit (digit_char d)"
  using assms by (simp_all add: digit_val_def digit_char_def is_digit_def less_eq_char_def)

lemma number_of_append: "number_of (s @ [c]) = 10 * number_of s + digit_val c"
  by (simp add: number_of_def)

lemma number_of_digits [simp]: "number_of (digits_of n) = n"
proof (induction n rule: digits_of.induct)
  case (1 n)
  show ?case
  proof (cases "n < 10")
    case True
    then show ?thesis
      by (subst digits_of.simps) (simp add: number_of_def digit_char_props)
  next
    case False
    with 1 show ?thesis
      by (subst digits_of.simps) (simp add: number_of_append digit_char_props)
  qed
qed

lemma digits_of_digits: "\<forall>c \<in> set (digits_of n). is_digit c"
proof (induction n rule: digits_of.induct)
  case (1 n)
  then show ?case by (subst digits_of.simps) (auto simp: digit_char_props)
qed

text \<open>\<open>String(k)\<close> of an integer.\<close>

definition int_string :: "int \<Rightarrow> string" where
  "int_string k = (if k < 0 then CHR ''-'' # digits_of (nat (- k)) else digits_of (nat k))"

lemma digit_not_minus: "is_digit c \<Longrightarrow> c \<noteq> CHR ''-''"
  by (auto simp: is_digit_def less_eq_char_def)

lemma int_string_inject [simp]: "int_string k = int_string l \<longleftrightarrow> k = l"
proof -
  have head: "digits_of n \<noteq> CHR ''-'' # s" for n s
    using digits_of_digits [of n] digit_not_minus by (metis list.set_intros(1))
  have "digits_of m = digits_of n \<longleftrightarrow> m = n" for m n
    by (metis number_of_digits)
  then show ?thesis
    using head head [symmetric] by (auto simp: int_string_def nat_eq_iff split: if_splits)
qed

end
