(* ===== verification/Money.thy ===== *)
theory Money
  imports Prelude
begin

text \<open>
  \<open>src/src/domain/value-objects/money.ts\<close>.  The class computes with decimal.js, which is not part
  of the repository: its operations are a parameter (\<open>decimal_lib\<close>), and \<open>decimal_laws\<close> states
  what its documentation says of them for amounts of whole cents: the constructor is exact, sums and
  products are exact as long as they need at most 28 significant digits (\<open>Decimal.set\<close>), and
  \<open>toFixed(2)\<close> prints two fraction digits.  Under these laws the lemmas show that the arithmetic of
  \<open>Money\<close> is exact arithmetic on cents.
\<close>


section \<open>The decimal library\<close>

record 'd decimal_lib =
  dec_parse :: "string \<Rightarrow> 'd option"
  dec_of_num :: "js_number \<Rightarrow> 'd"
  dec_isNaN :: "'d \<Rightarrow> bool"
  dec_isFinite :: "'d \<Rightarrow> bool"
  dec_isNegative :: "'d \<Rightarrow> bool"
  dec_toFixed :: "'d \<Rightarrow> nat \<Rightarrow> string"
  dec_plus :: "'d \<Rightarrow> 'd \<Rightarrow> 'd"
  dec_times :: "'d \<Rightarrow> 'd \<Rightarrow> 'd"
  dec_gt :: "'d \<Rightarrow> 'd \<Rightarrow> bool"

text \<open>
  \<open>dec_parse s\<close> is \<open>new Decimal(s)\<close> (\<open>None\<close> where it throws), \<open>dec_of_num n\<close> is
  \<open>new Decimal(String(n))\<close>.  A price is a string matching \<open>/^\d+\.\d{2}$/\<close>.
\<close>

definition price_cents :: "string \<Rightarrow> nat option" where
  "price_cents s =
     (let n = length s in
      if 4 \<le> n \<and> s ! (n - 3) = CHR ''.'' \<and> list_all is_digit (take (n - 3) s)
         \<and> list_all is_digit (drop (n - 2) s)
      then Some (number_of (take (n - 3) s @ drop (n - 2) s)) else None)"

definition cents_string :: "nat \<Rightarrow> string" where
  "cents_string n = digits_of (n div 100) @ [CHR ''.'', digit_char (n div 10 mod 10), digit_char (n mod 10)]"

lemma number_of_snoc2: "number_of (s @ [a, b]) = 100 * number_of s + 10 * digit_val a + digit_val b"
  using number_of_append [of "s @ [a]" b] number_of_append [of s a] by simp

lemma cents_digits: "100 * (n div 100) + 10 * (n div 10 mod 10) + n mod 10 = (n :: nat)"
proof -
  have "n div 10 div 10 = n div 100"
    by (simp add: div_mult2_eq [symmetric])
  then show ?thesis
    using mult_div_mod_eq [of 10 n] mult_div_mod_eq [of 10 "n div 10"] by linarith
qed

lemma price_cents_cents_string [simp]: "price_cents (cents_string n) = Some n"
proof -
  let ?ds = "digits_of (n div 100)"
  have "list_all is_digit ?ds"
    using digits_of_digits by (simp add: list_all_iff)
  moreover have "1 \<le> length ?ds"
    by (simp add: Suc_le_eq)
  moreover have "number_of (?ds @ [digit_char (n div 10 mod 10), digit_char (n mod 10)]) = n"
    using cents_digits [of n] by (simp add: number_of_snoc2 digit_char_props)
  ultimately show ?thesis
    by (simp add: price_cents_def cents_string_def Let_def digit_char_props)
qed

lemma cents_string_inject [simp]: "cents_string m = cents_string n \<longleftrightarrow> m = n"
  by (metis option.inject price_cents_cents_string)

text \<open>\<open>rep d n\<close>: the decimal \<open>d\<close> is the amount of \<open>n\<close> cents.\<close>

definition decimal_laws :: "'d decimal_lib \<Rightarrow> ('d \<Rightarrow> nat \<Rightarrow> bool) \<Rightarrow> bool" where
  "decimal_laws L rep \<longleftrightarrow>
     (\<forall>s n. price_cents s = Some n \<longrightarrow> (\<exists>d. dec_parse L s = Some d \<and> rep d n)) \<and>
     (\<forall>d n. rep d n \<longrightarrow> \<not> dec_isNaN L d \<and> dec_isFinite L d \<and> \<not> dec_isNegative L d
                       \<and> dec_toFixed L d 2 = cents_string n) \<and>
     (\<forall>a b m n. rep a m \<longrightarrow> rep b n \<longrightarrow> m + n < 10 ^ 28 \<longrightarrow> rep (dec_plus L a b) (m + n)) \<and>
     (\<forall>a m k. rep a m \<longrightarrow> m * k < 10 ^ 28 \<longrightarrow> rep (dec_times L a (dec_of_num L (Whole (int k)))) (m * k)) \<and>
     (\<forall>a b m n. rep a m \<longrightarrow> rep b n \<longrightarrow> dec_gt L a b = (n < m)) \<and>
     (\<forall>d n. rep d (100 * n) \<longrightarrow> dec_toFixed L d 0 = digits_of n)"

lemma decimal_lawsD:
  assumes "decimal_laws L rep"
  shows "price_cents s = Some n \<Longrightarrow> \<exists>d. dec_parse L s = Some d \<and> rep d n"
    and "rep d n \<Longrightarrow> \<not> dec_isNaN L d \<and> dec_isFinite L d \<and> \<not> dec_isNegative L d
           \<and> dec_toFixed L d 2 = cents_string n"
    and "rep a m \<Longrightarrow> rep b n \<Longrightarrow> m + n < 10 ^ 28 \<Longrightarrow> rep (dec_plus L a b) (m + n)"
    and "rep a m \<Longrightarrow> m * k < 10 ^ 28 \<Longrightarrow> rep (dec_times L a (dec_of_num L (Whole (int k)))) (m * k)"
    and "rep a m \<Longrightarrow> rep b n \<Longrightarrow> dec_gt L a b = (n < m)"
    and "rep d (100 * n) \<Longrightarrow> dec_toFixed L d 0 = digits_of n"
  using assms unfolding decimal_laws_def by blast+


section \<open>Money\<close>

record money =
  amount :: string
  currency :: string

definition new_money :: "'d decimal_lib \<Rightarrow> string \<Rightarrow> string \<Rightarrow> error + money" where
  "new_money L amt cur =
     (if cur = [] \<or> length cur \<noteq> 3 then Inl (JsError (''Invalid currency code: '' @ cur))
      else case dec_parse L amt of
        None \<Rightarrow> Inl (DecimalError amt)
      | Some d \<Rightarrow>
          if dec_isNaN L d \<or> \<not> dec_isFinite L d
          then Inl (JsError (''Invalid monetary amount: '' @ amt))
          else if dec_isNegative L d
          then Inl (JsError (''Monetary amount cannot be negative: '' @ amt))
          else Inr \<lparr>amount = dec_toFixed L d 2, currency = toUpperCase cur\<rparr>)"

definition money_zero :: "'d decimal_lib \<Rightarrow> string \<Rightarrow> error + money" where
  "money_zero L cur = new_money L ''0.00'' cur"

definition assertSameCurrency :: "money \<Rightarrow> money \<Rightarrow> error + unit" where
  "assertSameCurrency m other =
     (if currency m \<noteq> currency other
      then Inl (JsError (''Cannot operate on money with different currencies: '' @ currency m
                          @ '' and '' @ currency other))
      else Inr ())"

text \<open>\<open>new Decimal(this.amount)\<close>\<close>

definition decimal_of :: "'d decimal_lib \<Rightarrow> string \<Rightarrow> error + 'd" where
  "decimal_of L s = (case dec_parse L s of None \<Rightarrow> Inl (DecimalError s) | Some d \<Rightarrow> Inr d)"

definition money_add :: "'d decimal_lib \<Rightarrow> money \<Rightarrow> money \<Rightarrow> error + money" where
  "money_add L m other =
     bindE (assertSameCurrency m other) (\<lambda>_.
     bindE (decimal_of L (amount m)) (\<lambda>a.
     bindE (decimal_of L (amount other)) (\<lambda>b.
     new_money L (dec_toFixed L (dec_plus L a b) 2) (currency m))))"

definition money_multiply :: "'d decimal_lib \<Rightarrow> money \<Rightarrow> js_number \<Rightarrow> error + money" where
  "money_multiply L m factor =
     (if \<not> is_finite factor \<or> lt_zero factor
      then Inl (NumberError ''Invalid multiplication factor: '' factor)
      else bindE (decimal_of L (amount m)) (\<lambda>a.
           new_money L (dec_toFixed L (dec_times L a (dec_of_num L factor)) 2) (currency m)))"

definition money_isGreaterThan :: "'d decimal_lib \<Rightarrow> money \<Rightarrow> money \<Rightarrow> error + bool" where
  "money_isGreaterThan L m other =
     bindE (assertSameCurrency m other) (\<lambda>_.
     bindE (decimal_of L (amount m)) (\<lambda>a.
     bindE (decimal_of L (amount other)) (\<lambda>b.
     Inr (dec_gt L a b))))"

definition money_equals :: "money \<Rightarrow> money \<Rightarrow> bool" where
  "money_equals m other \<longleftrightarrow> currency m = currency other \<and> amount m = amount other"

definition money_toString :: "money \<Rightarrow> string" where
  "money_toString m = amount m @ '' '' @ currency m"


section \<open>Exactness\<close>

text \<open>\<open>cents n c\<close>: the money of \<open>n\<close> cents in the (upper case) currency \<open>c\<close>.\<close>

definition cents :: "nat \<Rightarrow> string \<Rightarrow> money" where
  "cents n c = \<lparr>amount = cents_string n, currency = c\<rparr>"

lemma cents_sel [simp]: "amount (cents n c) = cents_string n" "currency (cents n c) = c"
  by (simp_all add: cents_def)

definition currency_code :: "string \<Rightarrow> bool" where
  "currency_code c \<longleftrightarrow> length c = 3 \<and> toUpperCase c = c"

lemma upper_char_idem [simp]: "upper_char (upper_char c) = upper_char c"
proof (cases "CHR ''a'' \<le> c \<and> c \<le> CHR ''z''")
  case True
  then have b: "97 \<le> (of_char c :: nat)" "(of_char c :: nat) \<le> 122"
    by (simp_all add: less_eq_char_def)
  then have "of_char (char_of (of_char c - 32 :: nat)) = (of_char c - 32 :: nat)"
    by simp
  with b True show ?thesis
    by (auto simp: upper_char_def less_eq_char_def)
next
  case False
  then show ?thesis by (simp only: upper_char_def if_False)
qed

lemma toUpperCase_idem [simp]: "toUpperCase (toUpperCase s) = toUpperCase s"
  by (simp add: toUpperCase_def)

lemma currency_code_upper: "length c = 3 \<Longrightarrow> currency_code (toUpperCase c)"
  by (simp add: currency_code_def)

lemma new_money_price:
  assumes "decimal_laws L rep" and "price_cents s = Some n" and "length c = 3"
  shows "new_money L s c = Inr (cents n (toUpperCase c))"
proof -
  obtain d where d: "dec_parse L s = Some d" "rep d n"
    using decimal_lawsD(1) [OF assms(1,2)] by blast
  with decimal_lawsD(2) [OF assms(1) d(2)] assms(3) show ?thesis
    by (auto simp: new_money_def cents_def)
qed

lemma decimal_of_cents:
  assumes "decimal_laws L rep"
  obtains d where "decimal_of L (cents_string n) = Inr d" "rep d n"
  using decimal_lawsD(1) [OF assms, of "cents_string n" n] by (auto simp: decimal_of_def)

lemma money_zero_cents:
  assumes "decimal_laws L rep" and "length c = 3"
  shows "money_zero L c = Inr (cents 0 (toUpperCase c))"
proof -
  have "price_cents ''0.00'' = Some 0"
    by (simp add: price_cents_def number_of_def digit_val_def is_digit_def less_eq_char_def)
  then show ?thesis
    using new_money_price [OF assms(1) _ assms(2)] by (simp add: money_zero_def)
qed

lemma money_add_cents:
  assumes L: "decimal_laws L rep" and c: "currency_code c" and bound: "m + n < 10 ^ 28"
  shows "money_add L (cents m c) (cents n c) = Inr (cents (m + n) c)"
proof -
  obtain a where a: "decimal_of L (cents_string m) = Inr a" "rep a m"
    using decimal_of_cents [OF L] .
  obtain b where b: "decimal_of L (cents_string n) = Inr b" "rep b n"
    using decimal_of_cents [OF L] .
  have "rep (dec_plus L a b) (m + n)"
    using decimal_lawsD(3) [OF L a(2) b(2) bound] .
  then have "dec_toFixed L (dec_plus L a b) 2 = cents_string (m + n)"
    using decimal_lawsD(2) [OF L] by blast
  then show ?thesis
    using a(1) b(1) c new_money_price [OF L, of "cents_string (m + n)" "m + n" c]
    by (simp add: money_add_def assertSameCurrency_def currency_code_def)
qed

lemma money_add_currency:
  "currency m \<noteq> currency n \<Longrightarrow> \<exists>msg. money_add L m n = Inl (JsError msg)"
  by (simp add: money_add_def assertSameCurrency_def)

lemma money_multiply_cents:
  assumes L: "decimal_laws L rep" and c: "currency_code c" and bound: "m * k < 10 ^ 28"
  shows "money_multiply L (cents m c) (Whole (int k)) = Inr (cents (m * k) c)"
proof -
  obtain a where a: "decimal_of L (cents_string m) = Inr a" "rep a m"
    using decimal_of_cents [OF L] .
  have "rep (dec_times L a (dec_of_num L (Whole (int k)))) (m * k)"
    using decimal_lawsD(4) [OF L a(2) bound] .
  then have "dec_toFixed L (dec_times L a (dec_of_num L (Whole (int k)))) 2 = cents_string (m * k)"
    using decimal_lawsD(2) [OF L] by blast
  then show ?thesis
    using a(1) c new_money_price [OF L, of "cents_string (m * k)" "m * k" c]
    by (simp add: money_multiply_def is_finite_def lt_zero_def currency_code_def)
qed

lemma money_isGreaterThan_cents:
  assumes L: "decimal_laws L rep"
  shows "money_isGreaterThan L (cents m c) (cents n c) = Inr (n < m)"
proof -
  obtain a where a: "decimal_of L (cents_string m) = Inr a" "rep a m"
    using decimal_of_cents [OF L] .
  obtain b where b: "decimal_of L (cents_string n) = Inr b" "rep b n"
    using decimal_of_cents [OF L] .
  show ?thesis
    using a b decimal_lawsD(5) [OF L a(2) b(2)]
    by (simp add: money_isGreaterThan_def assertSameCurrency_def)
qed

lemma new_money_Inr:
  "new_money L s c = Inr m \<Longrightarrow> length c = 3 \<and> currency m = toUpperCase c"
  by (auto simp: new_money_def split: if_splits option.splits)


section \<open>A decimal library that satisfies the laws\<close>

text \<open>Whole cents as numbers: the instance on which the laws are seen to be satisfiable.\<close>

definition cents_lib :: "nat decimal_lib" where
  "cents_lib = \<lparr>
     dec_parse = price_cents,
     dec_of_num = (\<lambda>q. case q of Whole k \<Rightarrow> 100 * nat k | _ \<Rightarrow> 0),
     dec_isNaN = (\<lambda>_. False),
     dec_isFinite = (\<lambda>_. True),
     dec_isNegative = (\<lambda>_. False),
     dec_toFixed = (\<lambda>d p. if p = 0 then digits_of ((d + 50) div 100) else cents_string d),
     dec_plus = (+),
     dec_times = (\<lambda>a b. a * b div 100),
     dec_gt = (\<lambda>a b. b < a)\<rparr>"

lemma cents_lib_laws: "decimal_laws cents_lib (=)"
  by (simp add: decimal_laws_def cents_lib_def)



section \<open>The property\<close>

text \<open>
  The arithmetic of \<open>Money\<close> is exact: on amounts of whole cents in one currency, the sum and the
  product by a quantity are the sum and the product of the cents, and the comparison is that of the
  cents, as long as the result needs at most 28 digits.
\<close>

theorem money_arithmetic_exact:
  assumes "decimal_laws L rep" and "currency_code c" and "m + n < 10 ^ 28" and "m * k < 10 ^ 28"
  shows "money_add L (cents m c) (cents n c) = Inr (cents (m + n) c)
       \<and> money_multiply L (cents m c) (Whole (int k)) = Inr (cents (m * k) c)
       \<and> money_isGreaterThan L (cents m c) (cents n c) = Inr (n < m)"
  using money_add_cents [OF assms(1-3)] money_multiply_cents [OF assms(1,2,4)]
    money_isGreaterThan_cents [OF assms(1)] by blast

theorem money_arithmetic_exact_witness:
  "money_add cents_lib (cents 1999 ''USD'') (cents 2 ''USD'') = Inr (cents 2001 ''USD'')
   \<and> money_multiply cents_lib (cents 1999 ''USD'') (Whole (int 3)) = Inr (cents 5997 ''USD'')
   \<and> money_isGreaterThan cents_lib (cents 1999 ''USD'') (cents 2 ''USD'') = Inr True"
  using money_arithmetic_exact [OF cents_lib_laws, of "''USD''" 1999 2 3]
  by (simp add: currency_code_def toUpperCase_def upper_char_def less_eq_char_def)

end
