(* ===== verification/Sku.thy ===== *)
theory Sku
  imports Prelude
begin

text \<open>
  \<open>src/src/domain/value-objects/sku.ts\<close>: the stock keeping unit, a checked string.
\<close>

datatype sku = SKU (sku_value: string)

text \<open>\<open>SKU.VALID\<close>, the regular expression \<open>/^[A-Za-z0-9\-_]+$/\<close>.\<close>

definition sku_char :: "char \<Rightarrow> bool" where
  "sku_char c \<longleftrightarrow> is_alpha c \<or> is_digit c \<or> c = CHR ''-'' \<or> c = CHR ''_''"

definition sku_VALID :: "string \<Rightarrow> bool" where
  "sku_VALID s \<longleftrightarrow> s \<noteq> [] \<and> list_all sku_char s"

definition new_sku :: "string \<Rightarrow> error + sku" where
  "new_sku v =
     (if v = [] \<or> 64 < length v then Inl (JsError ''SKU must be between 1 and 64 characters'')
      else if \<not> sku_VALID v
      then Inl (JsError ''SKU must be alphanumeric with hyphens and underscores only'')
      else Inr (SKU v))"

definition sku_equals :: "sku \<Rightarrow> sku \<Rightarrow> bool" where
  "sku_equals s t \<longleftrightarrow> sku_value s = sku_value t"

lemma new_sku_Inr_iff:
  "new_sku v = Inr s \<longleftrightarrow> s = SKU v \<and> 1 \<le> length v \<and> length v \<le> 64 \<and> list_all sku_char v"
  by (auto simp: new_sku_def sku_VALID_def Suc_le_eq)

lemma sku_equals_iff: "sku_equals s t \<longleftrightarrow> s = t"
  by (cases s, cases t) (simp add: sku_equals_def)


section \<open>The property\<close>

text \<open>
  A stock keeping unit is accepted exactly when it has 1 to 64 characters, each a letter, a digit,
  a hyphen or an underscore, and it is then kept as it is.
\<close>

theorem sku_accepted_iff:
  "new_sku v = Inr s \<longleftrightarrow> s = SKU v \<and> 1 \<le> length v \<and> length v \<le> 64 \<and> list_all sku_char v"
  by (auto simp: new_sku_def sku_VALID_def Suc_le_eq)

end
