(* ===== verification/Order_Entity.thy ===== *)
theory Order_Entity
  imports Money Sku
begin

text \<open>
  \<open>src/src/domain/entities/order-item.ts\<close> and \<open>order.ts\<close>: the order aggregate, its creation and
  the table of its status transitions.  The readings of the clock (\<open>new Date()\<close>) are arguments.
\<close>


section \<open>Items\<close>

record order_item =
  item_id :: string
  item_orderId :: string
  item_sku :: sku
  item_quantity :: int
  item_unitPrice :: money

definition createOrderItem ::
    "'d decimal_lib \<Rightarrow> string \<Rightarrow> string \<Rightarrow> string \<Rightarrow> js_number \<Rightarrow> string \<Rightarrow> string \<Rightarrow> error + order_item" where
  "createOrderItem L iid oid s quantity unitPrice cur =
     (if \<not> is_integer quantity \<or> le_zero quantity
      then Inl (NumberError ''OrderItem quantity must be a positive integer, got: '' quantity)
      else bindE (new_sku s) (\<lambda>sk.
           bindE (new_money L unitPrice cur) (\<lambda>p.
           Inr \<lparr>item_id = iid, item_orderId = oid, item_sku = sk,
                item_quantity = (case quantity of Whole k \<Rightarrow> k | _ \<Rightarrow> 0), item_unitPrice = p\<rparr>)))"

text \<open>The last \<open>case\<close> is never taken: the guard leaves \<open>Whole\<close> numbers only.\<close>

lemma createOrderItem_Inr:
  assumes "createOrderItem L iid oid s q p c = Inr i"
  shows "q = Whole (item_quantity i)" "0 < item_quantity i" "item_id i = iid" "item_orderId i = oid"
    "new_sku s = Inr (item_sku i)" "new_money L p c = Inr (item_unitPrice i)"
  using assms
  by (auto simp: createOrderItem_def is_integer_def le_zero_def bindE_eq_Inr
           split: if_splits js_number.splits)


section \<open>Orders\<close>

datatype order_status = PENDING | PAID | FULFILLED | SHIPPED | CANCELLED | COMPENSATING

record order =
  order_id :: string
  order_customerId :: string
  order_status :: order_status
  order_totalAmount :: money
  order_currency :: string
  order_idempotencyKey :: "string option"
  order_items :: "order_item list"
  order_createdAt :: int
  order_updatedAt :: int

fun TRANSITIONS :: "order_status \<Rightarrow> order_status list" where
  "TRANSITIONS PENDING = [PAID, CANCELLED, COMPENSATING]"
| "TRANSITIONS PAID = [FULFILLED, COMPENSATING]"
| "TRANSITIONS FULFILLED = [SHIPPED, COMPENSATING]"
| "TRANSITIONS SHIPPED = []"
| "TRANSITIONS CANCELLED = []"
| "TRANSITIONS COMPENSATING = [CANCELLED]"

primrec sum_items :: "'d decimal_lib \<Rightarrow> money \<Rightarrow> order_item list \<Rightarrow> error + money" where
  "sum_items L acc [] = Inr acc"
| "sum_items L acc (item # items) =
     bindE (money_multiply L (item_unitPrice item) (Whole (item_quantity item))) (\<lambda>p.
     bindE (money_add L acc p) (\<lambda>acc'. sum_items L acc' items))"

definition createOrder ::
    "'d decimal_lib \<Rightarrow> string \<Rightarrow> string \<Rightarrow> order_item list \<Rightarrow> string \<Rightarrow> string option
       \<Rightarrow> int \<Rightarrow> int \<Rightarrow> error + order" where
  "createOrder L oid customerId items cur key t1 t2 =
     (if items = [] then Inl (JsError ''Order must have at least one item'')
      else bindE (money_zero L cur) (\<lambda>zero.
           bindE (sum_items L zero items) (\<lambda>total.
           Inr \<lparr>order_id = oid, order_customerId = customerId, order_status = PENDING,
                order_totalAmount = total, order_currency = toUpperCase cur,
                order_idempotencyKey = key, order_items = items,
                order_createdAt = t1, order_updatedAt = t2\<rparr>)))"

definition canTransitionTo :: "order \<Rightarrow> order_status \<Rightarrow> bool" where
  "canTransitionTo ord newStatus \<longleftrightarrow> newStatus \<in> set (TRANSITIONS (order_status ord))"

definition status_name :: "order_status \<Rightarrow> string" where
  "status_name st = (case st of
      PENDING \<Rightarrow> ''PENDING'' | PAID \<Rightarrow> ''PAID'' | FULFILLED \<Rightarrow> ''FULFILLED''
    | SHIPPED \<Rightarrow> ''SHIPPED'' | CANCELLED \<Rightarrow> ''CANCELLED'' | COMPENSATING \<Rightarrow> ''COMPENSATING'')"

definition transitionOrder :: "order \<Rightarrow> order_status \<Rightarrow> int \<Rightarrow> error + order" where
  "transitionOrder ord newStatus t =
     (if \<not> canTransitionTo ord newStatus
      then Inl (InvalidTransition (status_name (order_status ord)) (status_name newStatus) (order_id ord))
      else Inr (ord\<lparr>order_status := newStatus, order_updatedAt := t\<rparr>))"

lemma transitionOrder_Inr_iff:
  "transitionOrder ord st t = Inr ord' \<longleftrightarrow>
     st \<in> set (TRANSITIONS (order_status ord)) \<and> ord' = ord\<lparr>order_status := st, order_updatedAt := t\<rparr>"
  by (auto simp: transitionOrder_def canTransitionTo_def)


section \<open>The total is exact\<close>

definition item_cents :: "order_item \<Rightarrow> nat" where
  "item_cents i = (case price_cents (amount (item_unitPrice i)) of None \<Rightarrow> 0 | Some n \<Rightarrow> n)
                  * nat (item_quantity i)"

definition total_cents :: "order_item list \<Rightarrow> nat" where
  "total_cents items = sum_list (map item_cents items)"

text \<open>Items as \<open>createOrderItem\<close> builds them from prices in the currency \<open>c\<close>.\<close>

definition priced_in :: "string \<Rightarrow> order_item \<Rightarrow> bool" where
  "priced_in c i \<longleftrightarrow> 0 < item_quantity i \<and> (\<exists>n. item_unitPrice i = cents n c)"

lemma priced_in_multiply:
  assumes L: "decimal_laws L rep" and c: "currency_code c" and p: "priced_in c i"
    and bound: "item_cents i < 10 ^ 28"
  shows "money_multiply L (item_unitPrice i) (Whole (item_quantity i)) = Inr (cents (item_cents i) c)"
proof -
  obtain n where n: "item_unitPrice i = cents n c" and q: "0 < item_quantity i"
    using p by (auto simp: priced_in_def)
  have eq: "item_cents i = n * nat (item_quantity i)"
    by (simp add: item_cents_def n)
  have "money_multiply L (cents n c) (Whole (int (nat (item_quantity i))))
          = Inr (cents (n * nat (item_quantity i)) c)"
    by (rule money_multiply_cents [OF L c]) (use bound eq in simp)
  then show ?thesis using q by (simp add: n eq)
qed

lemma sum_items_cents:
  assumes L: "decimal_laws L rep" and c: "currency_code c"
  shows "list_all (priced_in c) items \<Longrightarrow> m + total_cents items < 10 ^ 28 \<Longrightarrow>
           sum_items L (cents m c) items = Inr (cents (m + total_cents items) c)"
proof (induction items arbitrary: m)
  case Nil
  then show ?case by (simp add: total_cents_def)
next
  case (Cons i items)
  have total: "total_cents (i # items) = item_cents i + total_cents items"
    by (simp add: total_cents_def)
  have "money_multiply L (item_unitPrice i) (Whole (item_quantity i)) = Inr (cents (item_cents i) c)"
    by (rule priced_in_multiply [OF L c]) (use Cons.prems total in auto)
  moreover have "money_add L (cents m c) (cents (item_cents i) c) = Inr (cents (m + item_cents i) c)"
    by (rule money_add_cents [OF L c]) (use Cons.prems total in simp)
  ultimately show ?case
    using Cons.IH [of "m + item_cents i"] Cons.prems total by (simp add: add.assoc)
qed

lemma createOrderItem_priced:
  assumes "decimal_laws L rep" and "price_cents p = Some n"
    and "createOrderItem L iid oid s q p c = Inr i"
  shows "priced_in (toUpperCase c) i"
proof -
  have "new_money L p c = Inr (item_unitPrice i)" "0 < item_quantity i"
    using createOrderItem_Inr [OF assms(3)] by auto
  moreover from this(1) have "length c = 3"
    by (auto dest: new_money_Inr)
  ultimately have "item_unitPrice i = cents n (toUpperCase c)"
    using new_money_price [OF assms(1,2), of c] by simp
  with \<open>0 < item_quantity i\<close> show ?thesis
    unfolding priced_in_def by blast
qed

lemma createOrder_total:
  assumes L: "decimal_laws L rep" and c: "length cur = 3" and items: "items \<noteq> []"
    and priced: "list_all (priced_in (toUpperCase cur)) items"
    and bound: "total_cents items < 10 ^ 28"
  shows "createOrder L oid cust items cur key t1 t2 =
     Inr \<lparr>order_id = oid, order_customerId = cust, order_status = PENDING,
          order_totalAmount = cents (total_cents items) (toUpperCase cur),
          order_currency = toUpperCase cur, order_idempotencyKey = key,
          order_items = items, order_createdAt = t1, order_updatedAt = t2\<rparr>"
  using sum_items_cents [OF L currency_code_upper [OF c] priced, of 0] bound items
    money_zero_cents [OF L c]
  by (simp add: createOrder_def)

lemma createOrder_Inr:
  assumes "createOrder L oid cust items cur key t1 t2 = Inr ord"
  shows "items \<noteq> []" "order_id ord = oid" "order_customerId ord = cust" "order_status ord = PENDING"
    "order_idempotencyKey ord = key" "order_items ord = items" "order_currency ord = toUpperCase cur"
    "order_createdAt ord = t1" "order_updatedAt ord = t2"
  using assms by (auto simp: createOrder_def bindE_eq_Inr split: if_splits)


section \<open>The life of an order\<close>

text \<open>One transition, and the orders a chain of \<open>n\<close> transitions leads to.\<close>

inductive order_step :: "order \<Rightarrow> order \<Rightarrow> bool" where
  transition: "transitionOrder ord st t = Inr ord' \<Longrightarrow> order_step ord ord'"

inductive order_steps :: "nat \<Rightarrow> order \<Rightarrow> order \<Rightarrow> bool" where
  none: "order_steps 0 ord ord"
| more: "order_step ord ord' \<Longrightarrow> order_steps n ord' ord'' \<Longrightarrow> order_steps (Suc n) ord ord''"

inductive_cases order_stepE: "order_step ord ord'"
inductive_simps order_steps_0: "order_steps 0 ord ord'"

lemma order_step_iff:
  "order_step ord ord' \<longleftrightarrow>
     (\<exists>st t. st \<in> set (TRANSITIONS (order_status ord))
             \<and> ord' = ord\<lparr>order_status := st, order_updatedAt := t\<rparr>)"
  by (auto elim!: order_stepE simp: transitionOrder_Inr_iff order_step.simps)

text \<open>How many transitions an order in a status can still take.\<close>

fun remaining :: "order_status \<Rightarrow> nat" where
  "remaining PENDING = 4"
| "remaining PAID = 3"
| "remaining FULFILLED = 2"
| "remaining COMPENSATING = 1"
| "remaining SHIPPED = 0"
| "remaining CANCELLED = 0"

lemma TRANSITIONS_remaining: "st' \<in> set (TRANSITIONS st) \<Longrightarrow> remaining st' < remaining st"
  by (cases st) auto

lemma order_steps_remaining: "order_steps n ord ord' \<Longrightarrow> n + remaining (order_status ord') \<le> remaining (order_status ord)"
proof (induction rule: order_steps.induct)
  case (none ord)
  then show ?case by simp
next
  case (more ord ord' n ord'')
  then have "remaining (order_status ord') < remaining (order_status ord)"
    by (auto simp: order_step_iff dest: TRANSITIONS_remaining)
  with more.IH show ?case by linarith
qed

lemma order_steps_frame:
  "order_steps n ord ord' \<Longrightarrow>
     ord' = ord\<lparr>order_status := order_status ord', order_updatedAt := order_updatedAt ord'\<rparr>"
proof (induction rule: order_steps.induct)
  case (none ord)
  then show ?case by simp
next
  case (more ord ord' n ord'')
  then obtain st t where "ord' = ord\<lparr>order_status := st, order_updatedAt := t\<rparr>"
    by (auto simp: order_step_iff)
  with more.IH show ?case by (metis order.surjective order.update_convs(3,9))
qed


section \<open>The properties\<close>





end
