(* ===== verification/Saga_Entity.thy ===== *)
theory Saga_Entity
  imports Prelude
begin

text \<open>
  \<open>src/src/domain/entities/saga.ts\<close>: the instance and the steps of a saga and their pure
  transitions, and the JSON values they carry as payloads.  Readings of the clock are arguments.
\<close>


section \<open>JSON values\<close>

text \<open>A value of type \<open>unknown\<close> that has gone through JSON; objects keep their key order.\<close>

datatype json =
    JNull
  | JBool bool
  | JNum js_number
  | JStr string
  | JArr "json list"
  | JObj "(string \<times> json) list"

definition json_get :: "json \<Rightarrow> string \<Rightarrow> json option" where
  "json_get j k = (case j of JObj kvs \<Rightarrow> map_of kvs k | _ \<Rightarrow> None)"

lemma json_get_obj [simp]: "json_get (JObj kvs) k = map_of kvs k"
  by (simp add: json_get_def)


section \<open>Statuses\<close>

datatype saga_status =
  SAGA_PENDING | SAGA_RUNNING | SAGA_COMPENSATING | SAGA_COMPLETED | SAGA_FAILED

datatype step_status = STEP_PENDING | STEP_RUNNING | STEP_COMPLETED | STEP_FAILED

datatype compensation_status = COMP_PENDING | COMP_RUNNING | COMP_COMPLETED | COMP_FAILED

text \<open>
  The life of a saga goes up in this order: every transition of the code is a strict increase.
\<close>

fun saga_rank :: "saga_status \<Rightarrow> nat" where
  "saga_rank SAGA_PENDING = 0"
| "saga_rank SAGA_RUNNING = 1"
| "saga_rank SAGA_COMPENSATING = 2"
| "saga_rank SAGA_COMPLETED = 3"
| "saga_rank SAGA_FAILED = 4"

lemma saga_rank_inject: "saga_rank a = saga_rank b \<Longrightarrow> a = b"
  by (cases a; cases b) simp_all

instantiation saga_status :: linorder
begin

definition less_eq_saga_status :: "saga_status \<Rightarrow> saga_status \<Rightarrow> bool" where
  "less_eq_saga_status a b \<longleftrightarrow> saga_rank a \<le> saga_rank b"

definition less_saga_status :: "saga_status \<Rightarrow> saga_status \<Rightarrow> bool" where
  "less_saga_status a b \<longleftrightarrow> saga_rank a < saga_rank b"

instance
  by standard (auto simp: less_eq_saga_status_def less_saga_status_def intro: saga_rank_inject)

end

lemmas saga_status_order = less_eq_saga_status_def less_saga_status_def


section \<open>Instances\<close>

record saga_instance =
  saga_id :: string
  saga_orderId :: string
  saga_type :: string
  saga_status :: saga_status
  saga_currentStep :: int
  saga_startedAt :: int
  saga_completedAt :: "int option"
  saga_metadata :: "(string \<times> json) list"

text \<open>Every caller leaves out the third argument of \<open>createSagaInstance\<close>, which has a default.\<close>

definition createSagaInstance :: "string \<Rightarrow> string \<Rightarrow> int \<Rightarrow> saga_instance" where
  "createSagaInstance sid oid t =
     \<lparr>saga_id = sid, saga_orderId = oid, saga_type = ''ORDER_FULFILLMENT'',
      saga_status = SAGA_PENDING, saga_currentStep = 0, saga_startedAt = t,
      saga_completedAt = None, saga_metadata = []\<rparr>"

definition saga_status_name :: "saga_status \<Rightarrow> string" where
  "saga_status_name st = (case st of
      SAGA_PENDING \<Rightarrow> ''PENDING'' | SAGA_RUNNING \<Rightarrow> ''RUNNING'' | SAGA_COMPLETED \<Rightarrow> ''COMPLETED''
    | SAGA_COMPENSATING \<Rightarrow> ''COMPENSATING'' | SAGA_FAILED \<Rightarrow> ''FAILED'')"

definition startSaga :: "saga_instance \<Rightarrow> error + saga_instance" where
  "startSaga saga =
     (if saga_status saga \<noteq> SAGA_PENDING
      then Inl (JsError (''Cannot start saga in status '' @ saga_status_name (saga_status saga)))
      else Inr (saga\<lparr>saga_status := SAGA_RUNNING\<rparr>))"

definition completeSaga :: "saga_instance \<Rightarrow> int \<Rightarrow> error + saga_instance" where
  "completeSaga saga t =
     (if saga_status saga \<noteq> SAGA_RUNNING
      then Inl (JsError (''Cannot complete saga in status '' @ saga_status_name (saga_status saga)))
      else Inr (saga\<lparr>saga_status := SAGA_COMPLETED, saga_completedAt := Some t\<rparr>))"

definition failSaga :: "saga_instance \<Rightarrow> int \<Rightarrow> error + saga_instance" where
  "failSaga saga t =
     (if saga_status saga \<noteq> SAGA_RUNNING \<and> saga_status saga \<noteq> SAGA_COMPENSATING
      then Inl (JsError (''Cannot fail saga in status '' @ saga_status_name (saga_status saga)))
      else Inr (saga\<lparr>saga_status := SAGA_FAILED, saga_completedAt := Some t\<rparr>))"

definition startCompensation :: "saga_instance \<Rightarrow> error + saga_instance" where
  "startCompensation saga =
     (if saga_status saga \<noteq> SAGA_RUNNING
      then Inl (JsError (''Cannot compensate saga in status '' @ saga_status_name (saga_status saga)))
      else Inr (saga\<lparr>saga_status := SAGA_COMPENSATING\<rparr>))"

definition completeCompensation :: "saga_instance \<Rightarrow> int \<Rightarrow> error + saga_instance" where
  "completeCompensation saga t =
     (if saga_status saga \<noteq> SAGA_COMPENSATING
      then Inl (JsError (''Cannot complete compensation in status '' @ saga_status_name (saga_status saga)))
      else Inr (saga\<lparr>saga_status := SAGA_FAILED, saga_completedAt := Some t\<rparr>))"

lemmas saga_transition_defs =
  startSaga_def completeSaga_def failSaga_def startCompensation_def completeCompensation_def

text \<open>The transitions of an instance as one relation.\<close>

inductive saga_step :: "saga_instance \<Rightarrow> saga_instance \<Rightarrow> bool" where
  start: "startSaga s = Inr s' \<Longrightarrow> saga_step s s'"
| complete: "completeSaga s t = Inr s' \<Longrightarrow> saga_step s s'"
| fail: "failSaga s t = Inr s' \<Longrightarrow> saga_step s s'"
| compensate: "startCompensation s = Inr s' \<Longrightarrow> saga_step s s'"
| compensated: "completeCompensation s t = Inr s' \<Longrightarrow> saga_step s s'"

inductive_cases saga_stepE: "saga_step s s'"

lemma saga_step_increases: "saga_step s s' \<Longrightarrow> saga_status s < saga_status s'"
  by (erule saga_stepE) (auto simp: saga_transition_defs saga_status_order split: if_splits)

lemma saga_step_frame:
  "saga_step s s' \<Longrightarrow>
     saga_id s' = saga_id s \<and> saga_orderId s' = saga_orderId s \<and> saga_type s' = saga_type s
     \<and> saga_currentStep s' = saga_currentStep s \<and> saga_startedAt s' = saga_startedAt s
     \<and> saga_metadata s' = saga_metadata s"
  by (erule saga_stepE) (auto simp: saga_transition_defs split: if_splits)

text \<open>A completion time exactly in the two final statuses.\<close>

definition saga_wf :: "saga_instance \<Rightarrow> bool" where
  "saga_wf s \<longleftrightarrow> (saga_completedAt s \<noteq> None \<longleftrightarrow> saga_status s \<in> {SAGA_COMPLETED, SAGA_FAILED})"

lemma createSagaInstance_wf: "saga_wf (createSagaInstance sid oid t)"
  by (simp add: saga_wf_def createSagaInstance_def)

lemma saga_step_wf: "saga_step s s' \<Longrightarrow> saga_wf s \<Longrightarrow> saga_wf s'"
  by (erule saga_stepE) (auto simp: saga_transition_defs saga_wf_def split: if_splits)

lemma saga_step_final:
  "saga_status s \<in> {SAGA_COMPLETED, SAGA_FAILED} \<Longrightarrow> \<not> saga_step s s'"
  by (auto elim!: saga_stepE simp: saga_transition_defs split: if_splits)


section \<open>Steps\<close>

record saga_step_rec =
  step_id :: string
  step_sagaId :: string
  step_name :: string
  step_order :: int
  step_status :: step_status
  step_input :: json
  step_output :: json
  step_error :: "string option"
  step_startedAt :: "int option"
  step_completedAt :: "int option"
  step_compensation :: compensation_status
  step_compensationError :: "string option"

definition createStep :: "string \<Rightarrow> string \<Rightarrow> string \<Rightarrow> int \<Rightarrow> json \<Rightarrow> int \<Rightarrow> saga_step_rec" where
  "createStep stid sid name ord input t =
     \<lparr>step_id = stid, step_sagaId = sid, step_name = name, step_order = ord,
      step_status = STEP_RUNNING, step_input = input, step_output = JNull, step_error = None,
      step_startedAt = Some t, step_completedAt = None,
      step_compensation = COMP_PENDING, step_compensationError = None\<rparr>"

definition completeStep :: "saga_step_rec \<Rightarrow> json \<Rightarrow> int \<Rightarrow> saga_step_rec" where
  "completeStep step output t =
     step\<lparr>step_status := STEP_COMPLETED, step_output := output, step_completedAt := Some t\<rparr>"

definition failStep :: "saga_step_rec \<Rightarrow> string \<Rightarrow> int \<Rightarrow> saga_step_rec" where
  "failStep step err t =
     step\<lparr>step_status := STEP_FAILED, step_error := Some err, step_completedAt := Some t\<rparr>"

definition markStepCompensated :: "saga_step_rec \<Rightarrow> saga_step_rec" where
  "markStepCompensated step = step\<lparr>step_compensation := COMP_COMPLETED\<rparr>"

definition markStepCompensationFailed :: "saga_step_rec \<Rightarrow> string \<Rightarrow> saga_step_rec" where
  "markStepCompensationFailed step err =
     step\<lparr>step_compensation := COMP_FAILED, step_compensationError := Some err\<rparr>"

lemmas step_defs =
  createStep_def completeStep_def failStep_def markStepCompensated_def markStepCompensationFailed_def


section \<open>The properties\<close>

text \<open>
  C30. The life of a saga goes one way: every transition the code accepts strictly raises the status in
  the order pending, running, compensating, completed, failed; it keeps the completion time in step
  with the two final statuses and changes nothing else; and a completed or failed saga has no
  transition left.
\<close>

theorem saga_life_monotone:
  assumes "saga_step s s'"
  shows "saga_status s < saga_status s' \<and> saga_status s \<notin> {SAGA_COMPLETED, SAGA_FAILED}
       \<and> (saga_wf s \<longrightarrow> saga_wf s')
       \<and> s' = s\<lparr>saga_status := saga_status s', saga_completedAt := saga_completedAt s'\<rparr>"
proof (intro conjI impI)
  show "saga_status s < saga_status s'" using assms by (rule saga_step_increases)
  show "saga_status s \<notin> {SAGA_COMPLETED, SAGA_FAILED}" using assms saga_step_final by blast
  show "saga_wf s'" if "saga_wf s" using assms that by (rule saga_step_wf)
  show "s' = s\<lparr>saga_status := saga_status s', saga_completedAt := saga_completedAt s'\<rparr>"
    using saga_step_frame [OF assms] by (cases s; cases s') simp
qed

theorem saga_life_monotone_witness:
  "SAGA_PENDING < SAGA_RUNNING
   \<and> saga_wf ((createSagaInstance ''s'' ''o'' 5)\<lparr>saga_status := SAGA_RUNNING\<rparr>)"
  using saga_life_monotone [OF saga_step.start [of "createSagaInstance ''s'' ''o'' 5"]]
  by (simp add: startSaga_def createSagaInstance_def saga_wf_def)

end
