(* ===== verification/World.thy ===== *)
theory World
  imports Order_Entity Saga_Entity
begin

text \<open>
  The state the program works on and its environment.  The tables are those of
  \<open>src/migrations/1716400000001_init.sql\<close> (rows in lists, in insertion order; the inventory, which is only ever
  accessed by its primary key, as a map from SKUs) with its constraints;
  the rest is what the infrastructure modules of \<open>src/src/infrastructure\<close> keep: the advisory locks
  of the database sessions, the Redis keys, the BullMQ queues and the metrics.

  Everything the program cannot determine comes from the environment \<open>env\<close>, an arbitrary schedule
  indexed by a counter of interactions: which interaction fails and how, the readings of the clock,
  the generated UUIDs, the pooled session a query runs on, the responses of HTTP calls.  A theorem
  that holds for every world holds for every schedule of failures and crashes.
\<close>


section \<open>Rows\<close>

datatype outbox_status = OUTBOX_PENDING | OUTBOX_PUBLISHED | OUTBOX_FAILED

record outbox_event =
  ev_id :: string
  ev_aggregateType :: string
  ev_aggregateId :: string
  ev_eventType :: string
  ev_payload :: "(string \<times> json) list"
  ev_headers :: "(string \<times> json) list"
  ev_status :: outbox_status
  ev_retryCount :: int
  ev_createdAt :: int
  ev_processedAt :: "int option"

record order_row =
  or_id :: string
  or_customer_id :: string
  or_status :: order_status
  or_total_amount :: string
  or_currency :: string
  or_idempotency_key :: "string option"
  or_created_at :: int
  or_updated_at :: int

record order_item_row =
  oi_id :: string
  oi_order_id :: string
  oi_sku :: string
  oi_quantity :: int
  oi_unit_price :: string

record inventory_row =
  inv_sku :: string
  inv_available :: int
  inv_reserved :: int
  inv_version :: int

record delivery_row =
  wd_subscription :: string
  wd_event_id :: string
  wd_status :: int
  wd_body :: string

record subscription_row =
  sub_id :: string
  sub_url :: string
  sub_event_types :: "string list"
  sub_secret :: string
  sub_active :: bool

record db =
  db_orders :: "order_row list"
  db_items :: "order_item_row list"
  db_inventory :: "string \<rightharpoonup> inventory_row"
  db_sagas :: "saga_instance list"
  db_steps :: "saga_step_rec list"
  db_outbox :: "outbox_event list"
  db_subscriptions :: "subscription_row list"
  db_deliveries :: "delivery_row list"


section \<open>The environment\<close>

text \<open>
  How an interaction with a server ends: normally; refused before it had an effect; done, with the
  answer lost; or the process dies before or after the effect.
\<close>

datatype fault = Fine | Lost string | Unacked string | CrashBefore | CrashAfter

record http_response =
  http_ok :: bool
  http_status :: int
  http_json :: "json option"
  http_text :: "string option"

text \<open>\<open>fetch\<close> resolves to a response or rejects; \<open>None\<close> stands for a body that cannot be read.\<close>

datatype http_result = Response http_response | NetworkError string

record env =
  e_fault :: "nat \<Rightarrow> fault"
  e_clock :: "nat \<Rightarrow> int"
  e_uuid :: "nat \<Rightarrow> string"
  e_session :: "nat \<Rightarrow> nat"
  e_http :: "nat \<Rightarrow> http_result"

record job =
  job_id :: string
  job_name :: string
  job_data :: json
  job_attempts :: nat
  job_failed :: bool
  job_failedReason :: "string option"
  job_attemptsMade :: nat
  job_timestamp :: int
  job_processedOn :: "int option"
  job_finishedOn :: "int option"

datatype http_body = Form "(string \<times> string) list" | Text string

record http_request =
  rq_url :: string
  rq_headers :: "(string \<times> string) list"
  rq_body :: http_body

text \<open>A BullMQ \<open>Queue\<close> object, as \<open>connection.ts\<close> creates it.\<close>

record queue_handle =
  qh_name :: string
  qh_prefix :: string
  qh_attempts :: nat
  qh_backoffDelay :: nat
  qh_removeOnComplete :: "nat option"
  qh_removeOnFail :: bool

text \<open>The members of the outbox processor; \<open>op_aborted\<close> is \<open>None\<close> before the first start.\<close>

record outbox_processor =
  op_running :: bool
  op_aborted :: "bool option"
  op_queues :: "string \<rightharpoonup> queue_handle"

text \<open>The state of one acquired lock: the \<open>released\<close> flag of its closure and its timer.\<close>

record lock_handle =
  lh_key :: int
  lh_released :: bool
  lh_timer :: bool

record world =
  w_db :: db
  w_tx :: "db option"
  w_locks :: "int \<Rightarrow> (nat \<times> nat) option"
  w_handles :: "lock_handle list"
  w_redis :: "string \<Rightarrow> (string \<times> int option) option"
  w_queues :: "string \<Rightarrow> job list"
  w_counters :: "string \<Rightarrow> nat option"
  w_histograms :: "string \<Rightarrow> int list option"
  w_sent :: "http_request list"
  w_outbox :: outbox_processor
  w_env :: env
  w_tick :: nat

type_synonym 'a io = "(world, 'a) prog"


section \<open>Interactions\<close>

definition tick :: "world \<Rightarrow> world" where
  "tick w = w\<lparr>w_tick := Suc (w_tick w)\<rparr>"

text \<open>One interaction with a server, which may fail as the environment says.\<close>

definition ioM :: "'a io \<Rightarrow> 'a io" where
  "ioM m = (\<lambda>w.
     let w' = tick w in
     case e_fault (w_env w) (w_tick w) of
       Fine \<Rightarrow> m w'
     | Lost msg \<Rightarrow> (Throw (IoError msg), w')
     | Unacked msg \<Rightarrow> (Throw (IoError msg), snd (m w'))
     | CrashBefore \<Rightarrow> (Crashed, w')
     | CrashAfter \<Rightarrow> (Crashed, snd (m w')))"

text \<open>Readings that cannot fail: the clock, a new UUID.\<close>

definition nowM :: "int io" where
  "nowM = (\<lambda>w. (Ok (e_clock (w_env w) (w_tick w)), tick w))"

definition uuidM :: "string io" where
  "uuidM = (\<lambda>w. (Ok (e_uuid (w_env w) (w_tick w)), tick w))"

text \<open>
  \<open>fetch\<close>: the request is on record once it is sent; a process may die around it.
\<close>

definition fetchM :: "http_request \<Rightarrow> http_result io" where
  "fetchM rq = (\<lambda>w.
     let w' = tick w; sent = w'\<lparr>w_sent := w_sent w' @ [rq]\<rparr> in
     case e_fault (w_env w) (w_tick w) of
       Fine \<Rightarrow> (Ok (e_http (w_env w) (w_tick w)), sent)
     | Lost msg \<Rightarrow> (Ok (NetworkError msg), w')
     | Unacked msg \<Rightarrow> (Ok (NetworkError msg), sent)
     | CrashBefore \<Rightarrow> (Crashed, w')
     | CrashAfter \<Rightarrow> (Crashed, sent))"

text \<open>
  The metrics of \<open>src/src/infrastructure/observability/metrics.ts\<close>: two maps from labelled keys.
  The label names of the program are in lower case letters and underscores; \<open>localeCompare\<close> compares
  them as the codes of their characters do.
\<close>

definition labeledKey :: "string \<Rightarrow> (string \<times> string) list \<Rightarrow> string" where
  "labeledKey name labels =
     (if labels \<noteq> []
      then name @ ''{''
           @ commas (map (\<lambda>(k, v). k @ [CHR ''='', CHR 0x22] @ v @ [CHR 0x22])
                       (sort_by (\<lambda>a b. fst a \<le> fst b) labels))
           @ ''}''
      else name)"

definition bump :: "string \<Rightarrow> (string \<Rightarrow> nat option) \<Rightarrow> string \<Rightarrow> nat option" where
  "bump key m = m(key \<mapsto> (case m key of Some n \<Rightarrow> n | None \<Rightarrow> 0) + 1)"

definition push_value :: "string \<Rightarrow> int \<Rightarrow> (string \<Rightarrow> int list option) \<Rightarrow> string \<Rightarrow> int list option" where
  "push_value key v m = m(key \<mapsto> (case m key of Some vs \<Rightarrow> vs | None \<Rightarrow> []) @ [v])"

definition increment :: "string \<Rightarrow> (string \<times> string) list \<Rightarrow> unit io" where
  "increment name labels = modifyM (\<lambda>w. w\<lparr>w_counters := bump (labeledKey name labels) (w_counters w)\<rparr>)"

definition recordHistogram :: "string \<Rightarrow> int \<Rightarrow> (string \<times> string) list \<Rightarrow> unit io" where
  "recordHistogram name v labels =
     modifyM (\<lambda>w. w\<lparr>w_histograms := push_value (labeledKey name labels) v (w_histograms w)\<rparr>)"


section \<open>SQL statements and transactions\<close>

text \<open>
  A statement runs on a connection of the pool, where it commits by itself, or on the connection
  of the open transaction, where it works on the transaction's own view of the data.
\<close>

datatype conn = Pool | Tx

definition view :: "conn \<Rightarrow> world \<Rightarrow> db" where
  "view c w = (case c of Pool \<Rightarrow> w_db w | Tx \<Rightarrow> (case w_tx w of None \<Rightarrow> w_db w | Some d \<Rightarrow> d))"

definition put_view :: "conn \<Rightarrow> db \<Rightarrow> world \<Rightarrow> world" where
  "put_view c d w = (case c of Pool \<Rightarrow> w\<lparr>w_db := d\<rparr> | Tx \<Rightarrow> w\<lparr>w_tx := Some d\<rparr>)"

type_synonym 'a stmt = "db \<Rightarrow> db_error + 'a \<times> db"

definition sqlM :: "conn \<Rightarrow> 'a stmt \<Rightarrow> 'a io" where
  "sqlM c st = ioM (\<lambda>w.
     case st (view c w) of
       Inl e \<Rightarrow> (Throw (DbError e), w)
     | Inr (a, d) \<Rightarrow> (Ok a, put_view c d w))"

text \<open>
  \<open>PostgresTransactionManager.begin\<close>: \<open>sql.begin\<close> opens a transaction, runs the function on its
  connection, commits when it fulfils and rolls back when it rejects.  A dead process leaves the
  transaction without a commit.
\<close>

definition pg_begin :: "(conn \<Rightarrow> 'a io) \<Rightarrow> 'a io" where
  "pg_begin fn = (\<lambda>w.
     case bindM (ioM (modifyM (\<lambda>w. w\<lparr>w_tx := Some (w_db w)\<rparr>)))
            (\<lambda>_. bindM (fn Tx)
            (\<lambda>a. thenM (ioM (modifyM (\<lambda>w. w\<lparr>w_db := view Tx w\<rparr>))) (ret a))) w of
       (r, w') \<Rightarrow> (r, w'\<lparr>w_tx := None\<rparr>))"


section \<open>The calculus on interactions\<close>

lemma wp_ioM [wp_rules]:
  "wp (ioM m) P w =
     (case e_fault (w_env w) (w_tick w) of
        Fine \<Rightarrow> wp m P (tick w)
      | Lost msg \<Rightarrow> P (Throw (IoError msg)) (tick w)
      | Unacked msg \<Rightarrow> wp m (\<lambda>_ w'. P (Throw (IoError msg)) w') (tick w)
      | CrashBefore \<Rightarrow> P Crashed (tick w)
      | CrashAfter \<Rightarrow> wp m (\<lambda>_ w'. P Crashed w') (tick w))"
  by (simp add: wp_def ioM_def Let_def split: fault.splits)

lemma wp_nowM [wp_rules]: "wp nowM P w = P (Ok (e_clock (w_env w) (w_tick w))) (tick w)"
  by (simp add: wp_def nowM_def)

lemma wp_uuidM [wp_rules]: "wp uuidM P w = P (Ok (e_uuid (w_env w) (w_tick w))) (tick w)"
  by (simp add: wp_def uuidM_def)

lemma tick_sel [simp]:
  "w_db (tick w) = w_db w" "w_tx (tick w) = w_tx w" "w_locks (tick w) = w_locks w"
  "w_handles (tick w) = w_handles w" "w_redis (tick w) = w_redis w"
  "w_queues (tick w) = w_queues w" "w_sent (tick w) = w_sent w" "w_outbox (tick w) = w_outbox w" "w_env (tick w) = w_env w"
  "w_counters (tick w) = w_counters w" "w_histograms (tick w) = w_histograms w"
  "w_tick (tick w) = Suc (w_tick w)" "view c (tick w) = view c w"
  by (simp_all add: tick_def view_def split: conn.split option.split)

lemma view_put_view [simp]: "view c (put_view c d w) = d"
  by (cases c) (simp_all add: view_def put_view_def)

lemma put_view_sel [simp]:
  "w_locks (put_view c d w) = w_locks w" "w_handles (put_view c d w) = w_handles w"
  "w_redis (put_view c d w) = w_redis w" "w_queues (put_view c d w) = w_queues w"
  "w_sent (put_view c d w) = w_sent w" "w_outbox (put_view c d w) = w_outbox w" "w_env (put_view c d w) = w_env w"
  "w_counters (put_view c d w) = w_counters w" "w_histograms (put_view c d w) = w_histograms w"
  "w_tick (put_view c d w) = w_tick w"
  by (cases c; simp add: put_view_def)+

lemma view_Pool [simp]: "view Pool w = w_db w"
  by (simp add: view_def)

lemma put_view_Pool [simp]: "w_db (put_view Pool d w) = d" "w_tx (put_view Pool d w) = w_tx w"
  by (simp_all add: put_view_def)

lemma put_view_Tx [simp]: "w_db (put_view Tx d w) = w_db w" "w_tx (put_view Tx d w) = Some d"
  by (simp_all add: put_view_def)

lemma wp_sqlM:
  "(\<And>e. st (view c w) = Inl e \<Longrightarrow> P (Throw (DbError e)) (tick w)) \<Longrightarrow>
   (\<And>a d. st (view c w) = Inr (a, d) \<Longrightarrow> P (Ok a) (put_view c d (tick w))) \<Longrightarrow>
   (\<And>msg. P (Throw (IoError msg)) (tick w)) \<Longrightarrow> P Crashed (tick w) \<Longrightarrow>
   (\<And>msg a d. st (view c w) = Inr (a, d) \<Longrightarrow> P (Throw (IoError msg)) (put_view c d (tick w))) \<Longrightarrow>
   (\<And>a d. st (view c w) = Inr (a, d) \<Longrightarrow> P Crashed (put_view c d (tick w))) \<Longrightarrow>
   wp (sqlM c st) P w"
  unfolding sqlM_def wp_ioM
  by (auto simp: wp_def split: fault.split sum.split prod.split)

text \<open>
  What an interaction can do to a part of the world is what its body can do; a relation on that
  part is enough.
\<close>

definition ticks :: "(world \<Rightarrow> world \<Rightarrow> bool) \<Rightarrow> bool" where
  "ticks R \<longleftrightarrow> (\<forall>w. R w (tick w))"

lemma upholds_ioM:
  assumes "preord R" and "ticks R" and "upholds R m"
  shows "upholds R (ioM m)"
proof (rule upholdsI)
  fix w
  have "R w (tick w)" using assms(2) by (simp add: ticks_def)
  moreover from this have "R w (snd (m (tick w)))"
    using preord_trans [OF assms(1)] upholds_snd [OF assms(3)] by blast
  ultimately show "R w (snd (ioM m w))"
    by (simp add: ioM_def Let_def split: fault.splits)
qed

lemma upholds_nowM [upholds_intros]: "ticks R \<Longrightarrow> upholds R nowM"
  by (simp add: upholds_def nowM_def ticks_def)

lemma upholds_uuidM [upholds_intros]: "ticks R \<Longrightarrow> upholds R uuidM"
  by (simp add: upholds_def uuidM_def ticks_def)

text \<open>A relation that looks at the committed data only.\<close>

definition on_db :: "(db \<Rightarrow> db \<Rightarrow> bool) \<Rightarrow> world \<Rightarrow> world \<Rightarrow> bool" where
  "on_db R w w' \<longleftrightarrow> R (w_db w) (w_db w')"

lemma preord_on_db [intro, simp]: "preord R \<Longrightarrow> preord (on_db R)"
  unfolding preord_def on_db_def by blast

lemma ticks_on_db [intro, simp]: "preord R \<Longrightarrow> ticks (on_db R)"
  by (simp add: ticks_def on_db_def preord_refl)

lemma upholds_increment [upholds_intros]: "preord R \<Longrightarrow> upholds (on_db R) (increment n l)"
  by (simp add: increment_def upholds_def modifyM_def on_db_def preord_refl)

lemma upholds_recordHistogram [upholds_intros]:
  "preord R \<Longrightarrow> upholds (on_db R) (recordHistogram n v l)"
  by (simp add: recordHistogram_def upholds_def modifyM_def on_db_def preord_refl)

lemma upholds_fetchM [upholds_intros]: "preord R \<Longrightarrow> upholds (on_db R) (fetchM rq)"
  by (simp add: fetchM_def upholds_def on_db_def preord_refl Let_def split: fault.splits)

lemma wp_fetchMI:
  assumes "\<And>n. P (Ok (e_http (w_env w) (w_tick w))) (w\<lparr>w_tick := n, w_sent := w_sent w @ [rq]\<rparr>)"
    and "\<And>m n. P (Ok (NetworkError m)) (w\<lparr>w_tick := n\<rparr>)"
    and "\<And>m n. P (Ok (NetworkError m)) (w\<lparr>w_tick := n, w_sent := w_sent w @ [rq]\<rparr>)"
    and "\<And>n. P Crashed (w\<lparr>w_tick := n\<rparr>)" and "\<And>n. P Crashed (w\<lparr>w_tick := n, w_sent := w_sent w @ [rq]\<rparr>)"
  shows "wp (fetchM rq) P w"
proof -
  have eq: "(tick w)\<lparr>w_sent := w_sent w @ [rq]\<rparr> = w\<lparr>w_tick := Suc (w_tick w), w_sent := w_sent w @ [rq]\<rparr>"
    "tick w = w\<lparr>w_tick := Suc (w_tick w)\<rparr>"
    by (simp_all add: tick_def)
  show ?thesis
    using assms unfolding wp_def fetchM_def Let_def tick_sel eq by (simp split: fault.split)
qed

lemma upholds_http_result [upholds_intros]:
  "(\<And>m. upholds R (g m)) \<Longrightarrow> (\<And>r. upholds R (f r)) \<Longrightarrow>
     upholds R (case res of Response r \<Rightarrow> f r | NetworkError m \<Rightarrow> g m)"
  by (cases res) simp_all

text \<open>A statement upholds a relation when its effect on the data does.\<close>

definition stmt_in :: "(db \<Rightarrow> db \<Rightarrow> bool) \<Rightarrow> 'a stmt \<Rightarrow> bool" where
  "stmt_in R st \<longleftrightarrow> (\<forall>d a d'. st d = Inr (a, d') \<longrightarrow> R d d')"

lemma upholds_sqlM_Pool:
  assumes "preord R" and "stmt_in R st"
  shows "upholds (on_db R) (sqlM Pool st)"
  unfolding sqlM_def
proof (rule upholds_ioM)
  show "upholds (on_db R) (\<lambda>w. case st (view Pool w) of
          Inl e \<Rightarrow> (Throw (DbError e), w) | Inr (a, d) \<Rightarrow> (Ok a, put_view Pool d w))"
    using assms(2) preord_refl [OF assms(1)]
    by (auto simp: upholds_def on_db_def stmt_in_def split: sum.splits prod.splits)
qed (use assms(1) in auto)

text \<open>
  Inside a transaction the committed data stay as they are until the commit; at the commit they
  become the view the transaction has built, by statements of \<open>R\<close>.
\<close>

definition in_tx :: "(db \<Rightarrow> db \<Rightarrow> bool) \<Rightarrow> world \<Rightarrow> world \<Rightarrow> bool" where
  "in_tx R w w' \<longleftrightarrow> w_db w' = w_db w \<and> R (view Tx w) (view Tx w')"

lemma preord_in_tx [intro, simp]: "preord R \<Longrightarrow> preord (in_tx R)"
  unfolding preord_def in_tx_def by metis

lemma ticks_in_tx [intro, simp]: "preord R \<Longrightarrow> ticks (in_tx R)"
  by (simp add: ticks_def in_tx_def preord_refl)

lemma upholds_sqlM_Tx:
  assumes "preord R" and "stmt_in R st"
  shows "upholds (in_tx R) (sqlM Tx st)"
  unfolding sqlM_def
proof (rule upholds_ioM)
  show "upholds (in_tx R) (\<lambda>w. case st (view Tx w) of
          Inl e \<Rightarrow> (Throw (DbError e), w) | Inr (a, d) \<Rightarrow> (Ok a, put_view Tx d w))"
    using assms(2) preord_refl [OF assms(1)]
    by (auto simp: upholds_def in_tx_def stmt_in_def split: sum.splits prod.splits)
qed (use assms(1) in auto)

lemma wp_pg_begin [wp_rules]:
  "wp (pg_begin fn) P w =
     wp (bindM (ioM (modifyM (\<lambda>w. w\<lparr>w_tx := Some (w_db w)\<rparr>)))
          (\<lambda>_. bindM (fn Tx)
          (\<lambda>a. thenM (ioM (modifyM (\<lambda>w. w\<lparr>w_db := view Tx w\<rparr>))) (ret a))))
        (\<lambda>r w'. P r (w'\<lparr>w_tx := None\<rparr>)) w"
  by (simp add: wp_def pg_begin_def split: prod.splits)

text \<open>
  Atomicity, in general: whatever the body does on the connection of the transaction, and whatever
  fails, the committed data after \<open>begin\<close> are the data before it, or a state the whole body leads
  to from them.
\<close>

lemma pg_begin_atomic:
  assumes body: "\<And>w. wp (fn Tx) (\<lambda>r w'. w_db w' = w_db w \<and> (\<forall>a. r = Ok a \<longrightarrow> Q (view Tx w) (view Tx w'))) w"
  shows "wp (pg_begin fn) (\<lambda>r w'. w_tx w' = None \<and>
           ((\<forall>a. r \<noteq> Ok a) \<and> w_db w' = w_db w \<or> Q (w_db w) (w_db w'))) w"
proof -
  have *: "wp (fn Tx) (\<lambda>r w'. w_db w' = w_db w \<and> (\<forall>a. r = Ok a \<longrightarrow> Q (w_db w) (view Tx w'))) w1"
    if "w_db w1 = w_db w" "w_tx w1 = Some (w_db w)" for w1
    using body [of w1] that by (simp add: view_def)
  show ?thesis
    unfolding wp_pg_begin
    by (auto simp: wp_rules intro!: wp_mono [OF *] split: fault.splits res.splits)
qed

lemma upholds_pg_begin:
  assumes R: "preord R" and body: "upholds (in_tx R) (fn Tx)"
  shows "upholds (on_db R) (pg_begin fn)"
proof (rule upholdsI)
  fix w
  have "wp (pg_begin fn) (\<lambda>r w'. w_tx w' = None \<and>
           ((\<forall>a. r \<noteq> Ok a) \<and> w_db w' = w_db w \<or> R (w_db w) (w_db w'))) w"
  proof (rule pg_begin_atomic)
    show "wp (fn Tx) (\<lambda>r w'. w_db w' = w_db w \<and> (\<forall>a. r = Ok a \<longrightarrow> R (view Tx w) (view Tx w'))) w" for w
      using upholds_snd [OF body, of w] by (simp add: wp_def in_tx_def)
  qed
  then show "on_db R w (snd (pg_begin fn w))"
    using preord_refl [OF R] by (auto simp: wp_def on_db_def)
qed

text \<open>A statement by what it does to the view it works on, whatever fails around it.\<close>

lemma wp_sql_Tx:
  "wp (sqlM Tx st) (\<lambda>r w'. w_db w' = w_db w \<and> (\<forall>a. r = Ok a \<longrightarrow> st (view Tx w) = Inr (a, view Tx w'))) w"
  by (rule wp_sqlM) simp_all

lemma wp_sql_Pool:
  "wp (sqlM Pool st) (\<lambda>r w'. w_tx w' = w_tx w
      \<and> ((\<forall>a. r \<noteq> Ok a) \<and> w_db w' = w_db w
         \<or> (\<exists>a. st (w_db w) = Inr (a, w_db w') \<and> (\<forall>b. r = Ok b \<longrightarrow> b = a)))) w"
  by (rule wp_sqlM) auto

lemma put_view_tick: "put_view Pool d (tick w) = w\<lparr>w_db := d, w_tick := Suc (w_tick w)\<rparr>"
  by (simp add: put_view_def tick_def)

lemma wp_sql_worldI:
  assumes "\<And>n r. \<forall>a. r \<noteq> Ok a \<Longrightarrow> P r (w\<lparr>w_tick := n\<rparr>)"
    and "\<And>a d n r. st (w_db w) = Inr (a, d) \<Longrightarrow> \<forall>b. r = Ok b \<longrightarrow> b = a \<Longrightarrow> P r (w\<lparr>w_db := d, w_tick := n\<rparr>)"
  shows "wp (sqlM Pool st) P w"
proof (rule wp_sqlM)
  have no: "P r (tick w)" if "\<forall>a. r \<noteq> Ok a" for r
    using assms(1) [OF that] by (simp add: tick_def)
  have yes: "P r (put_view Pool d (tick w))" if "st (view Pool w) = Inr (a, d)" "\<forall>b. r = Ok b \<longrightarrow> b = a" for r a d
    unfolding put_view_tick using assms(2) that by simp
  show "P (Throw (DbError e)) (tick w)" "P (Throw (IoError m)) (tick w)" "P Crashed (tick w)" for e m
    by (rule no; simp)+
  show "P (Ok a) (put_view Pool d (tick w))" "P (Throw (IoError m)) (put_view Pool d (tick w))"
    "P Crashed (put_view Pool d (tick w))" if "st (view Pool w) = Inr (a, d)" for a d m
    by (rule yes [OF that]; simp)+
qed


section \<open>The transaction manager\<close>

text \<open>
  \<open>ITransactionManager\<close> of \<open>src/src/domain/ports/transaction-manager.ts\<close>; every caller runs a function
  without a result.  The locale is what the services rely on: the committed data after \<open>begin\<close> are
  those before it, or those the whole function has built.
\<close>

record tx_manager =
  tm_begin :: "(conn \<Rightarrow> unit io) \<Rightarrow> unit io"

definition pg_tx_manager :: tx_manager where
  "pg_tx_manager = \<lparr>tm_begin = pg_begin\<rparr>"

locale tx_port =
  fixes tm :: tx_manager
  assumes atomic:
    "\<And>fn Q w. (\<And>w. wp (fn Tx) (\<lambda>r w'. w_db w' = w_db w
                  \<and> (\<forall>a. r = Ok a \<longrightarrow> Q (view Tx w) (view Tx w'))) w) \<Longrightarrow>
       wp (tm_begin tm fn) (\<lambda>r w'. w_tx w' = None
           \<and> ((\<forall>a. r \<noteq> Ok a) \<and> w_db w' = w_db w \<or> Q (w_db w) (w_db w'))) w"
begin

lemma begin_upholds:
  assumes "preord R" and "upholds (in_tx R) (fn Tx)"
  shows "upholds (on_db R) (tm_begin tm fn)"
proof (rule upholdsI)
  fix w
  have "wp (tm_begin tm fn) (\<lambda>r w'. w_tx w' = None
          \<and> ((\<forall>a. r \<noteq> Ok a) \<and> w_db w' = w_db w \<or> R (w_db w) (w_db w'))) w"
  proof (rule atomic)
    show "wp (fn Tx) (\<lambda>r w'. w_db w' = w_db w \<and> (\<forall>a. r = Ok a \<longrightarrow> R (view Tx w) (view Tx w'))) w" for w
      using upholds_snd [OF assms(2), of w] by (simp add: wp_def in_tx_def)
  qed
  then show "on_db R w (snd (tm_begin tm fn w))"
    using preord_refl [OF assms(1)] by (auto simp: wp_def on_db_def)
qed

end

interpretation pg_tx: tx_port pg_tx_manager
  by unfold_locales (unfold pg_tx_manager_def tx_manager.simps, rule pg_begin_atomic)



section \<open>Concrete worlds\<close>

text \<open>
  A quiet environment (nothing fails, the clock counts the interactions, identifiers are numerals, one
  database session) and a world over given data: what the examples of the library run on.
\<close>

definition quiet_env :: env where
  "quiet_env =
     \<lparr>e_fault = (\<lambda>_. Fine), e_clock = (\<lambda>n. int n), e_uuid = digits_of, e_session = (\<lambda>_. 0),
      e_http = (\<lambda>_. NetworkError ''unreachable'')\<rparr>"

text \<open>A world where nothing fails, whatever the clock, the sessions and the network answer.\<close>

definition quiet :: "world \<Rightarrow> bool" where
  "quiet w \<longleftrightarrow> (\<forall>n. e_fault (w_env w) n = Fine)"

lemma quiet_sel [simp]:
  "quiet (tick w) = quiet w" "quiet (w\<lparr>w_db := d\<rparr>) = quiet w" "quiet (w\<lparr>w_tick := n\<rparr>) = quiet w"
  "quiet (w\<lparr>w_counters := c\<rparr>) = quiet w"
  by (simp_all add: quiet_def tick_def)

lemma wp_sql_quiet:
  assumes "quiet w" and "st (w_db w) = Inr (a, d)" and "P (Ok a) (w\<lparr>w_db := d, w_tick := Suc (w_tick w)\<rparr>)"
  shows "wp (sqlM Pool st) P w"
  using assms by (simp add: wp_def sqlM_def ioM_def quiet_def put_view_tick)

definition empty_db :: db where
  "empty_db =
     \<lparr>db_orders = [], db_items = [], db_inventory = Map.empty, db_sagas = [], db_steps = [],
      db_outbox = [], db_subscriptions = [], db_deliveries = []\<rparr>"

definition world_of :: "env \<Rightarrow> db \<Rightarrow> world" where
  "world_of e d =
     \<lparr>w_db = d, w_tx = None, w_locks = Map.empty, w_handles = [], w_redis = Map.empty,
      w_queues = (\<lambda>_. []), w_counters = Map.empty, w_histograms = Map.empty, w_sent = [],
      w_outbox = \<lparr>op_running = False, op_aborted = None, op_queues = Map.empty\<rparr>,
      w_env = e, w_tick = 0\<rparr>"

definition stocked :: "string \<Rightarrow> int \<Rightarrow> db \<Rightarrow> db" where
  "stocked s q d = d\<lparr>db_inventory := (db_inventory d)(s \<mapsto>
     \<lparr>inv_sku = s, inv_available = q, inv_reserved = 0, inv_version = 1\<rparr>)\<rparr>"

end
