(* ===== verification/Tables.thy ===== *)
theory Tables
  imports World
begin

text \<open>
  What a statement does to one table: an insertion under the constraints of the migration, an update
  of the rows that satisfy a condition, a selection in the order of a column.  The repositories are
  written over these, and their lemmas rest on the facts shown here.
\<close>

definition int4 :: "int \<Rightarrow> bool" where
  "int4 n \<longleftrightarrow> - (2 ^ 31) \<le> n \<and> n < 2 ^ 31"

text \<open>
  \<open>NUMERIC(12,2)\<close> holds at most ten digits before the point; the amounts written to such a column
  are the two-digit strings of \<open>Money\<close> and are read back as they were written.
\<close>

definition numeric_12_2 :: "string \<Rightarrow> bool" where
  "numeric_12_2 s \<longleftrightarrow> length (takeWhile (\<lambda>c. c \<noteq> CHR ''.'') s) \<le> 10"

text \<open>The first violated requirement refuses the statement.\<close>

primrec require :: "(bool \<times> db_error) list \<Rightarrow> 'a \<Rightarrow> db_error + 'a" where
  "require [] x = Inr x"
| "require (c # cs) x = (if fst c then require cs x else Inl (snd c))"

lemma require_Inr_iff: "require cs x = Inr y \<longleftrightarrow> y = x \<and> (\<forall>c \<in> set cs. fst c)"
  by (induction cs) auto

text \<open>\<open>UPDATE t SET f WHERE p\<close>: the number of rows it touches and the new table.\<close>

primrec update_where ::
    "('r \<Rightarrow> bool) \<Rightarrow> ('r \<Rightarrow> db_error + 'r) \<Rightarrow> 'r list \<Rightarrow> db_error + nat \<times> 'r list" where
  "update_where p f [] = Inr (0, [])"
| "update_where p f (r # rs) =
     (if p r
      then (case f r of Inl e \<Rightarrow> Inl e | Inr r' \<Rightarrow>
              (case update_where p f rs of Inl e \<Rightarrow> Inl e | Inr (n, rs') \<Rightarrow> Inr (Suc n, r' # rs')))
      else (case update_where p f rs of Inl e \<Rightarrow> Inl e | Inr (n, rs') \<Rightarrow> Inr (n, r # rs')))"

definition row_updated :: "('r \<Rightarrow> bool) \<Rightarrow> ('r \<Rightarrow> db_error + 'r) \<Rightarrow> 'r \<Rightarrow> 'r \<Rightarrow> bool" where
  "row_updated p f r r' \<longleftrightarrow> (if p r then f r = Inr r' else r' = r)"

lemma row_updated_simps [simp]:
  "p r \<Longrightarrow> row_updated p f r r' \<longleftrightarrow> f r = Inr r'"
  "\<not> p r \<Longrightarrow> row_updated p f r r' \<longleftrightarrow> r' = r"
  by (simp_all add: row_updated_def)

lemma update_where_Inr:
  "update_where p f rs = Inr (n, rs') \<Longrightarrow>
     n = length (filter p rs) \<and> list_all2 (row_updated p f) rs rs'"
proof (induction rs arbitrary: n rs')
  case Nil
  then show ?case by simp
next
  case (Cons r rs)
  then show ?case
    by (auto split: if_splits sum.splits prod.splits)
qed

text \<open>An update whose new values break no constraint.\<close>

definition update_all :: "('r \<Rightarrow> bool) \<Rightarrow> ('r \<Rightarrow> 'r) \<Rightarrow> 'r list \<Rightarrow> 'r list" where
  "update_all p f rs = map (\<lambda>r. if p r then f r else r) rs"

lemma length_update_all [simp]: "length (update_all p f rs) = length rs"
  by (simp add: update_all_def)

lemma set_update_all: "r \<in> set (update_all p f rs) \<longleftrightarrow> (\<exists>x \<in> set rs. r = (if p x then f x else x))"
  by (auto simp: update_all_def)

lemma update_all_Nil [simp]: "update_all p f [] = []"
  and update_all_Cons [simp]:
    "update_all p f (r # rs) = (if p r then f r else r) # update_all p f rs"
  and update_all_append [simp]:
    "update_all p f (rs @ rs') = update_all p f rs @ update_all p f rs'"
  by (simp_all add: update_all_def)

lemma update_all_idle: "(\<And>r. r \<in> set rs \<Longrightarrow> \<not> p r) \<Longrightarrow> update_all p f rs = rs"
  by (induction rs) auto

lemma map_update_all: "(\<And>r. g (f r) = g r) \<Longrightarrow> map g (update_all p f rs) = map g rs"
  by (induction rs) auto

lemma find_update_all:
  "(\<And>r. q (f r) = q r) \<Longrightarrow>
     find q (update_all p f rs) = map_option (\<lambda>r. if p r then f r else r) (find q rs)"
  by (induction rs) auto

lemma bex_update_all: "(\<And>r. q (f r) = q r) \<Longrightarrow> (\<exists>r \<in> set (update_all p f rs). q r) = (\<exists>r \<in> set rs. q r)"
  by (induction rs) auto

lemma ball_update_all: "(\<forall>r \<in> set (update_all p f rs). q r) = (\<forall>r \<in> set rs. q (if p r then f r else r))"
  by (induction rs) auto

lemma image_update_all: "(\<And>r. g (f r) = g r) \<Longrightarrow> g ` set (update_all p f rs) = g ` set rs"
  by (metis list.set_map map_update_all)

lemma filter_update_all_other:
  "(\<And>r. p r \<Longrightarrow> \<not> q r) \<Longrightarrow> (\<And>r. p r \<Longrightarrow> \<not> q (f r)) \<Longrightarrow> filter q (update_all p f rs) = filter q rs"
  by (induction rs) auto

text \<open>Rows with pairwise different keys: a primary key.\<close>

definition keyed :: "('r \<Rightarrow> 'k) \<Rightarrow> 'r list \<Rightarrow> bool" where
  "keyed k rs \<longleftrightarrow> distinct (map k rs)"

lemma keyed_simps [simp]:
  "keyed k []"
  "keyed k (r # rs) \<longleftrightarrow> k r \<notin> k ` set rs \<and> keyed k rs"
  by (simp_all add: keyed_def)

lemma keyed_append: "keyed k (rs @ [r]) \<longleftrightarrow> keyed k rs \<and> k r \<notin> k ` set rs"
  by (auto simp: keyed_def)

lemma keyed_update_all: "(\<And>r. k (f r) = k r) \<Longrightarrow> keyed k (update_all p f rs) = keyed k rs"
  by (simp add: keyed_def map_update_all)

lemma keyed_find:
  "keyed k rs \<Longrightarrow> r \<in> set rs \<Longrightarrow> find (\<lambda>x. k x = k r) rs = Some r"
  by (induction rs) (auto simp: image_iff)

lemma keyed_filter:
  "keyed k rs \<Longrightarrow> filter (\<lambda>x. k x = v) rs = (case find (\<lambda>x. k x = v) rs of None \<Rightarrow> [] | Some r \<Rightarrow> [r])"
proof (induction rs)
  case Nil
  then show ?case by simp
next
  case (Cons r rs)
  show ?case
  proof (cases "k r = v")
    case True
    with Cons.prems have "filter (\<lambda>x. k x = v) rs = []"
      by (auto simp: filter_empty_conv image_iff)
    with True show ?thesis by simp
  next
    case False
    with Cons show ?thesis by simp
  qed
qed

text \<open>A table after a statement, by the rows it changes.\<close>

lemma stmt_inI: "(\<And>d a d'. st d = Inr (a, d') \<Longrightarrow> R d d') \<Longrightarrow> stmt_in R st"
  by (simp add: stmt_in_def)

end
