(* ===== verification/Repositories.thy ===== *)
theory Repositories
  imports Tables
begin

text \<open>
  \<open>src/src/domain/repositories\<close>: the four repositories over the tables, each as the record of
  operations its interface in \<open>interfaces.ts\<close> declares, and their implementations over PostgreSQL.
\<close>


section \<open>Orders\<close>

record order_repo =
  or_findById :: "string \<Rightarrow> order option io"
  or_findByIdempotencyKey :: "string \<Rightarrow> order option io"
  or_createWithSql :: "order \<Rightarrow> conn \<Rightarrow> unit io"
  or_updateStatus :: "string \<Rightarrow> order_status \<Rightarrow> conn \<Rightarrow> unit io"

definition item_toDomain :: "'d decimal_lib \<Rightarrow> string \<Rightarrow> order_item_row \<Rightarrow> error + order_item" where
  "item_toDomain L cur ir =
     bindE (new_sku (oi_sku ir)) (\<lambda>sk.
     bindE (new_money L (oi_unit_price ir) cur) (\<lambda>p.
     Inr \<lparr>item_id = oi_id ir, item_orderId = oi_order_id ir, item_sku = sk,
          item_quantity = oi_quantity ir, item_unitPrice = p\<rparr>))"

definition order_toDomain ::
    "'d decimal_lib \<Rightarrow> order_row \<Rightarrow> order_item_row list \<Rightarrow> error + order" where
  "order_toDomain L row itemRows =
     bindE (mapE (item_toDomain L (or_currency row)) itemRows) (\<lambda>items.
     bindE (new_money L (or_total_amount row) (or_currency row)) (\<lambda>total.
     Inr \<lparr>order_id = or_id row, order_customerId = or_customer_id row,
          order_status = or_status row, order_totalAmount = total,
          order_currency = or_currency row, order_idempotencyKey = or_idempotency_key row,
          order_items = items, order_createdAt = or_created_at row,
          order_updatedAt = or_updated_at row\<rparr>))"

definition select_order :: "(order_row \<Rightarrow> bool) \<Rightarrow> order_row option stmt" where
  "select_order p d = Inr (find p (db_orders d), d)"

definition select_items :: "string \<Rightarrow> order_item_row list stmt" where
  "select_items oid d =
     Inr (sort_by (\<lambda>a b. oi_id a \<le> oi_id b) (filter (\<lambda>r. oi_order_id r = oid) (db_items d)), d)"

definition order_findById :: "'d decimal_lib \<Rightarrow> string \<Rightarrow> order option io" where
  "order_findById L oid =
     bindM (sqlM Pool (select_order (\<lambda>r. or_id r = oid))) (\<lambda>row.
     case row of
       None \<Rightarrow> ret None
     | Some r \<Rightarrow> bindM (sqlM Pool (select_items oid)) (\<lambda>itemRows.
                bindM (liftR (order_toDomain L r itemRows)) (\<lambda>ord. ret (Some ord))))"

definition order_findByIdempotencyKey :: "'d decimal_lib \<Rightarrow> string \<Rightarrow> order option io" where
  "order_findByIdempotencyKey L key =
     bindM (sqlM Pool (select_order (\<lambda>r. or_idempotency_key r = Some key))) (\<lambda>row.
     case row of
       None \<Rightarrow> ret None
     | Some r \<Rightarrow> bindM (sqlM Pool (select_items (or_id r))) (\<lambda>itemRows.
                bindM (liftR (order_toDomain L r itemRows)) (\<lambda>ord. ret (Some ord))))"

text \<open>The row and the item rows \<open>createWithSql\<close> writes for an order.\<close>

definition order_row_of :: "order \<Rightarrow> order_row" where
  "order_row_of ord =
     \<lparr>or_id = order_id ord, or_customer_id = order_customerId ord, or_status = order_status ord,
      or_total_amount = amount (order_totalAmount ord), or_currency = order_currency ord,
      or_idempotency_key = order_idempotencyKey ord,
      or_created_at = order_createdAt ord, or_updated_at = order_updatedAt ord\<rparr>"

definition item_row_of :: "order_item \<Rightarrow> order_item_row" where
  "item_row_of item =
     \<lparr>oi_id = item_id item, oi_order_id = item_orderId item, oi_sku = sku_value (item_sku item),
      oi_quantity = item_quantity item, oi_unit_price = amount (item_unitPrice item)\<rparr>"

definition insert_order :: "order_row \<Rightarrow> unit stmt" where
  "insert_order r d =
     require [
       (length (or_customer_id r) \<le> 64, ValueTooLong ''orders.customer_id''),
       (numeric_12_2 (or_total_amount r), NumericOutOfRange ''orders.total_amount''),
       (length (or_currency r) \<le> 3, ValueTooLong ''orders.currency''),
       (case or_idempotency_key r of None \<Rightarrow> True | Some k \<Rightarrow> length k \<le> 255,
          ValueTooLong ''orders.idempotency_key''),
       (or_id r \<notin> or_id ` set (db_orders d), UniqueViolation ''orders_pkey''),
       (or_idempotency_key r = None \<or> or_idempotency_key r \<notin> or_idempotency_key ` set (db_orders d),
          UniqueViolation ''orders_idempotency_key_key'')]
     ((), d\<lparr>db_orders := db_orders d @ [r]\<rparr>)"

text \<open>A bulk \<open>INSERT\<close> is one statement: a row that is refused refuses all of them.\<close>

definition item_row_ok :: "db \<Rightarrow> order_item_row \<Rightarrow> bool" where
  "item_row_ok d r \<longleftrightarrow> length (oi_sku r) \<le> 64 \<and> 0 < oi_quantity r \<and> int4 (oi_quantity r)
     \<and> numeric_12_2 (oi_unit_price r)"

definition insert_items :: "order_item_row list \<Rightarrow> unit stmt" where
  "insert_items rs d =
     require [
       (list_all (item_row_ok d) rs, CheckViolation ''order_items''),
       (keyed oi_id (db_items d @ rs), UniqueViolation ''order_items_pkey''),
       (oi_order_id ` set rs \<subseteq> or_id ` set (db_orders d), ForeignKeyViolation ''order_items_order_id_fkey'')]
     ((), d\<lparr>db_items := db_items d @ rs\<rparr>)"

definition order_createWithSql :: "order \<Rightarrow> conn \<Rightarrow> unit io" where
  "order_createWithSql ord tx =
     thenM (sqlM tx (insert_order (order_row_of ord)))
       (whenM (0 < length (order_items ord))
          (sqlM tx (insert_items (map item_row_of (order_items ord)))))"

definition set_order_status :: "string \<Rightarrow> order_status \<Rightarrow> int \<Rightarrow> unit stmt" where
  "set_order_status oid st t d =
     Inr ((), d\<lparr>db_orders := update_all (\<lambda>r. or_id r = oid)
                               (\<lambda>r. r\<lparr>or_status := st, or_updated_at := t\<rparr>) (db_orders d)\<rparr>)"

definition order_updateStatus :: "string \<Rightarrow> order_status \<Rightarrow> conn \<Rightarrow> unit io" where
  "order_updateStatus oid st tx = bindM nowM (\<lambda>t. sqlM tx (set_order_status oid st t))"

definition pg_order_repo :: "'d decimal_lib \<Rightarrow> order_repo" where
  "pg_order_repo L =
     \<lparr>or_findById = order_findById L, or_findByIdempotencyKey = order_findByIdempotencyKey L,
      or_createWithSql = order_createWithSql, or_updateStatus = order_updateStatus\<rparr>"


section \<open>Outbox\<close>

text \<open>What the callers supply of an event: all but the identifier and the two times.\<close>

record new_event =
  ne_aggregateType :: string
  ne_aggregateId :: string
  ne_eventType :: string
  ne_payload :: "(string \<times> json) list"
  ne_headers :: "(string \<times> json) list"
  ne_status :: outbox_status
  ne_retryCount :: int

record outbox_repo =
  ob_createWithSql :: "new_event \<Rightarrow> conn \<Rightarrow> string io"
  ob_getPending :: "nat \<Rightarrow> outbox_event list io"
  ob_markPublished :: "string \<Rightarrow> unit io"
  ob_markFailed :: "string \<Rightarrow> bool \<Rightarrow> unit io"
  ob_resetForRetry :: "string \<Rightarrow> unit io"

definition event_row_of :: "new_event \<Rightarrow> string \<Rightarrow> int \<Rightarrow> outbox_event" where
  "event_row_of e eid t =
     \<lparr>ev_id = eid, ev_aggregateType = ne_aggregateType e, ev_aggregateId = ne_aggregateId e,
      ev_eventType = ne_eventType e, ev_payload = ne_payload e, ev_headers = ne_headers e,
      ev_status = ne_status e, ev_retryCount = ne_retryCount e, ev_createdAt = t,
      ev_processedAt = None\<rparr>"

definition insert_event :: "outbox_event \<Rightarrow> unit stmt" where
  "insert_event e d =
     require [
       (length (ev_aggregateType e) \<le> 64 \<and> length (ev_aggregateId e) \<le> 64
          \<and> length (ev_eventType e) \<le> 64, ValueTooLong ''outbox_events''),
       (ev_id e \<notin> ev_id ` set (db_outbox d), UniqueViolation ''outbox_events_pkey'')]
     ((), d\<lparr>db_outbox := db_outbox d @ [e]\<rparr>)"

definition outbox_createWithSql :: "new_event \<Rightarrow> conn \<Rightarrow> string io" where
  "outbox_createWithSql e tx =
     bindM uuidM (\<lambda>eid. bindM nowM (\<lambda>t.
     thenM (sqlM tx (insert_event (event_row_of e eid t))) (ret eid)))"

text \<open>
  \<open>FOR UPDATE SKIP LOCKED\<close> runs outside a transaction: the row locks end with the statement.
\<close>

definition select_pending :: "nat \<Rightarrow> outbox_event list stmt" where
  "select_pending maxRows d =
     Inr (take maxRows (sort_by (\<lambda>a b. ev_createdAt a \<le> ev_createdAt b)
                      (filter (\<lambda>e. ev_status e = OUTBOX_PENDING) (db_outbox d))), d)"

definition outbox_getPending :: "nat \<Rightarrow> outbox_event list io" where
  "outbox_getPending maxRows = sqlM Pool (select_pending maxRows)"

definition set_event :: "string \<Rightarrow> (outbox_event \<Rightarrow> outbox_event) \<Rightarrow> unit stmt" where
  "set_event eid f d = Inr ((), d\<lparr>db_outbox := update_all (\<lambda>e. ev_id e = eid) f (db_outbox d)\<rparr>)"

definition outbox_markPublished :: "string \<Rightarrow> unit io" where
  "outbox_markPublished eid = bindM nowM (\<lambda>t.
     sqlM Pool (set_event eid (\<lambda>e. e\<lparr>ev_status := OUTBOX_PUBLISHED, ev_processedAt := Some t\<rparr>)))"

definition outbox_markFailed :: "string \<Rightarrow> bool \<Rightarrow> unit io" where
  "outbox_markFailed eid incrementRetry = bindM nowM (\<lambda>t.
     if incrementRetry
     then sqlM Pool (set_event eid (\<lambda>e. e\<lparr>ev_status := OUTBOX_FAILED,
            ev_retryCount := ev_retryCount e + 1, ev_processedAt := Some t\<rparr>))
     else sqlM Pool (set_event eid (\<lambda>e. e\<lparr>ev_status := OUTBOX_FAILED, ev_processedAt := Some t\<rparr>)))"

definition outbox_resetForRetry :: "string \<Rightarrow> unit io" where
  "outbox_resetForRetry eid =
     sqlM Pool (set_event eid (\<lambda>e. e\<lparr>ev_status := OUTBOX_PENDING, ev_retryCount := ev_retryCount e + 1\<rparr>))"

definition pg_outbox_repo :: outbox_repo where
  "pg_outbox_repo =
     \<lparr>ob_createWithSql = outbox_createWithSql, ob_getPending = outbox_getPending,
      ob_markPublished = outbox_markPublished, ob_markFailed = outbox_markFailed,
      ob_resetForRetry = outbox_resetForRetry\<rparr>"


section \<open>Sagas\<close>

record saga_repo =
  sg_findById :: "string \<Rightarrow> saga_instance option io"
  sg_findByOrderId :: "string \<Rightarrow> saga_instance option io"
  sg_findRunningSagas :: "js_number \<Rightarrow> saga_instance list io"
  sg_create :: "saga_instance \<Rightarrow> unit io"
  sg_update :: "saga_instance \<Rightarrow> unit io"
  sg_createStep :: "saga_step_rec \<Rightarrow> unit io"
  sg_updateStep :: "saga_step_rec \<Rightarrow> unit io"
  sg_getSteps :: "string \<Rightarrow> saga_step_rec list io"

definition select_saga :: "(saga_instance \<Rightarrow> bool) \<Rightarrow> saga_instance option stmt" where
  "select_saga p d = Inr (find p (db_sagas d), d)"

definition saga_findById :: "string \<Rightarrow> saga_instance option io" where
  "saga_findById sid = sqlM Pool (select_saga (\<lambda>s. saga_id s = sid))"

definition saga_findByOrderId :: "string \<Rightarrow> saga_instance option io" where
  "saga_findByOrderId oid = sqlM Pool (select_saga (\<lambda>s. saga_orderId s = oid))"

text \<open>Times are milliseconds; \<open>t\<close> is \<open>NOW()\<close>.\<close>

definition select_running :: "int \<Rightarrow> int \<Rightarrow> saga_instance list stmt" where
  "select_running t minutes d =
     Inr (sort_by (\<lambda>a b. saga_startedAt a \<le> saga_startedAt b)
            (filter (\<lambda>s. saga_status s \<in> {SAGA_RUNNING, SAGA_COMPENSATING}
                       \<and> saga_startedAt s < t - minutes * 60000) (db_sagas d)), d)"

text \<open>A number that is no integer does not make an interval.\<close>

definition saga_findRunningSagas :: "js_number \<Rightarrow> saga_instance list io" where
  "saga_findRunningSagas olderThanMinutes =
     bindM nowM (\<lambda>t. sqlM Pool (\<lambda>d.
       case olderThanMinutes of
         Whole m \<Rightarrow> select_running t m d
       | _ \<Rightarrow> Inl (InvalidText ''interval'')))"

definition insert_saga :: "saga_instance \<Rightarrow> unit stmt" where
  "insert_saga s d =
     require [
       (length (saga_type s) \<le> 64, ValueTooLong ''saga_instances.type''),
       (int4 (saga_currentStep s), NumericOutOfRange ''saga_instances.current_step''),
       (saga_id s \<notin> saga_id ` set (db_sagas d), UniqueViolation ''saga_instances_pkey''),
       (saga_orderId s \<in> or_id ` set (db_orders d), ForeignKeyViolation ''saga_instances_order_id_fkey'')]
     ((), d\<lparr>db_sagas := db_sagas d @ [s]\<rparr>)"

definition saga_create :: "saga_instance \<Rightarrow> unit io" where
  "saga_create s = sqlM Pool (insert_saga s)"

definition set_saga :: "saga_instance \<Rightarrow> unit stmt" where
  "set_saga s d =
     require [(int4 (saga_currentStep s), NumericOutOfRange ''saga_instances.current_step'')]
     ((), d\<lparr>db_sagas := update_all (\<lambda>r. saga_id r = saga_id s)
               (\<lambda>r. r\<lparr>saga_status := saga_status s, saga_currentStep := saga_currentStep s,
                     saga_completedAt := saga_completedAt s, saga_metadata := saga_metadata s\<rparr>)
               (db_sagas d)\<rparr>)"

definition saga_update :: "saga_instance \<Rightarrow> unit io" where
  "saga_update s = sqlM Pool (set_saga s)"

definition insert_step :: "saga_step_rec \<Rightarrow> unit stmt" where
  "insert_step s d =
     require [
       (length (step_name s) \<le> 64, ValueTooLong ''saga_steps.step_name''),
       (int4 (step_order s), NumericOutOfRange ''saga_steps.step_order''),
       (step_id s \<notin> step_id ` set (db_steps d), UniqueViolation ''saga_steps_pkey''),
       (step_sagaId s \<in> saga_id ` set (db_sagas d), ForeignKeyViolation ''saga_steps_saga_id_fkey'')]
     ((), d\<lparr>db_steps := db_steps d @ [s]\<rparr>)"

definition saga_createStep :: "saga_step_rec \<Rightarrow> unit io" where
  "saga_createStep s = sqlM Pool (insert_step s)"

definition set_step :: "saga_step_rec \<Rightarrow> unit stmt" where
  "set_step s d =
     Inr ((), d\<lparr>db_steps := update_all (\<lambda>r. step_id r = step_id s)
               (\<lambda>r. r\<lparr>step_status := step_status s, step_output := step_output s,
                     step_error := step_error s, step_completedAt := step_completedAt s,
                     step_compensation := step_compensation s,
                     step_compensationError := step_compensationError s\<rparr>) (db_steps d)\<rparr>)"

definition saga_updateStep :: "saga_step_rec \<Rightarrow> unit io" where
  "saga_updateStep s = sqlM Pool (set_step s)"

definition select_steps :: "string \<Rightarrow> saga_step_rec list stmt" where
  "select_steps sid d =
     Inr (sort_by (\<lambda>a b. step_order a \<le> step_order b)
            (filter (\<lambda>s. step_sagaId s = sid) (db_steps d)), d)"

definition saga_getSteps :: "string \<Rightarrow> saga_step_rec list io" where
  "saga_getSteps sid = sqlM Pool (select_steps sid)"

definition pg_saga_repo :: saga_repo where
  "pg_saga_repo =
     \<lparr>sg_findById = saga_findById, sg_findByOrderId = saga_findByOrderId,
      sg_findRunningSagas = saga_findRunningSagas, sg_create = saga_create,
      sg_update = saga_update, sg_createStep = saga_createStep, sg_updateStep = saga_updateStep,
      sg_getSteps = saga_getSteps\<rparr>"


section \<open>Inventory\<close>

record inventory_record =
  ivr_sku :: string
  ivr_available :: int
  ivr_reserved :: int
  ivr_version :: int

record inventory_repo =
  iv_findBySku :: "string \<Rightarrow> inventory_record option io"
  iv_reserve :: "string \<Rightarrow> int \<Rightarrow> bool io"
  iv_release :: "string \<Rightarrow> int \<Rightarrow> bool io"
  iv_seedInventory :: "(string \<times> int) list \<Rightarrow> unit io"

definition inventory_toDomain :: "inventory_row \<Rightarrow> inventory_record" where
  "inventory_toDomain row =
     \<lparr>ivr_sku = inv_sku row, ivr_available = inv_available row, ivr_reserved = inv_reserved row,
      ivr_version = inv_version row\<rparr>"

definition select_inventory :: "string \<Rightarrow> inventory_row option stmt" where
  "select_inventory s d = Inr (db_inventory d s, d)"

definition inventory_findBySku :: "string \<Rightarrow> inventory_record option io" where
  "inventory_findBySku s =
     bindM (sqlM Pool (select_inventory s)) (\<lambda>row. ret (map_option inventory_toDomain row))"

text \<open>The new row of an update, refused by the range of \<open>INT\<close> and by the two \<open>CHECK\<close>s.\<close>

definition checked_inventory :: "inventory_row \<Rightarrow> db_error + inventory_row" where
  "checked_inventory r =
     require [
       (int4 (inv_available r) \<and> int4 (inv_reserved r) \<and> int4 (inv_version r),
          NumericOutOfRange ''inventory''),
       (0 \<le> inv_available r, CheckViolation ''inventory_quantity_available_check''),
       (0 \<le> inv_reserved r, CheckViolation ''inventory_quantity_reserved_check'')] r"

text \<open>
  \<open>UPDATE inventory SET f WHERE sku = s AND p RETURNING sku\<close>: whether a row was updated.
\<close>

definition update_inventory ::
    "string \<Rightarrow> (inventory_row \<Rightarrow> bool) \<Rightarrow> (inventory_row \<Rightarrow> inventory_row) \<Rightarrow> bool stmt" where
  "update_inventory s p f d =
     (case db_inventory d s of
        None \<Rightarrow> Inr (False, d)
      | Some r \<Rightarrow>
          if p r
          then (case checked_inventory (f r) of
                  Inl e \<Rightarrow> Inl e
                | Inr r' \<Rightarrow> Inr (True, d\<lparr>db_inventory := (db_inventory d)(s \<mapsto> r')\<rparr>))
          else Inr (False, d))"

definition reserve_row :: "int \<Rightarrow> inventory_row \<Rightarrow> inventory_row" where
  "reserve_row q r = r\<lparr>inv_available := inv_available r - q, inv_reserved := inv_reserved r + q,
                      inv_version := inv_version r + 1\<rparr>"

definition release_row :: "int \<Rightarrow> inventory_row \<Rightarrow> inventory_row" where
  "release_row q r = r\<lparr>inv_available := inv_available r + q,
                      inv_reserved := max 0 (inv_reserved r - q),
                      inv_version := inv_version r + 1\<rparr>"

text \<open>A parameter that is no \<open>INT\<close> refuses the statement.\<close>

definition reserve_stmt :: "string \<Rightarrow> int \<Rightarrow> bool stmt" where
  "reserve_stmt s q d =
     (if int4 q then update_inventory s (\<lambda>r. q \<le> inv_available r) (reserve_row q) d
      else Inl (NumericOutOfRange ''parameter''))"

definition release_stmt :: "string \<Rightarrow> int \<Rightarrow> bool stmt" where
  "release_stmt s q d =
     (if int4 q then update_inventory s (\<lambda>_. True) (release_row q) d
      else Inl (NumericOutOfRange ''parameter''))"

definition inventory_reserve :: "string \<Rightarrow> int \<Rightarrow> bool io" where
  "inventory_reserve s q = sqlM Pool (reserve_stmt s q)"

definition inventory_release :: "string \<Rightarrow> int \<Rightarrow> bool io" where
  "inventory_release s q = sqlM Pool (release_stmt s q)"

text \<open>\<open>INSERT ... ON CONFLICT (sku) DO UPDATE\<close>\<close>

definition seed_stmt :: "string \<Rightarrow> int \<Rightarrow> unit stmt" where
  "seed_stmt s q d =
     (case db_inventory d s of
        Some _ \<Rightarrow>
          (case update_inventory s (\<lambda>_. True)
                  (\<lambda>r. r\<lparr>inv_available := q, inv_reserved := 0, inv_version := inv_version r + 1\<rparr>) d of
             Inl e \<Rightarrow> Inl e | Inr (_, d') \<Rightarrow> Inr ((), d'))
      | None \<Rightarrow>
          (case checked_inventory \<lparr>inv_sku = s, inv_available = q, inv_reserved = 0, inv_version = 1\<rparr> of
             Inl e \<Rightarrow> Inl e
           | Inr r \<Rightarrow> require [(length s \<le> 64, ValueTooLong ''inventory.sku'')]
                         ((), d\<lparr>db_inventory := (db_inventory d)(s \<mapsto> r)\<rparr>)))"

definition inventory_seedInventory :: "(string \<times> int) list \<Rightarrow> unit io" where
  "inventory_seedInventory items = forM items (\<lambda>(s, q). sqlM Pool (seed_stmt s q))"

definition pg_inventory_repo :: inventory_repo where
  "pg_inventory_repo =
     \<lparr>iv_findBySku = inventory_findBySku, iv_reserve = inventory_reserve,
      iv_release = inventory_release, iv_seedInventory = inventory_seedInventory\<rparr>"

end
