(* ===== verification/Config.thy ===== *)
theory Config
  imports Prelude
begin

text \<open>
  \<open>src/src/config.ts\<close>: the configuration read from the environment variables of the process, with
  its defaults, its cache and the guard against the default admin key.  \<open>process.env\<close> (which
  \<open>dotenv\<close> may have extended) is an argument.
\<close>


section \<open>parseInt\<close>

definition is_space :: "char \<Rightarrow> bool" where
  "is_space c \<longleftrightarrow> c \<in> {CHR '' '', CHR 0x09, CHR 0x0A, CHR 0x0B, CHR 0x0C, CHR 0x0D, CHR 0xA0}"

definition parseInt :: "string \<Rightarrow> js_number" where
  "parseInt s =
     (let t = dropWhile is_space s;
          neg = (t \<noteq> [] \<and> hd t = CHR ''-'');
          u = (if t \<noteq> [] \<and> (hd t = CHR ''-'' \<or> hd t = CHR ''+'') then tl t else t);
          ds = takeWhile is_digit u
      in if ds = [] then NaN
         else Whole (if neg then - int (number_of ds) else int (number_of ds)))"

lemma parseInt_digits [simp]: "parseInt (digits_of n) = Whole (int n)"
proof -
  have all: "\<forall>c \<in> set (digits_of n). is_digit c"
    by (rule digits_of_digits)
  obtain c cs where cs: "digits_of n = c # cs"
    by (meson digits_of_nonempty neq_Nil_conv)
  have c: "is_digit c" using all cs by simp
  then have "\<not> is_space c" "c \<noteq> CHR ''-''" "c \<noteq> CHR ''+''"
    by (auto simp: is_digit_def is_space_def less_eq_char_def)
  moreover have "takeWhile is_digit (digits_of n) = digits_of n"
    using all by (simp add: takeWhile_eq_all_conv)
  ultimately show ?thesis
    by (simp add: parseInt_def Let_def cs) (metis cs number_of_digits)
qed


section \<open>The configuration\<close>

record app_config =
  nodeEnv :: string
  port :: int
  adminPort :: int
  logLevel :: string
  databaseUrl :: string
  databasePoolSize :: int
  redisUrl :: string
  idempotencyTtlSeconds :: int
  rateLimitMax :: int
  rateLimitWindowMs :: int
  queuePrefix :: string
  queueMaxStalledCount :: int
  outboxPollIntervalMs :: int
  outboxMaxRetries :: int
  webhookMaxRetries :: int
  webhookRetryBaseDelayMs :: int
  webhookSecretHeader :: string
  paymentGatewayApiKey :: string
  paymentGatewayBaseUrl :: string
  paymentCircuitBreakerThreshold :: int
  paymentCircuitBreakerDurationMs :: int
  adminApiKey :: string

type_synonym process_env = "string \<rightharpoonup> string"

definition env :: "process_env \<Rightarrow> string \<Rightarrow> string option \<Rightarrow> error + string" where
  "env pe key defaultValue =
     (case pe key of
        Some v \<Rightarrow> Inr v
      | None \<Rightarrow> (case defaultValue of
                  Some v \<Rightarrow> Inr v
                | None \<Rightarrow> Inl (JsError (''Missing required environment variable: '' @ key))))"

definition envInt :: "process_env \<Rightarrow> string \<Rightarrow> int \<Rightarrow> error + int" where
  "envInt pe key defaultValue =
     (case pe key of
        None \<Rightarrow> Inr defaultValue
      | Some raw \<Rightarrow>
          if raw = [] then Inr defaultValue
          else (case parseInt raw of
                  Whole k \<Rightarrow> Inr k
                | _ \<Rightarrow> Inl (JsError (''Env var '' @ key @ '' must be an integer, got: '' @ raw))))"

definition readConfig :: "process_env \<Rightarrow> error + app_config" where
  "readConfig pe =
     bindE (env pe ''NODE_ENV'' (Some ''development'')) (\<lambda>nodeEnv.
     bindE (env pe ''ADMIN_API_KEY'' (Some ''dev-admin-key'')) (\<lambda>adminApiKey.
     if nodeEnv \<noteq> ''development'' \<and> adminApiKey = ''dev-admin-key''
     then Inl (JsError (''ADMIN_API_KEY must be set to a secure value in non-development environments. ''
            @ ''The default \"dev-admin-key\" is not permitted in production.''))
     else
     bindE (envInt pe ''PORT'' 3000) (\<lambda>port.
     bindE (envInt pe ''ADMIN_PORT'' 3001) (\<lambda>adminPort.
     bindE (env pe ''LOG_LEVEL'' (Some ''info'')) (\<lambda>logLevel.
     bindE (env pe ''DATABASE_URL'' None) (\<lambda>databaseUrl.
     bindE (envInt pe ''DATABASE_POOL_SIZE'' 20) (\<lambda>databasePoolSize.
     bindE (env pe ''REDIS_URL'' None) (\<lambda>redisUrl.
     bindE (envInt pe ''IDEMPOTENCY_TTL_SECONDS'' 86400) (\<lambda>idempotencyTtlSeconds.
     bindE (envInt pe ''RATE_LIMIT_MAX'' 100) (\<lambda>rateLimitMax.
     bindE (envInt pe ''RATE_LIMIT_WINDOW_MS'' 60000) (\<lambda>rateLimitWindowMs.
     bindE (env pe ''QUEUE_PREFIX'' (Some ''orderly'')) (\<lambda>queuePrefix.
     bindE (envInt pe ''QUEUE_MAX_STALLED_COUNT'' 2) (\<lambda>queueMaxStalledCount.
     bindE (envInt pe ''OUTBOX_POLL_INTERVAL_MS'' 500) (\<lambda>outboxPollIntervalMs.
     bindE (envInt pe ''OUTBOX_MAX_RETRIES'' 5) (\<lambda>outboxMaxRetries.
     bindE (envInt pe ''WEBHOOK_MAX_RETRIES'' 10) (\<lambda>webhookMaxRetries.
     bindE (envInt pe ''WEBHOOK_RETRY_BASE_DELAY_MS'' 1000) (\<lambda>webhookRetryBaseDelayMs.
     bindE (env pe ''WEBHOOK_SECRET_HEADER'' (Some ''X-Webhook-Signature'')) (\<lambda>webhookSecretHeader.
     bindE (env pe ''PAYMENT_GATEWAY_API_KEY'' (Some '''')) (\<lambda>paymentGatewayApiKey.
     bindE (env pe ''PAYMENT_GATEWAY_BASE_URL'' (Some '''')) (\<lambda>paymentGatewayBaseUrl.
     bindE (envInt pe ''PAYMENT_CIRCUIT_BREAKER_THRESHOLD'' 5) (\<lambda>paymentCircuitBreakerThreshold.
     bindE (envInt pe ''PAYMENT_CIRCUIT_BREAKER_DURATION_MS'' 10000) (\<lambda>paymentCircuitBreakerDurationMs.
     Inr \<lparr>nodeEnv = nodeEnv, port = port, adminPort = adminPort, logLevel = logLevel,
          databaseUrl = databaseUrl, databasePoolSize = databasePoolSize, redisUrl = redisUrl,
          idempotencyTtlSeconds = idempotencyTtlSeconds, rateLimitMax = rateLimitMax,
          rateLimitWindowMs = rateLimitWindowMs, queuePrefix = queuePrefix,
          queueMaxStalledCount = queueMaxStalledCount, outboxPollIntervalMs = outboxPollIntervalMs,
          outboxMaxRetries = outboxMaxRetries, webhookMaxRetries = webhookMaxRetries,
          webhookRetryBaseDelayMs = webhookRetryBaseDelayMs,
          webhookSecretHeader = webhookSecretHeader,
          paymentGatewayApiKey = paymentGatewayApiKey,
          paymentGatewayBaseUrl = paymentGatewayBaseUrl,
          paymentCircuitBreakerThreshold = paymentCircuitBreakerThreshold,
          paymentCircuitBreakerDurationMs = paymentCircuitBreakerDurationMs,
          adminApiKey = adminApiKey\<rparr>))))))))))))))))))))))"

text \<open>\<open>getConfig\<close> with the module variable \<open>cachedConfig\<close> before and after.\<close>

definition getConfig ::
    "process_env \<Rightarrow> app_config option \<Rightarrow> (error + app_config) \<times> app_config option" where
  "getConfig pe cachedConfig =
     (case cachedConfig of
        Some c \<Rightarrow> (Inr c, cachedConfig)
      | None \<Rightarrow> (case readConfig pe of
                  Inl e \<Rightarrow> (Inl e, None)
                | Inr c \<Rightarrow> (Inr c, Some c)))"

definition resetConfig :: "app_config option \<Rightarrow> app_config option" where
  "resetConfig cachedConfig = None"

text \<open>What a configuration that was accepted says of the environment it was read from.\<close>

lemma if_Inl_eq_Inr: "(if b then Inl e else m) = Inr a \<longleftrightarrow> \<not> b \<and> m = Inr a"
  by auto

lemma readConfig_Inr:
  assumes "readConfig pe = Inr c"
  shows "env pe ''NODE_ENV'' (Some ''development'') = Inr (nodeEnv c)"
    and "env pe ''ADMIN_API_KEY'' (Some ''dev-admin-key'') = Inr (adminApiKey c)"
    and "\<not> (nodeEnv c \<noteq> ''development'' \<and> adminApiKey c = ''dev-admin-key'')"
    and "env pe ''DATABASE_URL'' None = Inr (databaseUrl c)"
    and "env pe ''REDIS_URL'' None = Inr (redisUrl c)"
    and "envInt pe ''OUTBOX_MAX_RETRIES'' 5 = Inr (outboxMaxRetries c)"
    and "envInt pe ''RATE_LIMIT_MAX'' 100 = Inr (rateLimitMax c)"
  using assms unfolding readConfig_def bindE_eq_Inr if_Inl_eq_Inr sum.inject
  by (elim exE conjE; hypsubst; simp only: app_config.simps simp_thms)+

lemma env_None_Inr: "env pe k None = Inr v \<longleftrightarrow> pe k = Some v"
  by (simp add: env_def split: option.split)


text \<open>A configuration for examples: the defaults, in development.\<close>

definition example_config :: app_config where
  "example_config =
     \<lparr>nodeEnv = ''development'', port = 3000, adminPort = 3001, logLevel = ''info'', databaseUrl = ''pg'',
      databasePoolSize = 20, redisUrl = ''redis'', idempotencyTtlSeconds = 86400, rateLimitMax = 100,
      rateLimitWindowMs = 60000, queuePrefix = ''orderly'', queueMaxStalledCount = 2,
      outboxPollIntervalMs = 500, outboxMaxRetries = 5, webhookMaxRetries = 10,
      webhookRetryBaseDelayMs = 1000, webhookSecretHeader = ''X-Webhook-Signature'',
      paymentGatewayApiKey = [], paymentGatewayBaseUrl = ''https://api.stripe.com'',
      paymentCircuitBreakerThreshold = 5, paymentCircuitBreakerDurationMs = 10000,
      adminApiKey = ''dev-admin-key''\<rparr>"


section \<open>The property\<close>

text \<open>
  The process does not start with the default admin key outside development: whenever the
  configuration is read, either the environment is \<open>development\<close> (by default or by setting) or the
  key is one that \<open>ADMIN_API_KEY\<close> sets to another value; and the addresses of the database and of
  Redis are set.
\<close>

theorem config_admin_key_guard:
  assumes "readConfig pe = Inr cfg"
  shows "(pe ''NODE_ENV'' = None \<or> pe ''NODE_ENV'' = Some ''development''
          \<or> (\<exists>k. pe ''ADMIN_API_KEY'' = Some k \<and> k \<noteq> ''dev-admin-key'' \<and> adminApiKey cfg = k))
       \<and> pe ''DATABASE_URL'' = Some (databaseUrl cfg) \<and> pe ''REDIS_URL'' = Some (redisUrl cfg)"
proof -
  note r = readConfig_Inr [OF assms]
  have "pe ''DATABASE_URL'' = Some (databaseUrl cfg)" "pe ''REDIS_URL'' = Some (redisUrl cfg)"
    using r(4,5) by (simp_all add: env_None_Inr)
  moreover have "pe ''NODE_ENV'' = None \<or> pe ''NODE_ENV'' = Some ''development''
      \<or> (\<exists>k. pe ''ADMIN_API_KEY'' = Some k \<and> k \<noteq> ''dev-admin-key'' \<and> adminApiKey cfg = k)"
    using r(1,2,3) by (auto simp: env_def split: option.splits)
  ultimately show ?thesis by blast
qed

theorem config_admin_key_guard_witness:
  "\<exists>cfg. readConfig [''NODE_ENV'' \<mapsto> ''production'', ''ADMIN_API_KEY'' \<mapsto> ''s3cret'',
       ''DATABASE_URL'' \<mapsto> ''pg'', ''REDIS_URL'' \<mapsto> ''rd''] = Inr cfg
     \<and> adminApiKey cfg = ''s3cret'' \<and> databaseUrl cfg = ''pg''"
proof -
  let ?pe = "[''NODE_ENV'' \<mapsto> ''production'', ''ADMIN_API_KEY'' \<mapsto> ''s3cret'',
       ''DATABASE_URL'' \<mapsto> ''pg'', ''REDIS_URL'' \<mapsto> ''rd'']"
  obtain cfg where cfg: "readConfig ?pe = Inr cfg"
    by (simp add: readConfig_def env_def envInt_def)
  from config_admin_key_guard [OF this] cfg show ?thesis by auto
qed

end
