(* ===== verification/Queue.thy ===== *)
theory Queue
  imports World Config
begin

text \<open>
  \<open>src/src/infrastructure/queue/connection.ts\<close> and \<open>saga-enqueuer.ts\<close>: the queues of the program and
  the job that starts a saga.  BullMQ is not part of the repository: its operations are a parameter
  (\<open>bullmq\<close>), and \<open>bullmq_laws\<close> states what its documentation says of \<open>Queue.add\<close>: it touches the
  queue it is called on only, it appends the job or fails, and a job whose custom identifier is
  already in the queue is not added again.
\<close>

text \<open>The options of \<open>add\<close>; an omitted one takes the default of the queue.\<close>

record job_opts =
  jo_jobId :: "string option"
  jo_attempts :: "nat option"
  jo_backoffDelay :: "nat option"

record bullmq =
  bq_add :: "queue_handle \<Rightarrow> string \<Rightarrow> json \<Rightarrow> job_opts \<Rightarrow> string option io"
  bq_getFailed :: "queue_handle \<Rightarrow> js_number \<Rightarrow> js_number \<Rightarrow> job list io"
  bq_getJob :: "queue_handle \<Rightarrow> string \<Rightarrow> job option io"
  bq_retry :: "queue_handle \<Rightarrow> string \<Rightarrow> unit io"
  bq_remove :: "queue_handle \<Rightarrow> string \<Rightarrow> unit io"
  bq_waitingCount :: "queue_handle \<Rightarrow> nat io"
  bq_delayedCount :: "queue_handle \<Rightarrow> nat io"
  bq_close :: "queue_handle \<Rightarrow> unit io"

definition createQueue :: "app_config \<Rightarrow> string \<Rightarrow> queue_handle" where
  "createQueue cfg name =
     \<lparr>qh_name = name, qh_prefix = queuePrefix cfg, qh_attempts = 5, qh_backoffDelay = 2000,
      qh_removeOnComplete = Some 100, qh_removeOnFail = False\<rparr>"

text \<open>The options of a worker, and its function on the data of a job.\<close>

record worker_handle =
  wk_name :: string
  wk_prefix :: string
  wk_processor :: "json \<Rightarrow> unit io"
  wk_concurrency :: nat
  wk_stalledInterval :: nat
  wk_maxStalledCount :: int

definition createWorker :: "app_config \<Rightarrow> string \<Rightarrow> (json \<Rightarrow> unit io) \<Rightarrow> worker_handle" where
  "createWorker cfg name processor =
     \<lparr>wk_name = name, wk_prefix = queuePrefix cfg, wk_processor = processor, wk_concurrency = 50,
      wk_stalledInterval = 30000, wk_maxStalledCount = queueMaxStalledCount cfg\<rparr>"

definition queue_key :: "queue_handle \<Rightarrow> string" where
  "queue_key h = qh_prefix h @ '':'' @ qh_name h"

definition jobs_of :: "queue_handle \<Rightarrow> world \<Rightarrow> job list" where
  "jobs_of h w = w_queues w (queue_key h)"

definition has_job :: "queue_handle \<Rightarrow> string \<Rightarrow> world \<Rightarrow> bool" where
  "has_job h i w \<longleftrightarrow> i \<in> job_id ` set (jobs_of h w)"


section \<open>What BullMQ promises\<close>

text \<open>Only the queues change, and every job stays where it is.\<close>

definition only_queues :: "world \<Rightarrow> world \<Rightarrow> bool" where
  "only_queues w w' \<longleftrightarrow> (\<exists>q n. w' = w\<lparr>w_queues := q, w_tick := n\<rparr>)"

lemma preord_only_queues [intro, simp]: "preord only_queues"
proof (unfold preord_def, intro conjI allI impI)
  show "only_queues w w" for w
    unfolding only_queues_def by (intro exI [of _ "w_queues w"] exI [of _ "w_tick w"]) simp
  show "only_queues w w''" if "only_queues w w'" "only_queues w' w''" for w w' w''
    using that unfolding only_queues_def by fastforce
qed

lemma only_queues_sel:
  assumes "only_queues w w'"
  shows "w_db w' = w_db w" "w_tx w' = w_tx w" "w_locks w' = w_locks w" "w_handles w' = w_handles w"
    "w_redis w' = w_redis w" "w_sent w' = w_sent w" "w_outbox w' = w_outbox w" "w_env w' = w_env w"
    "w_counters w' = w_counters w" "w_histograms w' = w_histograms w"
  using assms by (auto simp: only_queues_def)

definition added :: "queue_handle \<Rightarrow> string \<Rightarrow> json \<Rightarrow> job_opts \<Rightarrow> world \<Rightarrow> world \<Rightarrow> bool" where
  "added h name data opts w w' \<longleftrightarrow>
     (\<exists>j. w_queues w' = (w_queues w)(queue_key h := jobs_of h w @ [j])
        \<and> job_name j = name \<and> job_data j = data
        \<and> (\<forall>i. jo_jobId opts = Some i \<longrightarrow> job_id j = i \<and> \<not> has_job h i w))"

definition bullmq_laws :: "bullmq \<Rightarrow> bool" where
  "bullmq_laws B \<longleftrightarrow>
     (\<forall>h name data opts w. wp (bq_add B h name data opts) (\<lambda>r w'. only_queues w w'
        \<and> (w_queues w' = w_queues w \<or> added h name data opts w w')
        \<and> (\<forall>i res. r = Ok res \<longrightarrow> jo_jobId opts = Some i \<longrightarrow> res = Some i \<and> has_job h i w')) w)"

lemma bullmq_add_wp:
  "bullmq_laws B \<Longrightarrow> wp (bq_add B h name data opts) (\<lambda>r w'. only_queues w w'
      \<and> (w_queues w' = w_queues w \<or> added h name data opts w w')
      \<and> (\<forall>i res. r = Ok res \<longrightarrow> jo_jobId opts = Some i \<longrightarrow> res = Some i \<and> has_job h i w')) w"
  unfolding bullmq_laws_def by blast

lemma upholds_bq_add [upholds_intros]:
  assumes "bullmq_laws B" and "preord R"
  shows "upholds (on_db R) (bq_add B h name data opts)"
proof (rule upholdsI)
  fix w
  have "only_queues w (snd (bq_add B h name data opts w))"
    using bullmq_add_wp [OF assms(1), of h name data opts w] by (simp add: wp_def)
  then show "on_db R w (snd (bq_add B h name data opts w))"
    using preord_refl [OF assms(2)] by (simp add: on_db_def only_queues_sel)
qed


section \<open>The enqueuer of sagas\<close>

text \<open>
  The context of a saga (\<open>SagaContext\<close> of \<open>saga-orchestrator.ts\<close>) is the data of its job: it goes
  through the queue as JSON.
\<close>

record reservation =
  rv_sku :: string
  rv_quantity :: int

record amount_json =
  aj_amount :: string
  aj_currency :: string

record saga_context =
  cx_orderId :: string
  cx_customerId :: string
  cx_items :: "reservation list"
  cx_totalAmount :: amount_json
  cx_paymentToken :: string

definition item_json :: "reservation \<Rightarrow> json" where
  "item_json i = JObj [(''sku'', JStr (rv_sku i)), (''quantity'', JNum (Whole (rv_quantity i)))]"

definition money_json :: "amount_json \<Rightarrow> json" where
  "money_json a = JObj [(''amount'', JStr (aj_amount a)), (''currency'', JStr (aj_currency a))]"

definition context_json :: "saga_context \<Rightarrow> json" where
  "context_json c =
     JObj [(''orderId'', JStr (cx_orderId c)), (''customerId'', JStr (cx_customerId c)),
           (''items'', JArr (map item_json (cx_items c))),
           (''totalAmount'', money_json (cx_totalAmount c)),
           (''paymentToken'', JStr (cx_paymentToken c))]"

text \<open>The reading of the data by the worker, typed as it was written.\<close>

definition str_member :: "json \<Rightarrow> string \<Rightarrow> string option" where
  "str_member j k = (case json_get j k of Some (JStr s) \<Rightarrow> Some s | _ \<Rightarrow> None)"

definition read_item :: "json \<Rightarrow> reservation option" where
  "read_item j =
     (case (str_member j ''sku'', json_get j ''quantity'') of
        (Some s, Some (JNum (Whole q))) \<Rightarrow> Some \<lparr>rv_sku = s, rv_quantity = q\<rparr>
      | _ \<Rightarrow> None)"

definition read_money :: "json \<Rightarrow> amount_json option" where
  "read_money j =
     (case (str_member j ''amount'', str_member j ''currency'') of
        (Some a, Some c) \<Rightarrow> Some \<lparr>aj_amount = a, aj_currency = c\<rparr> | _ \<Rightarrow> None)"

definition read_context :: "json \<Rightarrow> saga_context option" where
  "read_context j =
     (case (str_member j ''orderId'', str_member j ''customerId'', json_get j ''items'',
            json_get j ''totalAmount'', str_member j ''paymentToken'') of
        (Some oid, Some cid, Some (JArr is), Some tot, Some tok) \<Rightarrow>
          (case (those (map read_item is), read_money tot) of
             (Some items, Some a) \<Rightarrow>
               Some \<lparr>cx_orderId = oid, cx_customerId = cid, cx_items = items, cx_totalAmount = a,
                     cx_paymentToken = tok\<rparr>
           | _ \<Rightarrow> None)
      | _ \<Rightarrow> None)"

lemma read_item_json [simp]: "read_item (item_json i) = Some i"
  by (simp add: read_item_def item_json_def str_member_def)

lemma those_read_items [simp]: "those (map (read_item \<circ> item_json) is) = Some is"
  by (induction "is") simp_all

lemma read_money_json [simp]: "read_money (money_json a) = Some a"
  by (simp add: read_money_def money_json_def str_member_def)

lemma read_context_json [simp]: "read_context (context_json c) = Some c"
  by (simp add: read_context_def context_json_def str_member_def)

definition saga_enqueue :: "bullmq \<Rightarrow> app_config \<Rightarrow> saga_context \<Rightarrow> string io" where
  "saga_enqueue B cfg context =
     bindM (bq_add B (createQueue cfg ''saga-execution'') ''execute-saga'' (context_json context)
              \<lparr>jo_jobId = Some (''saga-'' @ cx_orderId context), jo_attempts = Some 3,
               jo_backoffDelay = Some 5000\<rparr>)
       (\<lambda>jid. ret (case jid of Some i \<Rightarrow> i | None \<Rightarrow> cx_orderId context))"

lemma upholds_saga_enqueue [upholds_intros]:
  "bullmq_laws B \<Longrightarrow> preord R \<Longrightarrow> upholds (on_db R) (saga_enqueue B cfg c)"
  unfolding saga_enqueue_def by (intro upholds_intros preord_on_db)

lemma saga_enqueue_wp:
  assumes "bullmq_laws B"
  shows "wp (saga_enqueue B cfg c) (\<lambda>r w'. only_queues w w'
      \<and> (\<forall>i. r = Ok i \<longrightarrow> i = ''saga-'' @ cx_orderId c
           \<and> has_job (createQueue cfg ''saga-execution'') i w')) w"
  unfolding saga_enqueue_def wp_bindM
  proof (rule wp_mono [OF bullmq_add_wp [OF assms]], elim conjE)
  fix r w'
  assume q: "only_queues w w'"
    and r: "\<forall>i res. r = Ok res \<longrightarrow> jo_jobId \<lparr>jo_jobId = Some (''saga-'' @ cx_orderId c),
               jo_attempts = Some 3, jo_backoffDelay = Some 5000\<rparr> = Some i \<longrightarrow>
               res = Some i \<and> has_job (createQueue cfg ''saga-execution'') i w'"
  then show "case r of
      Ok jid \<Rightarrow> wp (ret (case jid of None \<Rightarrow> cx_orderId c | Some i \<Rightarrow> i)) (\<lambda>r w'. only_queues w w'
        \<and> (\<forall>i. r = Ok i \<longrightarrow> i = ''saga-'' @ cx_orderId c
             \<and> has_job (createQueue cfg ''saga-execution'') i w')) w'
    | Throw e \<Rightarrow> only_queues w w' \<and> (\<forall>i. Throw e = Ok i \<longrightarrow> i = ''saga-'' @ cx_orderId c
             \<and> has_job (createQueue cfg ''saga-execution'') i w')
    | Crashed \<Rightarrow> only_queues w w' \<and> (\<forall>i. Crashed = Ok i \<longrightarrow> i = ''saga-'' @ cx_orderId c
             \<and> has_job (createQueue cfg ''saga-execution'') i w')"
    by (cases r) (simp_all add: wp_ret)
qed


section \<open>A queue that keeps the promises\<close>

text \<open>
  The instance on which the laws are seen to be satisfiable: a list per queue, one interaction per
  operation.
\<close>

definition list_add :: "queue_handle \<Rightarrow> string \<Rightarrow> json \<Rightarrow> job_opts \<Rightarrow> world \<Rightarrow> string option res \<times> world" where
  "list_add h name data opts = (\<lambda>w.
     let i = (case jo_jobId opts of Some i \<Rightarrow> i | None \<Rightarrow> digits_of (w_tick w)) in
     if jo_jobId opts \<noteq> None \<and> has_job h i w then (Ok (Some i), w)
     else (Ok (Some i), w\<lparr>w_queues := (w_queues w)(queue_key h := jobs_of h w @
             [\<lparr>job_id = i, job_name = name, job_data = data,
               job_attempts = (case jo_attempts opts of Some n \<Rightarrow> n | None \<Rightarrow> qh_attempts h),
               job_failed = False, job_failedReason = None, job_attemptsMade = 0,
               job_timestamp = e_clock (w_env w) (w_tick w), job_processedOn = None, job_finishedOn = None\<rparr>])\<rparr>))"

definition set_jobs :: "queue_handle \<Rightarrow> (job list \<Rightarrow> job list) \<Rightarrow> unit io" where
  "set_jobs h f =
     ioM (modifyM (\<lambda>w. w\<lparr>w_queues := (w_queues w)(queue_key h := f (jobs_of h w))\<rparr>))"

definition list_bullmq :: bullmq where
  "list_bullmq = \<lparr>
     bq_add = (\<lambda>h name data opts. ioM (list_add h name data opts)),
     bq_getFailed = (\<lambda>h _ _. ioM (getsM (\<lambda>w. filter job_failed (jobs_of h w)))),
     bq_getJob = (\<lambda>h i. ioM (getsM (\<lambda>w. find (\<lambda>j. job_id j = i) (jobs_of h w)))),
     bq_retry = (\<lambda>h i. set_jobs h (map (\<lambda>j. if job_id j = i then j\<lparr>job_failed := False\<rparr> else j))),
     bq_remove = (\<lambda>h i. set_jobs h (filter (\<lambda>j. job_id j \<noteq> i))),
     bq_waitingCount = (\<lambda>h. ioM (getsM (\<lambda>w. length (filter (\<lambda>j. \<not> job_failed j) (jobs_of h w))))),
     bq_delayedCount = (\<lambda>h. ioM (ret 0)),
     bq_close = (\<lambda>h. ioM (ret ()))\<rparr>"

lemma only_queues_tick: "only_queues w (tick w)"
  unfolding only_queues_def tick_def
  by (intro exI [of _ "w_queues w"] exI [of _ "Suc (w_tick w)"]) simp

lemma jobs_of_tick [simp]: "jobs_of h (tick w) = jobs_of h w" "has_job h i (tick w) = has_job h i w"
  by (simp_all add: jobs_of_def has_job_def)

lemma list_add_wp:
  "wp (list_add h name data opts) (\<lambda>r w'. (w' = w \<or> (\<exists>q. w' = w\<lparr>w_queues := q\<rparr>))
      \<and> (w_queues w' = w_queues w \<or> added h name data opts w w')
      \<and> (\<forall>i res. r = Ok res \<longrightarrow> jo_jobId opts = Some i \<longrightarrow> res = Some i \<and> has_job h i w')) w"
  unfolding wp_def list_add_def Let_def
  by (cases "jo_jobId opts") (auto simp: added_def has_job_def jobs_of_def)

lemma only_queues_add: "w1 = tick w \<or> (\<exists>q. w1 = (tick w)\<lparr>w_queues := q\<rparr>) \<Longrightarrow> only_queues w w1"
proof (elim disjE exE)
  show "only_queues w w1" if "w1 = (tick w)\<lparr>w_queues := q\<rparr>" for q
    unfolding only_queues_def tick_def that by (intro exI [of _ q] exI [of _ "Suc (w_tick w)"]) simp
qed (simp add: only_queues_tick)

lemma added_tick: "added h name data opts (tick w) w' = added h name data opts w w'"
  by (simp add: added_def)

text \<open>
  The other operations read or change the queues only, and reading leaves them as they are.
\<close>

definition bullmq_frame :: "bullmq \<Rightarrow> bool" where
  "bullmq_frame B \<longleftrightarrow> (\<forall>h i a b.
     upholds (\<lambda>w w'. only_queues w w' \<and> w_queues w' = w_queues w) (bq_getFailed B h a b)
     \<and> upholds (\<lambda>w w'. only_queues w w' \<and> w_queues w' = w_queues w) (bq_getJob B h i)
     \<and> upholds (\<lambda>w w'. only_queues w w' \<and> w_queues w' = w_queues w) (bq_waitingCount B h)
     \<and> upholds (\<lambda>w w'. only_queues w w' \<and> w_queues w' = w_queues w) (bq_delayedCount B h)
     \<and> upholds (\<lambda>w w'. only_queues w w' \<and> w_queues w' = w_queues w) (bq_close B h)
     \<and> upholds only_queues (bq_retry B h i) \<and> upholds only_queues (bq_remove B h i))"

lemma bullmq_frameD:
  assumes "bullmq_frame B"
  shows "upholds (\<lambda>w w'. only_queues w w' \<and> w_queues w' = w_queues w) (bq_getFailed B h a b)"
    and "upholds (\<lambda>w w'. only_queues w w' \<and> w_queues w' = w_queues w) (bq_getJob B h i)"
    and "upholds (\<lambda>w w'. only_queues w w' \<and> w_queues w' = w_queues w) (bq_waitingCount B h)"
    and "upholds (\<lambda>w w'. only_queues w w' \<and> w_queues w' = w_queues w) (bq_delayedCount B h)"
    and "upholds (\<lambda>w w'. only_queues w w' \<and> w_queues w' = w_queues w) (bq_close B h)"
    and "upholds only_queues (bq_retry B h i)" and "upholds only_queues (bq_remove B h i)"
  using assms unfolding bullmq_frame_def by blast+

lemma on_db_only_queues:
  assumes "preord R" and "upholds P m" and "\<And>w w'. P w w' \<Longrightarrow> only_queues w w'"
  shows "upholds (on_db R) m"
  using assms preord_refl [OF assms(1)] unfolding upholds_def on_db_def by (metis only_queues_sel(1))

lemma upholds_bullmq_frame [upholds_intros]:
  assumes "bullmq_frame B" and "preord R"
  shows "upholds (on_db R) (bq_getFailed B h a b)" and "upholds (on_db R) (bq_getJob B h i)"
    and "upholds (on_db R) (bq_waitingCount B h)" and "upholds (on_db R) (bq_delayedCount B h)"
    and "upholds (on_db R) (bq_close B h)" and "upholds (on_db R) (bq_retry B h i)"
    and "upholds (on_db R) (bq_remove B h i)"
  by (rule on_db_only_queues [OF assms(2) bullmq_frameD(1) [OF assms(1)]], simp)
    (rule on_db_only_queues [OF assms(2) bullmq_frameD(2) [OF assms(1)]], simp,
     rule on_db_only_queues [OF assms(2) bullmq_frameD(3) [OF assms(1)]], simp,
     rule on_db_only_queues [OF assms(2) bullmq_frameD(4) [OF assms(1)]], simp,
     rule on_db_only_queues [OF assms(2) bullmq_frameD(5) [OF assms(1)]], simp,
     rule on_db_only_queues [OF assms(2) bullmq_frameD(6) [OF assms(1)]], simp,
     rule on_db_only_queues [OF assms(2) bullmq_frameD(7) [OF assms(1)]], simp)

lemma only_queues_ticked: "only_queues (tick w) w' \<Longrightarrow> only_queues w w'"
  by (rule preord_trans [OF preord_only_queues only_queues_tick])

lemma only_queues_set: "only_queues w (w\<lparr>w_queues := q\<rparr>)"
  unfolding only_queues_def by (intro exI [of _ q] exI [of _ "w_tick w"]) simp

lemma list_bullmq_frame: "bullmq_frame list_bullmq"
  unfolding bullmq_frame_def list_bullmq_def set_jobs_def
  by (auto simp: upholds_def ioM_def getsM_def ret_def modifyM_def Let_def only_queues_tick
      intro!: only_queues_ticked only_queues_set split: fault.split)

lemma list_bullmq_laws: "bullmq_laws list_bullmq"
  unfolding bullmq_laws_def
proof (intro allI)
  fix h name data opts w
  have "wp (list_add h name data opts) (\<lambda>r w'. only_queues w w'
      \<and> (w_queues w' = w_queues w \<or> added h name data opts w w')
      \<and> (\<forall>i res. r = Ok res \<longrightarrow> jo_jobId opts = Some i \<longrightarrow> res = Some i \<and> has_job h i w')) (tick w)"
    by (rule wp_mono [OF list_add_wp]) (use only_queues_add in \<open>auto simp: added_tick\<close>)
  then show "wp (bq_add list_bullmq h name data opts) (\<lambda>r w'. only_queues w w'
      \<and> (w_queues w' = w_queues w \<or> added h name data opts w w')
      \<and> (\<forall>i res. r = Ok res \<longrightarrow> jo_jobId opts = Some i \<longrightarrow> res = Some i \<and> has_job h i w')) w"
    by (simp add: list_bullmq_def wp_ioM only_queues_tick split: fault.split)
      (auto elim: wp_mono)
qed


section \<open>The properties\<close>

text \<open>
  C23. An order has at most one saga job: enqueueing changes nothing but the queue of sagas, adds a job
  only when the order has none there, and then exactly one, whose data the worker reads back as the
  context; when it fulfils the job of the order is in the queue.
\<close>

theorem saga_job_once:
  assumes "bullmq_laws B"
  shows "wp (saga_enqueue B cfg c) (\<lambda>r w'. (let h = createQueue cfg ''saga-execution''; i = ''saga-'' @ cx_orderId c in
     w_db w' = w_db w
     \<and> (w_queues w' = w_queues w
        \<or> (\<exists>j. w_queues w' = (w_queues w)(queue_key h := jobs_of h w @ [j]) \<and> \<not> has_job h i w
             \<and> job_id j = i \<and> read_context (job_data j) = Some c))
     \<and> (\<forall>x. r = Ok x \<longrightarrow> x = i \<and> has_job h i w'))) w"
  unfolding saga_enqueue_def wp_bindM Let_def
proof (rule wp_mono [OF bullmq_add_wp [OF assms]], goal_cases)
  case (1 r w1)
  then have "w_db w1 = w_db w" by (auto simp: only_queues_sel)
  with 1 show ?case
    by (cases r) (auto simp: wp_ret added_def)
qed

theorem saga_job_once_witness:
  "wp (saga_enqueue list_bullmq example_config
        \<lparr>cx_orderId = ''o1'', cx_customerId = ''c'', cx_items = [], cx_totalAmount = \<lparr>aj_amount = ''1.00'', aj_currency = ''USD''\<rparr>,
         cx_paymentToken = ''tok''\<rparr>)
     (\<lambda>r w'. \<forall>x. r = Ok x \<longrightarrow> x = ''saga-o1'' \<and> has_job (createQueue example_config ''saga-execution'') ''saga-o1'' w')
     (world_of quiet_env empty_db)"
  by (rule wp_mono [OF saga_job_once [OF list_bullmq_laws]]) (auto simp: Let_def)

end
