(* ===== verification/Order_Service.thy ===== *)
theory Order_Service
  imports Repositories Queue
begin

text \<open>
  \<open>src/src/domain/services/order-service.ts\<close>: the creation of an order.  Its row, its items and its
  \<open>order.created\<close> event are written in one transaction; the saga is enqueued after the commit.  The
  lemmas of the service are proved from the contract \<open>tx_port\<close> of the transaction manager.
\<close>

record order_line =
  ol_sku :: string
  ol_quantity :: js_number
  ol_unitPrice :: string

record order_request =
  co_customerId :: string
  co_items :: "order_line list"
  co_currency :: string
  co_idempotencyKey :: "string option"
  co_paymentToken :: string

type_synonym enqueuer = "saga_context \<Rightarrow> string io"


section \<open>The service\<close>

definition money_toJSON :: "money \<Rightarrow> amount_json" where
  "money_toJSON m = \<lparr>aj_amount = amount m, aj_currency = currency m\<rparr>"

fun create_items ::
    "'d decimal_lib \<Rightarrow> string \<Rightarrow> string \<Rightarrow> order_line list \<Rightarrow> order_item list io" where
  "create_items L oid cur [] = ret []"
| "create_items L oid cur (line # lines) =
     bindM uuidM (\<lambda>iid.
     bindM (liftR (createOrderItem L iid oid (ol_sku line) (ol_quantity line) (ol_unitPrice line) cur)) (\<lambda>item.
     bindM (create_items L oid cur lines) (\<lambda>items. ret (item # items))))"

definition created_event :: "order_request \<Rightarrow> order \<Rightarrow> new_event" where
  "created_event request ord =
     \<lparr>ne_aggregateType = ''order'', ne_aggregateId = order_id ord, ne_eventType = ''order.created'',
      ne_payload = [(''orderId'', JStr (order_id ord)), (''customerId'', JStr (co_customerId request)),
                    (''totalAmount'', money_json (money_toJSON (order_totalAmount ord))),
                    (''itemCount'', JNum (Whole (int (length (order_items ord))))),
                    (''queue'', JStr ''webhook-delivery'')],
      ne_headers = [(''x-idempotency-key'',
                     JStr (case co_idempotencyKey request of Some k \<Rightarrow> k | None \<Rightarrow> []))],
      ne_status = OUTBOX_PENDING, ne_retryCount = 0\<rparr>"

definition whole :: "js_number \<Rightarrow> int" where
  "whole q = (case q of Whole k \<Rightarrow> k | _ \<Rightarrow> 0)"

definition context_of :: "order_request \<Rightarrow> order \<Rightarrow> saga_context" where
  "context_of request ord =
     \<lparr>cx_orderId = order_id ord, cx_customerId = co_customerId request,
      cx_items = map (\<lambda>i. \<lparr>rv_sku = ol_sku i, rv_quantity = whole (ol_quantity i)\<rparr>) (co_items request),
      cx_totalAmount = money_toJSON (order_totalAmount ord),
      cx_paymentToken = co_paymentToken request\<rparr>"

definition service_createOrder ::
    "'d decimal_lib \<Rightarrow> order_repo \<Rightarrow> outbox_repo \<Rightarrow> enqueuer \<Rightarrow> tx_manager \<Rightarrow> order_request
       \<Rightarrow> (order \<times> string) io" where
  "service_createOrder L orders outbox enqueue tm request =
     bindM uuidM (\<lambda>orderId.
     bindM (create_items L orderId (co_currency request) (co_items request)) (\<lambda>items.
     bindM nowM (\<lambda>t1. bindM nowM (\<lambda>t2.
     bindM (liftR (createOrder L orderId (co_customerId request) items (co_currency request)
                     (co_idempotencyKey request) t1 t2)) (\<lambda>ord.
     thenM (tm_begin tm (\<lambda>tx.
              thenM (or_createWithSql orders ord tx)
                (bindM (ob_createWithSql outbox (created_event request ord) tx) (\<lambda>_. ret ()))))
       (thenM (increment ''orders.created'' [(''currency'', co_currency request), (''status'', ''pending'')])
          (bindM (catchM (enqueue (context_of request ord)) (\<lambda>err. uuidM))
             (\<lambda>sagaId. ret (ord, sagaId)))))))))"

definition service_getOrder :: "order_repo \<Rightarrow> string \<Rightarrow> order option io" where
  "service_getOrder orders oid = or_findById orders oid"


section \<open>What the transaction writes\<close>

text \<open>The items are made of the lines, in order; the order is made of the items.\<close>

definition items_from ::
    "'d decimal_lib \<Rightarrow> string \<Rightarrow> string \<Rightarrow> order_line list \<Rightarrow> order_item list \<Rightarrow> bool" where
  "items_from L oid cur lines items \<longleftrightarrow>
     list_all2 (\<lambda>l i. createOrderItem L (item_id i) oid (ol_sku l) (ol_quantity l) (ol_unitPrice l) cur
                        = Inr i) lines items"

definition order_from :: "'d decimal_lib \<Rightarrow> order_request \<Rightarrow> order \<Rightarrow> bool" where
  "order_from L request ord \<longleftrightarrow>
     items_from L (order_id ord) (co_currency request) (co_items request) (order_items ord)
     \<and> createOrder L (order_id ord) (co_customerId request) (order_items ord) (co_currency request)
          (co_idempotencyKey request) (order_createdAt ord) (order_updatedAt ord) = Inr ord"

definition order_recorded :: "order \<Rightarrow> outbox_event \<Rightarrow> db \<Rightarrow> db \<Rightarrow> bool" where
  "order_recorded ord ev d d' \<longleftrightarrow>
     (\<exists>d1 d2. insert_order (order_row_of ord) d = Inr ((), d1)
        \<and> (if order_items ord = [] then d2 = d1
           else insert_items (map item_row_of (order_items ord)) d1 = Inr ((), d2))
        \<and> insert_event ev d2 = Inr ((), d'))"

definition recorded_with :: "order_request \<Rightarrow> order \<Rightarrow> db \<Rightarrow> db \<Rightarrow> bool" where
  "recorded_with request ord d d' \<longleftrightarrow>
     (\<exists>eid t. order_recorded ord (event_row_of (created_event request ord) eid t) d d')"

lemma event_row_of_sel [simp]:
  "ev_id (event_row_of e i t) = i" "ev_aggregateType (event_row_of e i t) = ne_aggregateType e"
  "ev_aggregateId (event_row_of e i t) = ne_aggregateId e"
  "ev_eventType (event_row_of e i t) = ne_eventType e" "ev_payload (event_row_of e i t) = ne_payload e"
  "ev_status (event_row_of e i t) = ne_status e" "ev_retryCount (event_row_of e i t) = ne_retryCount e"
  by (simp_all add: event_row_of_def)

lemma order_row_of_sel [simp]:
  "or_id (order_row_of ord) = order_id ord" "or_status (order_row_of ord) = order_status ord"
  "or_idempotency_key (order_row_of ord) = order_idempotencyKey ord"
  "or_total_amount (order_row_of ord) = amount (order_totalAmount ord)"
  by (simp_all add: order_row_of_def)

lemma created_event_sel [simp]:
  "ne_aggregateId (created_event rq ord) = order_id ord"
  "ne_eventType (created_event rq ord) = ''order.created''"
  "ne_status (created_event rq ord) = OUTBOX_PENDING"
  "ne_retryCount (created_event rq ord) = 0"
  by (simp_all add: created_event_def)

lemma insert_order_Inr:
  "insert_order r d = Inr (u, d') \<Longrightarrow>
     d' = d\<lparr>db_orders := db_orders d @ [r]\<rparr> \<and> or_id r \<notin> or_id ` set (db_orders d)
     \<and> (or_idempotency_key r = None \<or> or_idempotency_key r \<notin> or_idempotency_key ` set (db_orders d))"
  unfolding insert_order_def require_Inr_iff by auto

lemma insert_items_Inr:
  "insert_items rs d = Inr (u, d') \<Longrightarrow>
     d' = d\<lparr>db_items := db_items d @ rs\<rparr> \<and> oi_order_id ` set rs \<subseteq> or_id ` set (db_orders d)
     \<and> keyed oi_id (db_items d @ rs)"
  unfolding insert_items_def require_Inr_iff by auto

lemma insert_event_Inr:
  "insert_event e d = Inr (u, d') \<Longrightarrow>
     d' = d\<lparr>db_outbox := db_outbox d @ [e]\<rparr> \<and> ev_id e \<notin> ev_id ` set (db_outbox d)"
  unfolding insert_event_def require_Inr_iff by auto

lemma order_recorded_eq:
  "order_recorded ord ev d d' \<Longrightarrow>
     d' = d\<lparr>db_orders := db_orders d @ [order_row_of ord],
            db_items := db_items d @ map item_row_of (order_items ord),
            db_outbox := db_outbox d @ [ev]\<rparr>
     \<and> order_id ord \<notin> or_id ` set (db_orders d) \<and> ev_id ev \<notin> ev_id ` set (db_outbox d)"
  by (auto simp: order_recorded_def dest!: insert_order_Inr insert_items_Inr insert_event_Inr
      split: if_splits)

lemma order_createWithSql_wp:
  "wp (order_createWithSql ord Tx) (\<lambda>r w'. w_db w' = w_db w \<and> (\<forall>a. r = Ok a \<longrightarrow>
      (\<exists>d1. insert_order (order_row_of ord) (view Tx w) = Inr ((), d1)
        \<and> (if order_items ord = [] then view Tx w' = d1
           else insert_items (map item_row_of (order_items ord)) d1 = Inr ((), view Tx w'))))) w"
proof -
  have items: "wp (whenM (0 < length (order_items ord))
                     (sqlM Tx (insert_items (map item_row_of (order_items ord)))))
      (\<lambda>r w'. w_db w' = w_db w1 \<and> (\<forall>a. r = Ok a \<longrightarrow>
         (if order_items ord = [] then view Tx w' = view Tx w1
          else insert_items (map item_row_of (order_items ord)) (view Tx w1) = Inr ((), view Tx w')))) w1" for w1
    by (cases "order_items ord = []") (simp_all add: wp_whenM, rule wp_mono [OF wp_sql_Tx], auto)
  show ?thesis
    unfolding order_createWithSql_def wp_thenM
  proof (rule wp_mono [OF wp_sql_Tx], goal_cases)
    case (1 r w1)
    show ?case
    proof (cases r)
      case (Ok a)
      with 1 have ins: "insert_order (order_row_of ord) (view Tx w) = Inr ((), view Tx w1)" "w_db w1 = w_db w"
        by auto
      show ?thesis
        unfolding Ok res.case by (rule wp_mono [OF items]) (use ins in auto)
    qed (use 1 in auto)
  qed
qed

lemma outbox_createWithSql_wp:
  "wp (outbox_createWithSql e Tx) (\<lambda>r w'. w_db w' = w_db w \<and> (\<forall>eid. r = Ok eid \<longrightarrow>
      (\<exists>t. insert_event (event_row_of e eid t) (view Tx w) = Inr ((), view Tx w')))) w"
proof -
  have st: "wp (sqlM Tx (insert_event (event_row_of e eid t)))
     (\<lambda>r w'. w_db w' = w_db w \<and> (\<forall>a. r = Ok a \<longrightarrow>
        insert_event (event_row_of e eid t) (view Tx w) = Inr ((), view Tx w'))) w1"
    if "w_db w1 = w_db w" "view Tx w1 = view Tx w" for eid t w1
    using that by (intro wp_mono [OF wp_sql_Tx]) auto
  show ?thesis
    unfolding outbox_createWithSql_def
    by (simp add: wp_rules, rule wp_mono [OF st]) (auto simp: wp_rules split: res.split)
qed

lemma pg_order_sel [simp]:
  "or_createWithSql (pg_order_repo L) = order_createWithSql"
  "or_updateStatus (pg_order_repo L) = order_updateStatus"
  "or_findById (pg_order_repo L) = order_findById L"
  "ob_createWithSql pg_outbox_repo = outbox_createWithSql"
  by (simp_all add: pg_order_repo_def pg_outbox_repo_def)

lemma create_body_wp:
  "wp (thenM (order_createWithSql ord Tx)
         (bindM (outbox_createWithSql (created_event request ord) Tx) (\<lambda>_. ret ())))
     (\<lambda>r w'. w_db w' = w_db w \<and> (\<forall>a. r = Ok a \<longrightarrow> recorded_with request ord (view Tx w) (view Tx w'))) w"
  unfolding wp_thenM wp_bindM
proof (rule wp_mono [OF order_createWithSql_wp], goal_cases)
  case (1 r w1)
  show ?case
  proof (cases r)
    case (Ok a)
    with 1 obtain d1 where w1: "w_db w1 = w_db w" "insert_order (order_row_of ord) (view Tx w) = Inr ((), d1)"
        "if order_items ord = [] then view Tx w1 = d1
         else insert_items (map item_row_of (order_items ord)) d1 = Inr ((), view Tx w1)"
      by auto
    have "wp (outbox_createWithSql (created_event request ord) Tx)
        (\<lambda>r w'. w_db w' = w_db w \<and> (\<forall>a. r = Ok a \<longrightarrow> recorded_with request ord (view Tx w) (view Tx w'))) w1"
    proof (rule wp_mono [OF outbox_createWithSql_wp], intro conjI allI impI)
      fix r2 w2 eid
      assume r2: "w_db w2 = w_db w1 \<and> (\<forall>eid. r2 = Ok eid \<longrightarrow>
         (\<exists>t. insert_event (event_row_of (created_event request ord) eid t) (view Tx w1) = Inr ((), view Tx w2)))"
      then show "w_db w2 = w_db w" using w1 by simp
      assume "r2 = Ok eid"
      with r2 w1 show "recorded_with request ord (view Tx w) (view Tx w2)"
        unfolding recorded_with_def order_recorded_def by blast
    qed
    then show ?thesis
      unfolding Ok res.case by (rule wp_mono) (auto simp: wp_ret split: res.split)
  qed (use 1 in auto)
qed

lemma create_items_wp:
  "wp (create_items L oid cur lines)
     (\<lambda>r w'. w_db w' = w_db w \<and> (\<forall>items. r = Ok items \<longrightarrow> items_from L oid cur lines items)) w"
proof (induction lines arbitrary: w)
  case Nil
  then show ?case by (simp add: wp_rules items_from_def)
next
  case (Cons line lines)
  show ?case
  proof (cases "createOrderItem L (e_uuid (w_env w) (w_tick w)) oid (ol_sku line) (ol_quantity line)
                    (ol_unitPrice line) cur")
    case (Inl e)
    then show ?thesis by (simp add: wp_rules)
  next
    case (Inr item)
    then have iid: "item_id item = e_uuid (w_env w) (w_tick w)"
      by (rule createOrderItem_Inr)
    show ?thesis
      unfolding create_items.simps wp_bindM wp_uuidM wp_liftR res.case Inr sum.case
      by (intro wp_mono [OF Cons.IH]) (use Inr iid in \<open>auto simp: items_from_def wp_ret split: res.split\<close>)
  qed
qed

context tx_port
begin

text \<open>
  Creation, for every outcome: nothing has been written and the call has not fulfilled, or the
  order, its items and its event have been written together, and an order returned is that order.
\<close>

lemma createOrder_wp:
  assumes enq: "\<And>c. upholds (on_db (=)) (enqueue c)"
  shows "wp (service_createOrder L (pg_order_repo L') pg_outbox_repo enqueue tm request) (\<lambda>r w'.
     (\<forall>x. r \<noteq> Ok x) \<and> w_db w' = w_db w
     \<or> (\<exists>ord. order_from L request ord \<and> recorded_with request ord (w_db w) (w_db w')
          \<and> (\<forall>x. r = Ok x \<longrightarrow> fst x = ord))) w"
    (is "wp _ ?P w")
proof -
  have tail: "wp (thenM (increment n l)
          (bindM (catchM (enqueue c) (\<lambda>err. uuidM)) (\<lambda>sagaId. ret (ord, sagaId)))) ?P w1"
    if "order_from L request ord" "recorded_with request ord (w_db w) (w_db w1)" for ord c n l w1
  proof -
    have "upholds (on_db (=)) (thenM (increment n l)
          (bindM (catchM (enqueue c) (\<lambda>err. uuidM)) (\<lambda>sagaId. ret (ord, sagaId))))"
      by (intro upholds_intros preord_on_db preord_eq enq ticks_on_db)
    moreover have "wp (thenM (increment n l)
          (bindM (catchM (enqueue c) (\<lambda>err. uuidM)) (\<lambda>sagaId. ret (ord, sagaId))))
          (\<lambda>r _. \<forall>x. r = Ok x \<longrightarrow> fst x = ord) w1"
      by (simp add: wp_thenM increment_def wp_modifyM wp_bindM wp_catchM)
        (rule wp_always, auto simp: wp_rules split: res.split)
    ultimately show ?thesis
      using that unfolding upholds_def wp_def on_db_def by metis
  qed
  have tx: "wp (tm_begin tm (\<lambda>tx. thenM (or_createWithSql (pg_order_repo L') ord tx)
                (bindM (ob_createWithSql pg_outbox_repo (created_event request ord) tx) (\<lambda>_. ret ()))))
       (\<lambda>r w'. (\<forall>a. r \<noteq> Ok a) \<and> w_db w' = w_db w1 \<or> recorded_with request ord (w_db w1) (w_db w')) w1" for ord w1
    unfolding pg_order_sel
    by (rule wp_mono [OF atomic]) (rule create_body_wp, auto)
  have main: "wp (thenM (tm_begin tm (\<lambda>tx. thenM (or_createWithSql (pg_order_repo L') ord tx)
                (bindM (ob_createWithSql pg_outbox_repo (created_event request ord) tx) (\<lambda>_. ret ()))))
       (thenM (increment n l)
          (bindM (catchM (enqueue c) (\<lambda>err. uuidM)) (\<lambda>sagaId. ret (ord, sagaId))))) ?P w1"
    if "order_from L request ord" "w_db w1 = w_db w" for ord n l c w1
    unfolding wp_thenM [of "tm_begin tm _"]
    by (rule wp_mono [OF tx]) (use that tail in \<open>auto split: res.split\<close>)
  show ?thesis
    unfolding service_createOrder_def wp_bindM [of uuidM] wp_uuidM res.case
      wp_bindM [of "create_items _ _ _ _"]
  proof (rule wp_mono [OF create_items_wp], goal_cases)
    case (1 r w1)
    show ?case
    proof (cases r)
      case (Ok items)
      have "order_from L request ord"
        if "createOrder L (e_uuid (w_env w) (w_tick w)) (co_customerId request) items
              (co_currency request) (co_idempotencyKey request) t1 t2 = Inr ord" for t1 t2 ord
        using that createOrder_Inr [OF that] 1 Ok by (simp add: order_from_def)
      with Ok 1 main show ?thesis
        by (auto simp: wp_bindM wp_nowM wp_liftR split: sum.split)
    qed (use 1 in auto)
  qed
qed

end


section \<open>The properties\<close>

text \<open>
  C10. Creation of an order is atomic: for every request, every schedule of failures and every point
  where the process may die, either nothing is written and the call does not fulfil, or the row of one
  order made of the request, the rows of all its items and one pending event \<open>order.created\<close> for it
  are written together, and nothing else; an order that is returned is the one written.
\<close>

theorem createOrder_atomic:
  assumes "bullmq_laws B"
  shows "wp (service_createOrder L (pg_order_repo L') pg_outbox_repo (saga_enqueue B cfg) pg_tx_manager request) (\<lambda>r w'.
     (\<forall>x. r \<noteq> Ok x) \<and> w_db w' = w_db w
     \<or> (\<exists>ord ev. order_from L request ord
          \<and> w_db w' = (w_db w)\<lparr>db_orders := db_orders (w_db w) @ [order_row_of ord],
                               db_items := db_items (w_db w) @ map item_row_of (order_items ord),
                               db_outbox := db_outbox (w_db w) @ [ev]\<rparr>
          \<and> ev_eventType ev = ''order.created'' \<and> ev_aggregateId ev = order_id ord
          \<and> ev_status ev = OUTBOX_PENDING \<and> ev_retryCount ev = 0
          \<and> order_id ord \<notin> or_id ` set (db_orders (w_db w))
          \<and> (\<forall>x. r = Ok x \<longrightarrow> fst x = ord))) w"
proof (rule wp_mono [OF pg_tx.createOrder_wp])
  show "upholds (on_db (=)) (saga_enqueue B cfg c)" for c
    using assms by (rule upholds_saga_enqueue) simp
next
  fix r w'
  assume "(\<forall>x. r \<noteq> Ok x) \<and> w_db w' = w_db w
     \<or> (\<exists>ord. order_from L request ord \<and> recorded_with request ord (w_db w) (w_db w') \<and> (\<forall>x. r = Ok x \<longrightarrow> fst x = ord))"
  then show "(\<forall>x. r \<noteq> Ok x) \<and> w_db w' = w_db w
     \<or> (\<exists>ord ev. order_from L request ord
          \<and> w_db w' = (w_db w)\<lparr>db_orders := db_orders (w_db w) @ [order_row_of ord],
                               db_items := db_items (w_db w) @ map item_row_of (order_items ord),
                               db_outbox := db_outbox (w_db w) @ [ev]\<rparr>
          \<and> ev_eventType ev = ''order.created'' \<and> ev_aggregateId ev = order_id ord
          \<and> ev_status ev = OUTBOX_PENDING \<and> ev_retryCount ev = 0
          \<and> order_id ord \<notin> or_id ` set (db_orders (w_db w))
          \<and> (\<forall>x. r = Ok x \<longrightarrow> fst x = ord))"
  proof (elim disjE exE conjE, goal_cases)
    case (2 ord)
    from 2(2) obtain eid t where "order_recorded ord (event_row_of (created_event request ord) eid t) (w_db w) (w_db w')"
      by (auto simp: recorded_with_def)
    from order_recorded_eq [OF this] 2 show ?case
      by (intro disjI2 exI [of _ ord] exI [of _ "event_row_of (created_event request ord) eid t"]) simp
  qed blast
qed

theorem createOrder_atomic_witness:
  "wp (service_createOrder cents_lib (pg_order_repo cents_lib) pg_outbox_repo (saga_enqueue list_bullmq example_config) pg_tx_manager
        \<lparr>co_customerId = ''c'', co_items = [\<lparr>ol_sku = ''A'', ol_quantity = Whole 2, ol_unitPrice = ''19.99''\<rparr>],
         co_currency = ''USD'', co_idempotencyKey = None, co_paymentToken = ''tok''\<rparr>)
     (\<lambda>r w'. \<forall>x. r = Ok x \<longrightarrow> db_orders (w_db w') = [order_row_of (fst x)]
              \<and> length (db_outbox (w_db w')) = 1) (world_of quiet_env empty_db)"
  by (rule wp_mono [OF createOrder_atomic [OF list_bullmq_laws]]) (auto simp: world_of_def empty_db_def)



end
