(* ===== verification/Locking.thy ===== *)
theory Locking
  imports World "HOL-Library.Word"
begin

text \<open>
  \<open>src/src/domain/ports/lock-manager.ts\<close> and
  \<open>src/src/infrastructure/locking/postgres-advisory-lock.ts\<close>: advisory locks of PostgreSQL
  sessions, keyed by a 64-bit hash of the resource.  SHA-256 is a parameter: a function from
  strings to bytes.
\<close>


section \<open>The key of a resource\<close>

text \<open>\<open>hash.readUInt32BE(i)\<close>: four bytes from offset \<open>i\<close>, the first one the most significant.\<close>

definition readUInt32BE :: "8 word list \<Rightarrow> nat \<Rightarrow> int" where
  "readUInt32BE h i =
     uint (h ! i) * 2 ^ 24 + uint (h ! (i + 1)) * 2 ^ 16 + uint (h ! (i + 2)) * 2 ^ 8 + uint (h ! (i + 3))"

text \<open>\<open>BigInt.asIntN(n, x)\<close>: the low \<open>n\<close> bits in two's complement.\<close>

definition asIntN :: "nat \<Rightarrow> int \<Rightarrow> int" where
  "asIntN n x = (let m = x mod 2 ^ n in if 2 ^ (n - 1) \<le> m then m - 2 ^ n else m)"

definition toInt64 :: "(string \<Rightarrow> 8 word list) \<Rightarrow> string \<Rightarrow> int" where
  "toInt64 sha resourceId =
     (let hash = sha resourceId;
          high = readUInt32BE hash 0;
          low = readUInt32BE hash 4;
          unsigned = or (push_bit 32 high) low
      in asIntN 64 unsigned)"

lemma readUInt32BE_bounds: "0 \<le> readUInt32BE h i" "readUInt32BE h i < 2 ^ 32"
proof -
  have b: "0 \<le> uint x \<and> uint x < 256" for x :: "8 word"
    using uint_lt2p [of x] by simp
  show "0 \<le> readUInt32BE h i"
    using b by (simp add: readUInt32BE_def)
  show "readUInt32BE h i < 2 ^ 32"
    using b [of "h ! i"] b [of "h ! (i + 1)"] b [of "h ! (i + 2)"] b [of "h ! (i + 3)"]
    by (simp add: readUInt32BE_def)
qed

lemma digit_split:
  assumes eq: "x * B + d = y * B + (e :: int)" and d: "0 \<le> d" "d < B" and e: "0 \<le> e" "e < B"
  shows "x = y \<and> d = e"
proof -
  have "(x * B + d) mod B = d" "(y * B + e) mod B = e"
    using d e by simp_all
  with eq have "d = e" by simp
  with eq d show ?thesis by simp
qed

lemma readUInt32BE_horner:
  "readUInt32BE h i =
     ((uint (h ! i) * 256 + uint (h ! (i + 1))) * 256 + uint (h ! (i + 2))) * 256 + uint (h ! (i + 3))"
  by (simp add: readUInt32BE_def)

lemma readUInt32BE_inject:
  assumes "readUInt32BE h i = readUInt32BE h' i"
  shows "h ! i = h' ! i" "h ! (i + 1) = h' ! (i + 1)" "h ! (i + 2) = h' ! (i + 2)"
    "h ! (i + 3) = h' ! (i + 3)"
proof -
  have b: "0 \<le> uint x" "uint x < 256" for x :: "8 word"
    using uint_lt2p [of x] by simp_all
  note eq = assms [unfolded readUInt32BE_horner]
  note s3 = digit_split [OF eq b b]
  note s2 = digit_split [OF s3 [THEN conjunct1] b b]
  note s1 = digit_split [OF s2 [THEN conjunct1] b b]
  show "h ! i = h' ! i" "h ! (i + 1) = h' ! (i + 1)" "h ! (i + 2) = h' ! (i + 2)"
    "h ! (i + 3) = h' ! (i + 3)"
    using s1 s2 s3 by (simp_all add: word_uint_eq_iff)
qed

text \<open>The halves do not overlap: the disjunction of the code is a sum.\<close>

lemma or_push_bit_add:
  assumes "0 \<le> (b :: int)" "b < 2 ^ n"
  shows "or (push_bit n a) b = a * 2 ^ n + b"
proof -
  have t: "take_bit n b = b"
    using assms by (simp add: take_bit_int_eq_self)
  have "and (push_bit n a) b = 0"
  proof (rule bit_eqI)
    fix m
    have "bit b m \<longleftrightarrow> m < n \<and> bit b m"
      by (subst t [symmetric]) (auto simp: bit_take_bit_iff)
    then show "bit (and (push_bit n a) b) m \<longleftrightarrow> bit (0 :: int) m"
      by (auto simp: bit_and_iff bit_push_bit_iff)
  qed
  then show ?thesis
    by (simp add: disjunctive_add_eq_or [symmetric] push_bit_eq_mult)
qed

lemma asIntN_bounds: "0 < n \<Longrightarrow> - (2 ^ (n - 1)) \<le> asIntN n x \<and> asIntN n x < 2 ^ (n - 1)"
proof -
  assume "0 < n"
  then obtain k where n: "n = Suc k" by (cases n) auto
  have b: "0 \<le> x mod (2 * 2 ^ k)" "x mod (2 * 2 ^ k) < 2 * 2 ^ k"
    by (rule pos_mod_sign, simp, rule pos_mod_bound, simp)
  have p: "(0 :: int) < 2 ^ k"
    by simp
  have "- (2 ^ k) \<le> x mod (2 * 2 ^ k)" "x mod (2 * 2 ^ k) < 3 * 2 ^ k"
    using b p by linarith+
  with b p show ?thesis
    unfolding asIntN_def Let_def n by (auto split: if_split)
qed

lemma asIntN_mod: "asIntN n x mod 2 ^ n = x mod 2 ^ n"
  by (simp add: asIntN_def Let_def)

text \<open>A key is a PostgreSQL \<open>bigint\<close>, and it determines the first eight bytes of the digest.\<close>

lemma toInt64_eq:
  "toInt64 sha r = asIntN 64 (readUInt32BE (sha r) 0 * 2 ^ 32 + readUInt32BE (sha r) 4)"
  by (simp only: toInt64_def Let_def or_push_bit_add [OF readUInt32BE_bounds])

lemma toInt64_inject:
  assumes "toInt64 sha r = toInt64 sha r'"
  shows "\<forall>k < 8. sha r ! k = sha r' ! k"
proof -
  let ?h = "readUInt32BE (sha r) 0" and ?l = "readUInt32BE (sha r) 4"
  let ?h' = "readUInt32BE (sha r') 0" and ?l' = "readUInt32BE (sha r') 4"
  note b = readUInt32BE_bounds [of "sha r" 0] readUInt32BE_bounds [of "sha r" 4]
    readUInt32BE_bounds [of "sha r'" 0] readUInt32BE_bounds [of "sha r'" 4]
  have mod: "(?h * 2 ^ 32 + ?l) mod 2 ^ 64 = (?h' * 2 ^ 32 + ?l') mod 2 ^ 64"
    using assms unfolding toInt64_eq by (metis asIntN_mod)
  have small: "0 \<le> h * 2 ^ 32 + l \<and> h * 2 ^ 32 + l < 2 ^ 64"
    if "0 \<le> h" "h < 2 ^ 32" "0 \<le> l" "l < 2 ^ 32" for h l :: int
    using that by simp
  have "?h * 2 ^ 32 + ?l = ?h' * 2 ^ 32 + ?l'"
    using mod small [OF b(1-4)] small [OF b(5-8)] by (simp only: mod_pos_pos_trivial)
  then have "?h = ?h' \<and> ?l = ?l'"
    by (rule digit_split) (use b in simp_all)
  then have bytes: "sha r ! 0 = sha r' ! 0" "sha r ! 1 = sha r' ! 1" "sha r ! 2 = sha r' ! 2"
      "sha r ! 3 = sha r' ! 3" "sha r ! 4 = sha r' ! 4" "sha r ! 5 = sha r' ! 5"
      "sha r ! 6 = sha r' ! 6" "sha r ! 7 = sha r' ! 7"
    using readUInt32BE_inject [of "sha r" 0 "sha r'"] readUInt32BE_inject [of "sha r" 4 "sha r'"]
    by (simp_all add: numeral_2_eq_2)
  have "k < 8 \<Longrightarrow> k = 0 \<or> k = 1 \<or> k = 2 \<or> k = 3 \<or> k = 4 \<or> k = 5 \<or> k = 6 \<or> k = (7 :: nat)" for k
    by arith
  with bytes show ?thesis by metis
qed


section \<open>Advisory locks of sessions\<close>

text \<open>
  The server keeps, per key, the session that holds the lock and how often it has taken it: a
  session-level lock is re-entrant.  The session is the pooled connection the query runs on.
\<close>

definition try_advisory_lock :: "nat \<Rightarrow> int \<Rightarrow> world \<Rightarrow> bool \<times> world" where
  "try_advisory_lock sess key w =
     (case w_locks w key of
        None \<Rightarrow> (True, w\<lparr>w_locks := (w_locks w)(key \<mapsto> (sess, 1))\<rparr>)
      | Some (holder, n) \<Rightarrow>
          if holder = sess then (True, w\<lparr>w_locks := (w_locks w)(key \<mapsto> (sess, Suc n))\<rparr>)
          else (False, w))"

definition advisory_unlock :: "nat \<Rightarrow> int \<Rightarrow> world \<Rightarrow> bool \<times> world" where
  "advisory_unlock sess key w =
     (case w_locks w key of
        None \<Rightarrow> (False, w)
      | Some (holder, n) \<Rightarrow>
          if holder = sess
          then (True, w\<lparr>w_locks := (w_locks w)(key := (if n \<le> 1 then None else Some (sess, n - 1)))\<rparr>)
          else (False, w))"

text \<open>A query on a connection the pool picks.\<close>

definition sessionM :: "(nat \<Rightarrow> world \<Rightarrow> 'a \<times> world) \<Rightarrow> 'a io" where
  "sessionM f = ioM (\<lambda>w. case f (e_session (w_env w) (w_tick w)) w of (a, w') \<Rightarrow> (Ok a, w'))"


section \<open>The lock manager\<close>

record lock_manager =
  lm_acquire :: "string \<Rightarrow> int \<Rightarrow> unit io option io"

text \<open>The private method \<open>release(lockId)\<close>; it logs an error and does not throw it.\<close>

definition lock_release :: "int \<Rightarrow> unit io" where
  "lock_release lockId =
     catchM (thenM (sessionM (\<lambda>sess. advisory_unlock sess lockId)) (ret ())) (\<lambda>_. ret ())"

definition set_handle :: "nat \<Rightarrow> (lock_handle \<Rightarrow> lock_handle) \<Rightarrow> unit io" where
  "set_handle h f = modifyM (\<lambda>w. w\<lparr>w_handles := (w_handles w)[h := f (w_handles w ! h)]\<rparr>)"

text \<open>The closure \<open>acquire\<close> returns; its variables are entry \<open>h\<close> of the handles.\<close>

definition release_handle :: "nat \<Rightarrow> unit io" where
  "release_handle h =
     bindM (getsM (\<lambda>w. w_handles w ! h)) (\<lambda>lh.
     if lh_released lh then ret ()
     else thenM (set_handle h (\<lambda>lh. lh\<lparr>lh_released := True, lh_timer := False\<rparr>))
            (lock_release (lh_key lh)))"

text \<open>The timer of a handle goes off, once, unless it was cleared.\<close>

definition timer_expires :: "nat \<Rightarrow> unit io" where
  "timer_expires h =
     bindM (getsM (\<lambda>w. w_handles w ! h)) (\<lambda>lh.
     if \<not> lh_timer lh then ret ()
     else thenM (set_handle h (\<lambda>lh. lh\<lparr>lh_timer := False\<rparr>))
            (whenM (\<not> lh_released lh) (lock_release (lh_key lh))))"

definition new_handle :: "int \<Rightarrow> nat io" where
  "new_handle lockId = (\<lambda>w. (Ok (length (w_handles w)),
     w\<lparr>w_handles := w_handles w @ [\<lparr>lh_key = lockId, lh_released = False, lh_timer = True\<rparr>]\<rparr>))"

definition advisory_acquire :: "(string \<Rightarrow> 8 word list) \<Rightarrow> string \<Rightarrow> int \<Rightarrow> unit io option io" where
  "advisory_acquire sha resourceId ttlMs =
     (let lockId = toInt64 sha resourceId in
      bindM (sessionM (\<lambda>sess. try_advisory_lock sess lockId)) (\<lambda>locked.
      if \<not> locked then ret None
      else bindM (new_handle lockId) (\<lambda>h. ret (Some (release_handle h)))))"

definition pg_lock_manager :: "(string \<Rightarrow> 8 word list) \<Rightarrow> lock_manager" where
  "pg_lock_manager sha = \<lparr>lm_acquire = advisory_acquire sha\<rparr>"


section \<open>What locking leaves alone\<close>

lemma advisory_frame:
  "w_db (snd (try_advisory_lock s k w)) = w_db w" "w_db (snd (advisory_unlock s k w)) = w_db w"
  by (auto simp: try_advisory_lock_def advisory_unlock_def split: option.splits)

lemma upholds_sessionM [upholds_intros]:
  assumes "preord R" and "\<And>s w. w_db (snd (f s w)) = w_db w"
  shows "upholds (on_db R) (sessionM f)"
  unfolding sessionM_def
  by (rule upholds_ioM) (simp_all add: assms upholds_def on_db_def preord_refl split_def)

lemma upholds_lock_release [upholds_intros]: "preord R \<Longrightarrow> upholds (on_db R) (lock_release k)"
  unfolding lock_release_def
  by (intro upholds_intros preord_on_db) (simp_all add: advisory_frame)

lemma upholds_set_handle [upholds_intros]: "preord R \<Longrightarrow> upholds (on_db R) (set_handle h f)"
  by (simp add: set_handle_def upholds_def modifyM_def on_db_def preord_refl)

lemma upholds_new_handle [upholds_intros]: "preord R \<Longrightarrow> upholds (on_db R) (new_handle k)"
  by (simp add: new_handle_def upholds_def on_db_def preord_refl)

lemma upholds_release_handle [upholds_intros]: "preord R \<Longrightarrow> upholds (on_db R) (release_handle h)"
  unfolding release_handle_def by (intro upholds_intros preord_on_db)

lemma upholds_advisory_acquire [upholds_intros]:
  "preord R \<Longrightarrow> upholds (on_db R) (advisory_acquire sha r ttl)"
  unfolding advisory_acquire_def Let_def
  by (intro upholds_intros preord_on_db) (simp_all add: advisory_frame)

lemma wp_new_handle [wp_rules]:
  "wp (new_handle k) P w = P (Ok (length (w_handles w)))
     (w\<lparr>w_handles := w_handles w @ [\<lparr>lh_key = k, lh_released = False, lh_timer = True\<rparr>]\<rparr>)"
  by (simp add: wp_def new_handle_def)

lemma advisory_acquire_closure:
  "wp (advisory_acquire sha r ttl) (\<lambda>res w'. \<forall>rel. res = Ok (Some rel) \<longrightarrow> (\<exists>h. rel = release_handle h)) w"
  unfolding advisory_acquire_def Let_def wp_bindM
  by (rule wp_always) (auto simp: wp_rules split: res.split)


section \<open>The key\<close>

lemma toInt64_bytes:
  "map ((!) (sha r)) [0..<8] = map ((!) (sha r')) [0..<8] \<Longrightarrow> toInt64 sha r = toInt64 sha r'"
  by (simp add: toInt64_eq readUInt32BE_def upt_rec numeral_eq_Suc)



section \<open>Exclusion and release\<close>

text \<open>
  A lock that another session holds is not granted: the caller gets no release function, whatever
  fails, and neither the locks nor the handles change.
\<close>

theorem lock_exclusion:
  assumes "w_locks w (toInt64 sha r) = Some (holder, n)" and "holder \<noteq> e_session (w_env w) (Suc (w_tick w))"
  shows "wp (advisory_acquire sha r ttl) (\<lambda>res w'. (\<forall>rel. res \<noteq> Ok (Some rel))
           \<and> w_locks w' = w_locks w \<and> w_handles w' = w_handles w) w"
  using assms unfolding advisory_acquire_def Let_def sessionM_def wp_bindM wp_ioM
  by (simp add: wp_def try_advisory_lock_def ret_def split: fault.split)

theorem lock_exclusion_witness:
  "wp (advisory_acquire (\<lambda>_. replicate 8 0) ''inventory:A'' 10000) (\<lambda>res w'. \<forall>rel. res \<noteq> Ok (Some rel))
     ((world_of quiet_env empty_db)\<lparr>w_locks := (\<lambda>_. Some (7, 1))\<rparr>)"
  by (rule wp_mono [OF lock_exclusion [where holder = 7 and n = 1]]) (simp_all add: world_of_def quiet_env_def)

text \<open>
  C40. What a release achieves depends on the pooled session it runs on: when a free lock is taken and
  released without a fault, it is free again exactly if both queries run on one session; otherwise
  the first session keeps it, although the release function has fulfilled.
\<close>

theorem lock_release_session:
  assumes "w_locks w (toInt64 sha r) = None"
    and "e_fault (w_env w) (w_tick w) = Fine" and "e_fault (w_env w) (Suc (w_tick w)) = Fine"
  shows "wp (bindM (advisory_acquire sha r ttl) (\<lambda>lck. case lck of Some release \<Rightarrow> release | None \<Rightarrow> throw (JsError [])))
     (\<lambda>res w'. res = Ok () \<and> w_locks w' (toInt64 sha r) =
        (if e_session (w_env w) (Suc (Suc (w_tick w))) = e_session (w_env w) (Suc (w_tick w)) then None
         else Some (e_session (w_env w) (Suc (w_tick w)), 1))) w"
  using assms
  unfolding advisory_acquire_def Let_def sessionM_def
  by (simp add: wp_rules try_advisory_lock_def release_handle_def set_handle_def lock_release_def sessionM_def)
    (simp add: wp_def try_advisory_lock_def advisory_unlock_def ret_def bindM_def new_handle_def release_handle_def
      set_handle_def lock_release_def sessionM_def getsM_def modifyM_def thenM_def catchM_def ioM_def Let_def
      list_update_append nth_append tick_def)

theorem lock_release_session_witness:
  "wp (bindM (advisory_acquire (\<lambda>_. replicate 8 0) ''inventory:A'' 10000)
        (\<lambda>lck. case lck of Some release \<Rightarrow> release | None \<Rightarrow> throw (JsError [])))
     (\<lambda>res w'. res = Ok () \<and> w_locks w' (toInt64 (\<lambda>_. replicate 8 0) ''inventory:A'') = Some (1, 1))
     (world_of (quiet_env\<lparr>e_session := (\<lambda>n. n)\<rparr>) empty_db)"
  by (rule wp_mono [OF lock_release_session]) (simp_all add: world_of_def quiet_env_def)

text \<open>
  The timer of a lock does not mark it as released: when it has gone off, the release function unlocks a
  second time.  Here a second caller on the same session loses the lock it has taken.
\<close>

theorem lock_timer_unlocks_twice:
  "(case thenM (advisory_acquire (\<lambda>_. replicate 8 0) ''A'' 10000)
          (thenM (advisory_acquire (\<lambda>_. replicate 8 0) ''A'' 10000)
          (thenM (timer_expires 0) (release_handle 0))) (world_of quiet_env empty_db) of
      (res, w) \<Rightarrow> res = Ok () \<and> w_locks w (toInt64 (\<lambda>_. replicate 8 0) ''A'') = None
                  \<and> map lh_released (w_handles w) = [True, False])"
  by code_simp

end
