(* ===== verification/Inventory_Service.thy ===== *)
theory Inventory_Service
  imports Repositories Locking Queue
begin

text \<open>
  \<open>src/src/domain/services/inventory-service.ts\<close>: reservation and release of the items of an order,
  over an injected repository and lock manager.  The comparison of \<open>localeCompare\<close> is a parameter
  \<open>le\<close> (\<open>le a b\<close> is \<open>a.localeCompare(b) <= 0\<close>).

  The locale \<open>stock_port\<close> is the contract the service relies on: the stock is moved by \<open>reserve\<close> and
  \<open>release\<close> only, as a whole or not at all.  Its lemmas follow the loops of the service for every
  outcome; the interpretation discharges the contract for the PostgreSQL repository and lock manager.
\<close>



section \<open>The service\<close>

text \<open>The body of the loop once the lock of the item is held.\<close>

definition reserve_item :: "inventory_repo \<Rightarrow> reservation \<Rightarrow> bool io" where
  "reserve_item repo item =
     bindM (iv_findBySku repo (rv_sku item)) (\<lambda>inventory.
     case inventory of
       None \<Rightarrow> ret False
     | Some record \<Rightarrow>
         if ivr_available record < rv_quantity item then ret False
         else bindM (iv_reserve repo (rv_sku item) (rv_quantity item)) (\<lambda>success.
              if \<not> success then ret False
              else thenM (increment ''inventory.reserved'' [(''sku'', rv_sku item)]) (ret True)))"

text \<open>
  The loop: \<open>releases\<close> is the array of the locks taken so far.  The result is what the \<open>try\<close> block
  returns or throws, and that array for the \<open>finally\<close> block.
\<close>

fun reserve_loop :: "inventory_repo \<Rightarrow> lock_manager \<Rightarrow> reservation list \<Rightarrow> unit io list
                       \<Rightarrow> ((error + bool) \<times> unit io list) io" where
  "reserve_loop repo lm [] releases = ret (Inr True, releases)"
| "reserve_loop repo lm (item # items) releases =
     bindM (tryM (lm_acquire lm (''inventory:'' @ rv_sku item) 10000)) (\<lambda>acq.
     case acq of
       Inl e \<Rightarrow> ret (Inl e, releases)
     | Inr None \<Rightarrow> ret (Inr False, releases)
     | Inr (Some release) \<Rightarrow>
         bindM (tryM (reserve_item repo item)) (\<lambda>out.
         case out of
           Inr True \<Rightarrow> reserve_loop repo lm items (releases @ [release])
         | _ \<Rightarrow> ret (out, releases @ [release])))"

definition reserveInventory ::
    "(string \<Rightarrow> string \<Rightarrow> bool) \<Rightarrow> inventory_repo \<Rightarrow> lock_manager \<Rightarrow> string \<Rightarrow> reservation list \<Rightarrow> bool io" where
  "reserveInventory le repo lm orderId items =
     bindM nowM (\<lambda>startTime.
     bindM (reserve_loop repo lm (sort_by (\<lambda>a b. le (rv_sku a) (rv_sku b)) items) [])
       (\<lambda>(out, releases).
     bindM (case out of
              Inr True \<Rightarrow> bindM nowM (\<lambda>t. recordHistogram ''inventory.reservation.duration'' (t - startTime) [])
            | _ \<Rightarrow> ret ()) (\<lambda>_.
     thenM (all_settled releases) (liftR out))))"

definition release_item :: "inventory_repo \<Rightarrow> reservation \<Rightarrow> bool io" where
  "release_item repo item =
     bindM (iv_release repo (rv_sku item) (rv_quantity item)) (\<lambda>success.
     if \<not> success then ret False
     else thenM (increment ''inventory.released'' [(''sku'', rv_sku item)]) (ret True))"

fun release_loop :: "inventory_repo \<Rightarrow> lock_manager \<Rightarrow> reservation list \<Rightarrow> unit io list
                       \<Rightarrow> ((error + bool) \<times> unit io list) io" where
  "release_loop repo lm [] releases = ret (Inr True, releases)"
| "release_loop repo lm (item # items) releases =
     bindM (tryM (lm_acquire lm (''inventory:'' @ rv_sku item) 10000)) (\<lambda>acq.
     case acq of
       Inl e \<Rightarrow> ret (Inl e, releases)
     | Inr None \<Rightarrow> ret (Inr False, releases)
     | Inr (Some release) \<Rightarrow>
         bindM (tryM (release_item repo item)) (\<lambda>out.
         case out of
           Inr True \<Rightarrow> release_loop repo lm items (releases @ [release])
         | _ \<Rightarrow> ret (out, releases @ [release])))"

definition releaseInventory ::
    "(string \<Rightarrow> string \<Rightarrow> bool) \<Rightarrow> inventory_repo \<Rightarrow> lock_manager \<Rightarrow> string \<Rightarrow> reservation list \<Rightarrow> bool io" where
  "releaseInventory le repo lm orderId items =
     bindM (release_loop repo lm (sort_by (\<lambda>a b. le (rv_sku a) (rv_sku b)) items) [])
       (\<lambda>(out, releases). thenM (all_settled releases) (liftR out))"


section \<open>Stock\<close>

type_synonym stock = "string \<Rightarrow> (int \<times> int) option"

text \<open>Available and reserved units per SKU; moving \<open>f s\<close> units of every \<open>s\<close> into reservation.\<close>

definition stock_of :: "db \<Rightarrow> stock" where
  "stock_of d s = map_option (\<lambda>r. (inv_available r, inv_reserved r)) (db_inventory d s)"

definition move :: "(string \<Rightarrow> int) \<Rightarrow> stock \<Rightarrow> stock" where
  "move f st = (\<lambda>s. map_option (\<lambda>(a, v). (a - f s, v + f s)) (st s))"

definition give_back :: "string \<Rightarrow> int \<Rightarrow> stock \<Rightarrow> stock" where
  "give_back s q st = (\<lambda>s'. if s' = s then map_option (\<lambda>(a, v). (a + q, max 0 (v - q))) (st s') else st s')"

primrec demand :: "reservation list \<Rightarrow> string \<Rightarrow> int" where
  "demand [] s = 0"
| "demand (i # is) s = (if rv_sku i = s then rv_quantity i else 0) + demand is s"

lemma demand_fun: "demand [] = (\<lambda>_. 0)"
    "demand (i # is) = (\<lambda>s. (if rv_sku i = s then rv_quantity i else 0) + demand is s)"
  by (rule ext, simp)+

lemma demand_append [simp]: "demand (xs @ ys) s = demand xs s + demand ys s"
  by (induction xs) auto

lemma demand_mset: "mset xs = mset ys \<Longrightarrow> demand xs = demand ys"
proof -
  have "demand zs s = (\<Sum>i \<in># mset zs. if rv_sku i = s then rv_quantity i else 0)" for zs s
    by (induction zs) auto
  then show "mset xs = mset ys \<Longrightarrow> demand xs = demand ys" by (simp add: fun_eq_iff)
qed

lemma move_zero [simp]: "move (\<lambda>_. 0) st = st"
proof
  show "move (\<lambda>_. 0) st s = st s" for s by (cases "st s") (auto simp: move_def)
qed

lemma move_move: "move f (move g st) = move (\<lambda>s. g s + f s) st"
proof
  show "move f (move g st) s = move (\<lambda>s. g s + f s) st s" for s
    by (cases "st s") (auto simp: move_def)
qed

definition give_back_all :: "reservation list \<Rightarrow> stock \<Rightarrow> stock" where
  "give_back_all items st = fold (\<lambda>i. give_back (rv_sku i) (rv_quantity i)) items st"

lemma give_back_all_simps [simp]:
  "give_back_all [] st = st"
  "give_back_all (i # is) st = give_back_all is (give_back (rv_sku i) (rv_quantity i) st)"
  by (simp_all add: give_back_all_def)

lemma demand_nonneg: "\<forall>i \<in> set items. 0 \<le> rv_quantity i \<Longrightarrow> 0 \<le> demand items s"
  by (induction items) auto

text \<open>Giving back what is reserved is the inverse of reserving it.\<close>

lemma give_back_all_move:
  assumes "\<forall>i \<in> set items. 0 \<le> rv_quantity i"
    and "\<And>s a v. st s = Some (a, v) \<Longrightarrow> demand items s \<le> v"
  shows "give_back_all items st = move (\<lambda>s. - demand items s) st"
  using assms
proof (induction items arbitrary: st)
  case Nil
  then show ?case by (simp add: demand_fun)
next
  case (Cons i items)
  let ?st = "give_back (rv_sku i) (rv_quantity i) st"
  have nn: "0 \<le> demand items s" for s
    using Cons.prems(1) by (intro demand_nonneg) simp
  have one: "?st = move (\<lambda>s. - (if rv_sku i = s then rv_quantity i else 0)) st"
  proof
    fix s
    show "?st s = move (\<lambda>s. - (if rv_sku i = s then rv_quantity i else 0)) st s"
      using Cons.prems(2) [of s] nn [of s] Cons.prems(1)
      by (cases "st s") (auto simp: give_back_def move_def)
  qed
  have "give_back_all items ?st = move (\<lambda>s. - demand items s) ?st"
  proof (rule Cons.IH)
    show "\<forall>i \<in> set items. 0 \<le> rv_quantity i" using Cons.prems(1) by simp
    show "demand items s \<le> v" if "?st s = Some (a, v)" for s a v
      using that Cons.prems(2) [of s] unfolding one by (fastforce simp: move_def)
  qed
  then show ?case
    unfolding give_back_all_simps one by (simp add: move_move demand_fun)
qed


text \<open>What reserving the items \<open>ps\<close> one after the other does to a stock.\<close>

definition took :: "reservation list \<Rightarrow> stock \<Rightarrow> stock \<Rightarrow> bool" where
  "took ps st st' \<longleftrightarrow> st' = move (demand ps) st
     \<and> (\<forall>s a v. st s = Some (a, v) \<longrightarrow> 0 \<le> a \<longrightarrow> demand ps s \<le> a)
     \<and> (\<forall>i \<in> set ps. st (rv_sku i) \<noteq> None)"

lemma took_Nil [simp]: "took [] st st"
  by (simp add: took_def demand_fun)

lemma move_dom: "move f st s = None \<longleftrightarrow> st s = None"
  by (simp add: move_def)

lemma took_Cons:
  assumes step: "st1 = move (\<lambda>s. if rv_sku i = s then rv_quantity i else 0) st"
    and avail: "st (rv_sku i) = Some (a, v)" "rv_quantity i \<le> a"
    and rest: "took ps st1 st'"
  shows "took (i # ps) st st'"
proof -
  have "st' = move (demand (i # ps)) st"
    using rest unfolding took_def step move_move demand_fun by blast
  moreover have "demand (i # ps) s \<le> b" if s: "st s = Some (b, u)" "0 \<le> b" for s b u
  proof -
    let ?q = "if rv_sku i = s then rv_quantity i else 0"
    have "st1 s = Some (b - ?q, u + ?q)"
      using s by (simp add: step move_def)
    moreover have "0 \<le> b - ?q"
      using s avail by (auto split: if_splits)
    ultimately have "demand ps s \<le> b - ?q"
      using rest unfolding took_def by blast
    then show ?thesis by simp
  qed
  moreover have "\<forall>j \<in> set (i # ps). st (rv_sku j) \<noteq> None"
    using rest avail unfolding took_def step by (auto simp: move_dom)
  ultimately show ?thesis unfolding took_def by blast
qed

definition gave :: "reservation list \<Rightarrow> stock \<Rightarrow> stock \<Rightarrow> bool" where
  "gave ps st st' \<longleftrightarrow> st' = give_back_all ps st \<and> (\<forall>i \<in> set ps. st (rv_sku i) \<noteq> None)"

lemma gave_Nil [simp]: "gave [] st st"
  by (simp add: gave_def)

lemma gave_Cons:
  "st (rv_sku i) \<noteq> None \<Longrightarrow> gave ps (give_back (rv_sku i) (rv_quantity i) st) st' \<Longrightarrow> gave (i # ps) st st'"
  by (auto simp: gave_def give_back_def split: if_splits)


section \<open>The contract of the repository and the lock manager\<close>

definition stock_w :: "world \<Rightarrow> stock" where
  "stock_w w = stock_of (w_db w)"

text \<open>
  A loop over \<open>items\<close> from the stock \<open>st\<close>: a prefix of the items has been treated, all of them
  when the result is \<open>true\<close>, and the locks it hands over leave the stock alone.
\<close>

definition looped ::
    "(reservation list \<Rightarrow> stock \<Rightarrow> stock \<Rightarrow> bool) \<Rightarrow> reservation list \<Rightarrow> stock
       \<Rightarrow> ((error + bool) \<times> unit io list) res \<Rightarrow> world \<Rightarrow> bool" where
  "looped rel items st res w' \<longleftrightarrow>
     (\<exists>ps rest. items = ps @ rest \<and> rel ps st (stock_w w')
        \<and> (\<forall>releases. res = Ok (Inr True, releases) \<longrightarrow> rest = []))
     \<and> (\<forall>out releases. res = Ok (out, releases) \<longrightarrow> (\<forall>r \<in> set releases. upholds (same stock_w) r))"

lemma looped_stop:
  assumes "rel [] st (stock_w w')" and "\<And>releases. res = Ok (Inr True, releases) \<Longrightarrow> items = []"
    and "\<And>out releases r. res = Ok (out, releases) \<Longrightarrow> r \<in> set releases \<Longrightarrow> upholds (same stock_w) r"
  shows "looped rel items st res w'"
  unfolding looped_def using assms by (metis append_Nil)

lemma looped_one:
  assumes "rel [i] st (stock_w w')" and "\<And>releases. res \<noteq> Ok (Inr True, releases)"
    and "\<And>out releases r. res = Ok (out, releases) \<Longrightarrow> r \<in> set releases \<Longrightarrow> upholds (same stock_w) r"
  shows "looped rel (i # items) st res w'"
  unfolding looped_def using assms by (metis append_Cons append_Nil)

lemma looped_Cons:
  assumes "looped rel items st1 res w'" and "\<And>ps st'. rel ps st1 st' \<Longrightarrow> rel (i # ps) st st'"
  shows "looped rel (i # items) st res w'"
  using assms unfolding looped_def by (metis append_Cons)

lemma looped_Ok:
  "looped rel items st (Ok (out, releases)) w' \<Longrightarrow>
     \<exists>ps rest. items = ps @ rest \<and> rel ps st (stock_w w') \<and> (out = Inr True \<longrightarrow> rest = [])"
  by (auto simp: looped_def)

lemma wp_bind_looped:
  assumes m: "wp m (looped rel items st) w"
    and ok: "\<And>out releases w1. looped rel items st (Ok (out, releases)) w1 \<Longrightarrow> wp (k (out, releases)) Q w1"
    and stop: "\<And>ps rest r w1. items = ps @ rest \<Longrightarrow> rel ps st (stock_w w1) \<Longrightarrow> (\<forall>b. r \<noteq> Ok b) \<Longrightarrow> Q r w1"
  shows "wp (bindM m k) Q w"
  unfolding wp_bindM
proof (rule wp_mono [OF m])
  fix r w1
  assume l: "looped rel items st r w1"
  then have "(\<forall>b. r' \<noteq> Ok b) \<Longrightarrow> Q r' w1" for r'
    using stop unfolding looped_def by blast
  with l ok show "case r of Ok a \<Rightarrow> wp (k a) Q w1 | Throw e \<Rightarrow> Q (Throw e) w1 | Crashed \<Rightarrow> Q Crashed w1"
    by (cases r) auto
qed

text \<open>One iteration, for both loops: the item is treated and the loop goes on, or it ends here.\<close>

lemma item_loop_step:
  assumes item: "wp m (\<lambda>res w'. (res \<noteq> Ok True \<and> stock_w w' = st) \<or> (res \<noteq> Ok False \<and> one (stock_w w'))) w"
    and nil: "\<And>st. rel [] st st"
    and cons: "\<And>st1 ps st'. one st1 \<Longrightarrow> rel ps st1 st' \<Longrightarrow> rel (i # ps) st st'"
    and rels: "\<forall>r \<in> set releases. upholds (same stock_w) r"
    and more: "\<And>w1. one (stock_w w1) \<Longrightarrow> wp k (looped rel items (stock_w w1)) w1"
  shows "wp (bindM (tryM m) (\<lambda>out. case out of Inr True \<Rightarrow> k | _ \<Rightarrow> ret (out, releases)))
           (looped rel (i # items) st) w"
proof -
  have stay: "looped rel (i # items) st res w1"
    if "stock_w w1 = st" "\<And>rs. res \<noteq> Ok (Inr True, rs)" "\<And>out rs. res = Ok (out, rs) \<Longrightarrow> rs = releases"
    for res w1
    by (rule looped_stop) (use that nil rels in auto)
  have step: "looped rel (i # items) st res w1"
    if "one (stock_w w1)" "\<And>rs. res \<noteq> Ok (Inr True, rs)" "\<And>out rs. res = Ok (out, rs) \<Longrightarrow> rs = releases"
    for res w1
    by (rule looped_one) (use cons [OF that(1) nil] that rels in auto)
  have go: "wp k (looped rel (i # items) st) w1" if "one (stock_w w1)" for w1
    by (rule wp_mono [OF more [OF that]]) (rule looped_Cons, assumption, rule cons [OF that])
  show ?thesis
    unfolding wp_bindM wp_tryM
  proof (rule wp_mono [OF item])
    fix r w1
    assume d: "(r \<noteq> Ok True \<and> stock_w w1 = st) \<or> (r \<noteq> Ok False \<and> one (stock_w w1))"
    have stop: "looped rel (i # items) st res w1"
      if "\<And>rs. res \<noteq> Ok (Inr True, rs)" "\<And>out rs. res = Ok (out, rs) \<Longrightarrow> rs = releases" for res
      using d
    proof (elim disjE conjE)
      assume "stock_w w1 = st"
      then show ?thesis by (rule stay) (use that in auto)
    next
      assume "one (stock_w w1)"
      then show ?thesis by (rule step) (use that in auto)
    qed
    have "looped rel (i # items) st (Ok (Inr False, releases)) w1"
      "looped rel (i # items) st (Ok (Inl e, releases)) w1" "looped rel (i # items) st Crashed w1" for e
      by (rule stop; simp)+
    with d go show "case r of
          Ok a \<Rightarrow> (case Ok (Inr a) of
              Ok a \<Rightarrow> wp (case a of Inr True \<Rightarrow> k | _ \<Rightarrow> ret (a, releases)) (looped rel (i # items) st) w1
            | Throw e \<Rightarrow> looped rel (i # items) st (Throw e) w1
            | Crashed \<Rightarrow> looped rel (i # items) st Crashed w1)
        | Throw e \<Rightarrow> (case Ok (Inl e) of
              Ok a \<Rightarrow> wp (case a of Inr True \<Rightarrow> k | _ \<Rightarrow> ret (a, releases)) (looped rel (i # items) st) w1
            | Throw e \<Rightarrow> looped rel (i # items) st (Throw e) w1
            | Crashed \<Rightarrow> looped rel (i # items) st Crashed w1)
        | Crashed \<Rightarrow> (case Crashed of
              Ok a \<Rightarrow> wp (case a of Inr True \<Rightarrow> k | _ \<Rightarrow> ret (a, releases)) (looped rel (i # items) st) w1
            | Throw e \<Rightarrow> looped rel (i # items) st (Throw e) w1
            | Crashed \<Rightarrow> looped rel (i # items) st Crashed w1)"
      by (cases r) (auto simp: wp_ret split: bool.splits)
  qed
qed

locale stock_port =
  fixes repo :: inventory_repo and lm :: lock_manager
  assumes find_same: "upholds (same stock_w) (iv_findBySku repo s)"
    and acquire_same: "upholds (same stock_w) (lm_acquire lm r ttl)"
    and closure_same:
      "wp (lm_acquire lm r ttl) (\<lambda>res w'. \<forall>rel. res = Ok (Some rel) \<longrightarrow> upholds (same stock_w) rel) w"
    and reserve_moves:
      "wp (iv_reserve repo s q) (\<lambda>res w'.
         (res \<noteq> Ok True \<and> stock_w w' = stock_w w) \<or>
         (res \<noteq> Ok False \<and> stock_w w' = move (\<lambda>s'. if s = s' then q else 0) (stock_w w)
            \<and> (\<exists>a v. stock_w w s = Some (a, v) \<and> q \<le> a))) w"
    and release_gives:
      "wp (iv_release repo s q) (\<lambda>res w'.
         (res \<noteq> Ok True \<and> stock_w w' = stock_w w) \<or>
         (res \<noteq> Ok False \<and> stock_w w' = give_back s q (stock_w w) \<and> stock_w w s \<noteq> None)) w"
begin

lemma metrics_same: "upholds (same stock_w) (increment n l)"
    "upholds (same stock_w) (recordHistogram n v l)" "upholds (same stock_w) nowM"
  by (simp_all add: upholds_def same_def stock_w_def increment_def recordHistogram_def nowM_def
      modifyM_def tick_def)

lemma find_wp: "wp (iv_findBySku repo s) (\<lambda>_ w'. stock_w w' = stock_w w) w"
  using upholds_wp [OF find_same] by (simp add: same_def)

lemma acquire_wp:
  "wp (lm_acquire lm r ttl) (\<lambda>res w'. stock_w w' = stock_w w
      \<and> (\<forall>rel. res = Ok (Some rel) \<longrightarrow> upholds (same stock_w) rel)) w"
  using upholds_wp [OF acquire_same] closure_same by (simp add: same_def wp_def)

lemma increment_wp: "wp (increment n l) (\<lambda>res w'. res = Ok () \<and> stock_w w' = stock_w w) w"
  by (simp add: increment_def wp_modifyM stock_w_def)

lemma reserve_item_wp:
  "wp (reserve_item repo i) (\<lambda>res w'.
     (res \<noteq> Ok True \<and> stock_w w' = stock_w w) \<or>
     (res \<noteq> Ok False \<and> stock_w w' = move (\<lambda>s'. if rv_sku i = s' then rv_quantity i else 0) (stock_w w)
        \<and> (\<exists>a v. stock_w w (rv_sku i) = Some (a, v) \<and> rv_quantity i \<le> a))) w"
  unfolding reserve_item_def
  by (auto simp: wp_rules split: res.splits option.splits
      intro!: wp_mono [OF find_wp] wp_mono [OF reserve_moves] wp_mono [OF increment_wp])

lemma release_item_wp:
  "wp (release_item repo i) (\<lambda>res w'.
     (res \<noteq> Ok True \<and> stock_w w' = stock_w w) \<or>
     (res \<noteq> Ok False \<and> stock_w w' = give_back (rv_sku i) (rv_quantity i) (stock_w w)
        \<and> stock_w w (rv_sku i) \<noteq> None)) w"
  unfolding release_item_def
  by (auto simp: wp_rules split: res.splits
      intro!: wp_mono [OF release_gives] wp_mono [OF increment_wp])

lemma reserve_loop_wp:
  "\<forall>r \<in> set releases. upholds (same stock_w) r \<Longrightarrow>
     wp (reserve_loop repo lm items releases) (looped took items (stock_w w)) w"
proof (induction items arbitrary: releases w)
  case Nil
  then show ?case by (auto simp: wp_rules intro!: looped_stop)
next
  case (Cons i items)
  have body: "wp (bindM (tryM (reserve_item repo i)) (\<lambda>out. case out of
            Inr True \<Rightarrow> reserve_loop repo lm items (releases @ [rel]) | _ \<Rightarrow> ret (out, releases @ [rel])))
          (looped took (i # items) (stock_w w)) w1"
    if "stock_w w1 = stock_w w" "upholds (same stock_w) rel" for w1 rel
  proof -
    have rels: "\<forall>r \<in> set (releases @ [rel]). upholds (same stock_w) r"
      using Cons.prems that(2) by auto
    show ?thesis
      by (rule item_loop_step [OF reserve_item_wp [of i w1, unfolded that(1)]], simp,
          blast intro: took_Cons, rule rels, rule Cons.IH [OF rels])
  qed
  show ?case
    unfolding reserve_loop.simps wp_bindM wp_tryM
    by (rule wp_mono [OF acquire_wp])
      (use Cons.prems body in \<open>auto simp: wp_rules split: res.splits option.splits intro!: looped_stop\<close>)
qed

lemma release_loop_wp:
  "\<forall>r \<in> set releases. upholds (same stock_w) r \<Longrightarrow>
     wp (release_loop repo lm items releases) (looped gave items (stock_w w)) w"
proof (induction items arbitrary: releases w)
  case Nil
  then show ?case by (auto simp: wp_rules intro!: looped_stop)
next
  case (Cons i items)
  have body: "wp (bindM (tryM (release_item repo i)) (\<lambda>out. case out of
            Inr True \<Rightarrow> release_loop repo lm items (releases @ [rel]) | _ \<Rightarrow> ret (out, releases @ [rel])))
          (looped gave (i # items) (stock_w w)) w1"
    if "stock_w w1 = stock_w w" "upholds (same stock_w) rel" for w1 rel
  proof -
    have rels: "\<forall>r \<in> set (releases @ [rel]). upholds (same stock_w) r"
      using Cons.prems that(2) by auto
    show ?thesis
      by (rule item_loop_step [OF release_item_wp [of i w1, unfolded that(1)]], simp,
          blast intro: gave_Cons, rule rels, rule Cons.IH [OF rels])
  qed
  show ?case
    unfolding release_loop.simps wp_bindM wp_tryM
    by (rule wp_mono [OF acquire_wp])
      (use Cons.prems body in \<open>auto simp: wp_rules split: res.splits option.splits intro!: looped_stop\<close>)
qed

lemma finish_wp:
  assumes "\<forall>r \<in> set releases. upholds (same stock_w) r"
  shows "wp (thenM (all_settled releases) (liftR out))
           (\<lambda>res w'. stock_w w' = stock_w w \<and> (\<forall>b. res = Ok b \<longrightarrow> out = Inr b)) w"
proof -
  have "upholds (same stock_w) (all_settled releases)"
    using assms by (intro upholds_all_settled) auto
  then have "wp (all_settled releases) (\<lambda>_ w'. stock_w w' = stock_w w) w"
    using upholds_wp [of "same stock_w" _ w] by (simp add: same_def)
  then show ?thesis
    unfolding wp_thenM
    by (rule wp_mono) (auto simp: wp_liftR split: res.split sum.split)
qed

lemma metrics_wp:
  "wp (bindM nowM (\<lambda>t. recordHistogram n (t - t0) [])) (\<lambda>res w'. stock_w w' = stock_w w \<and> res = Ok ()) w"
  by (simp add: wp_rules recordHistogram_def stock_w_def)

text \<open>
  Reservation, for every outcome: the items of a prefix of the sorted list are reserved, each of
  them available in full, and all of them when the result is \<open>true\<close>.
\<close>

lemma reserveInventory_wp:
  "wp (reserveInventory le repo lm oid items) (\<lambda>res w'.
     \<exists>ps rest. sort_by (\<lambda>a b. le (rv_sku a) (rv_sku b)) items = ps @ rest
       \<and> took ps (stock_w w) (stock_w w') \<and> (res = Ok True \<longrightarrow> rest = [])) w"
proof -
  let ?sorted = "sort_by (\<lambda>a b. le (rv_sku a) (rv_sku b)) items"
  let ?Q = "\<lambda>res w'. \<exists>ps rest. ?sorted = ps @ rest \<and> took ps (stock_w w) (stock_w w')
              \<and> (res = Ok True \<longrightarrow> rest = [])"
  have tail: "wp (bindM (case out of
            Inr True \<Rightarrow> bindM nowM (\<lambda>t. recordHistogram n (t - t0) [])
          | _ \<Rightarrow> ret ()) (\<lambda>_. thenM (all_settled releases) (liftR out))) ?Q w1"
    if lp: "looped took ?sorted (stock_w w) (Ok (out, releases)) w1" for out releases w1 n t0
  proof -
    obtain ps rest where ps: "?sorted = ps @ rest" "took ps (stock_w w) (stock_w w1)"
        "out = Inr True \<longrightarrow> rest = []"
      using looped_Ok [OF lp] by blast
    have rels: "\<forall>r \<in> set releases. upholds (same stock_w) r"
      using lp unfolding looped_def by blast
    have fin: "wp (thenM (all_settled releases) (liftR out)) ?Q w2" if "stock_w w2 = stock_w w1" for w2
      by (rule wp_mono [OF finish_wp [OF rels]]) (use ps that in auto)
    have met: "wp (case out of Inr True \<Rightarrow> bindM nowM (\<lambda>t. recordHistogram n (t - t0) []) | _ \<Rightarrow> ret ())
        (\<lambda>res w'. stock_w w' = stock_w w1 \<and> res = Ok ()) w1"
      using metrics_wp by (auto simp: wp_ret split: sum.split bool.split)
    show ?thesis
      unfolding wp_bindM by (rule wp_mono [OF met]) (use fin in auto)
  qed
  have "wp (reserve_loop repo lm ?sorted []) (looped took ?sorted (stock_w w)) (tick w)"
    using reserve_loop_wp [of "[]" ?sorted "tick w"] by (simp add: stock_w_def)
  then show ?thesis
    unfolding reserveInventory_def wp_bindM [of nowM] wp_nowM
    by simp (elim wp_bind_looped; use tail in auto)
qed

lemma releaseInventory_wp:
  "wp (releaseInventory le repo lm oid items) (\<lambda>res w'.
     \<exists>ps rest. sort_by (\<lambda>a b. le (rv_sku a) (rv_sku b)) items = ps @ rest
       \<and> gave ps (stock_w w) (stock_w w') \<and> (res = Ok True \<longrightarrow> rest = [])) w"
proof -
  let ?sorted = "sort_by (\<lambda>a b. le (rv_sku a) (rv_sku b)) items"
  let ?Q = "\<lambda>res w'. \<exists>ps rest. ?sorted = ps @ rest \<and> gave ps (stock_w w) (stock_w w')
              \<and> (res = Ok True \<longrightarrow> rest = [])"
  have tail: "wp (thenM (all_settled releases) (liftR out)) ?Q w1"
    if lp: "looped gave ?sorted (stock_w w) (Ok (out, releases)) w1" for out releases w1
  proof -
    obtain ps rest where ps: "?sorted = ps @ rest" "gave ps (stock_w w) (stock_w w1)"
        "out = Inr True \<longrightarrow> rest = []"
      using looped_Ok [OF lp] by blast
    have "\<forall>r \<in> set releases. upholds (same stock_w) r"
      using lp unfolding looped_def by blast
    then show ?thesis
      by (rule wp_mono [OF finish_wp]) (use ps in auto)
  qed
  show ?thesis
    unfolding releaseInventory_def
    by (rule wp_bind_looped [OF release_loop_wp]) (use tail in auto)
qed

text \<open>Compensation is exact: releasing what was reserved restores the stock.\<close>

lemma took_then_gave:
  assumes "took items st st1" and "gave items' st1 st2" and "mset items' = mset items"
    and "\<forall>i \<in> set items. 0 \<le> rv_quantity i"
    and "\<And>s a v. st s = Some (a, v) \<Longrightarrow> 0 \<le> v"
  shows "st2 = st"
proof -
  have d: "demand items' = demand items"
    using demand_mset [OF assms(3)] .
  have st1: "st1 = move (demand items) st"
    using assms(1) by (simp add: took_def)
  have "st2 = give_back_all items' st1"
    using assms(2) by (simp add: gave_def)
  also have "\<dots> = move (\<lambda>s. - demand items' s) st1"
  proof (rule give_back_all_move)
    show "\<forall>i \<in> set items'. 0 \<le> rv_quantity i"
      using assms(3,4) by (metis set_mset_mset)
    show "demand items' s \<le> v" if "st1 s = Some (a, v)" for s a v
      using that assms(5) [of s] unfolding st1 d by (fastforce simp: move_def)
  qed
  finally show ?thesis
    by (simp add: st1 d move_move)
qed

end


section \<open>The contract holds for PostgreSQL\<close>

lemma stock_same_on_db: "upholds (on_db (=)) m \<Longrightarrow> upholds (same stock_w) m"
  by (auto simp: upholds_def on_db_def same_def stock_w_def)

lemma select_inventory_idle: "stmt_in (=) (select_inventory s)"
  by (auto simp: stmt_in_def select_inventory_def)

lemma checked_inventory_Inr:
  "checked_inventory r = Inr r' \<Longrightarrow> r' = r \<and> 0 \<le> inv_available r \<and> 0 \<le> inv_reserved r"
  unfolding checked_inventory_def require_Inr_iff by auto

lemma reserve_stmt_Inr:
  assumes "reserve_stmt s q d = Inr (b, d')"
  shows "(\<not> b \<and> d' = d) \<or>
    (b \<and> stock_of d' = move (\<lambda>s'. if s = s' then q else 0) (stock_of d)
       \<and> (\<exists>a v. stock_of d s = Some (a, v) \<and> q \<le> a))"
  using assms
  by (auto simp: reserve_stmt_def update_inventory_def stock_of_def move_def reserve_row_def fun_eq_iff
      option.map_id split: if_splits option.splits sum.splits dest!: checked_inventory_Inr)

lemma release_stmt_Inr:
  assumes "release_stmt s q d = Inr (b, d')"
  shows "(\<not> b \<and> d' = d) \<or> (b \<and> stock_of d' = give_back s q (stock_of d) \<and> stock_of d s \<noteq> None)"
  using assms
  by (auto simp: release_stmt_def update_inventory_def stock_of_def give_back_def release_row_def
      fun_eq_iff split: if_splits option.splits sum.splits dest!: checked_inventory_Inr)

lemma pg_repo_sel [simp]:
  "iv_findBySku pg_inventory_repo = inventory_findBySku"
  "iv_reserve pg_inventory_repo = inventory_reserve"
  "iv_release pg_inventory_repo = inventory_release"
  "lm_acquire (pg_lock_manager sha) = advisory_acquire sha"
  by (simp_all add: pg_inventory_repo_def pg_lock_manager_def)

lemma inventory_reserve_wp:
  "wp (inventory_reserve s q) (\<lambda>res w'.
     (res \<noteq> Ok True \<and> stock_w w' = stock_w w) \<or>
     (res \<noteq> Ok False \<and> stock_w w' = move (\<lambda>s'. if s = s' then q else 0) (stock_w w)
        \<and> (\<exists>a v. stock_w w s = Some (a, v) \<and> q \<le> a))) w"
  unfolding inventory_reserve_def stock_w_def
  by (rule wp_sqlM) (auto dest!: reserve_stmt_Inr)

lemma inventory_release_wp:
  "wp (inventory_release s q) (\<lambda>res w'.
     (res \<noteq> Ok True \<and> stock_w w' = stock_w w) \<or>
     (res \<noteq> Ok False \<and> stock_w w' = give_back s q (stock_w w) \<and> stock_w w s \<noteq> None)) w"
  unfolding inventory_release_def stock_w_def
  by (rule wp_sqlM) (auto dest!: release_stmt_Inr)

interpretation pg: stock_port pg_inventory_repo "pg_lock_manager sha" for sha
proof
  show "upholds (same stock_w) (iv_findBySku pg_inventory_repo s)" for s
    unfolding pg_repo_sel inventory_findBySku_def
    by (intro stock_same_on_db upholds_intros upholds_sqlM_Pool select_inventory_idle preord_on_db preord_eq)
  show "upholds (same stock_w) (lm_acquire (pg_lock_manager sha) r ttl)" for r ttl
    unfolding pg_repo_sel by (intro stock_same_on_db upholds_advisory_acquire preord_eq)
  show "wp (lm_acquire (pg_lock_manager sha) r ttl)
      (\<lambda>res w'. \<forall>rel. res = Ok (Some rel) \<longrightarrow> upholds (same stock_w) rel) w" for r ttl w
    unfolding pg_repo_sel
    by (rule wp_mono [OF advisory_acquire_closure])
      (auto intro!: stock_same_on_db upholds_release_handle)
qed (simp_all only: pg_repo_sel inventory_reserve_wp inventory_release_wp)


section \<open>The properties\<close>

text \<open>
  C11. Reservation does not oversell: whatever fails and wherever the process dies, the stock after it
  is the stock before it with the items of a prefix of the sorted list moved from available to
  reserved; every unit moved was available; and when the result is \<open>true\<close> all the items are moved.
\<close>

theorem reserve_no_oversell:
  "wp (reserveInventory le pg_inventory_repo (pg_lock_manager sha) oid items) (\<lambda>res w'.
     \<exists>ps rest. sort_by (\<lambda>a b. le (rv_sku a) (rv_sku b)) items = ps @ rest
       \<and> stock_w w' = move (demand ps) (stock_w w)
       \<and> (\<forall>s a v. stock_w w s = Some (a, v) \<longrightarrow> 0 \<le> a \<longrightarrow> demand ps s \<le> a)
       \<and> (res = Ok True \<longrightarrow> rest = [])) w"
  by (rule wp_mono [OF pg.reserveInventory_wp]) (auto simp: took_def)

theorem reserve_no_oversell_witness:
  "wp (reserveInventory (\<le>) pg_inventory_repo (pg_lock_manager (\<lambda>_. replicate 8 0)) ''o1''
         [\<lparr>rv_sku = ''A'', rv_quantity = 3\<rparr>])
     (\<lambda>res w'. res = Ok True \<longrightarrow> stock_w w' ''A'' = Some (2, 3)) (world_of quiet_env (stocked ''A'' 5 empty_db))"
  by (rule wp_mono [OF reserve_no_oversell])
    (auto simp: move_def stock_w_def stock_of_def world_of_def stocked_def dest!: fun_cong [where x = "''A''"])

text \<open>
  C24. Release is the inverse of reservation: when both fulfil with \<open>true\<close> on the same items, of
  quantities that are not negative, the stock is what it was, for every schedule of failures.
\<close>

theorem reserve_release_restores:
  assumes "\<forall>i \<in> set items. 0 \<le> rv_quantity i" and "\<forall>s a v. stock_w w s = Some (a, v) \<longrightarrow> 0 \<le> v"
  shows "wp (bindM (reserveInventory le pg_inventory_repo (pg_lock_manager sha) oid items) (\<lambda>a.
             bindM (releaseInventory le pg_inventory_repo (pg_lock_manager sha) oid items) (\<lambda>b. ret (a, b))))
     (\<lambda>res w'. res = Ok (True, True) \<longrightarrow> stock_w w' = stock_w w) w"
  unfolding wp_bindM
proof (rule wp_mono [OF pg.reserveInventory_wp], goal_cases)
  case (1 r w1)
  show ?case
  proof (cases "r = Ok True")
    case True
    let ?s = "sort_by (\<lambda>a b. le (rv_sku a) (rv_sku b)) items"
    have t: "took ?s (stock_w w) (stock_w w1)" using 1 True by auto
    have q: "\<forall>i \<in> set ?s. 0 \<le> rv_quantity i" using assms(1) by simp
    have same: "stock_w w2 = stock_w w" if "gave ?s (stock_w w1) (stock_w w2)" for w2
      by (rule pg.took_then_gave [OF t that]) (use q assms(2) in auto)
    show ?thesis
      unfolding True res.case wp_bindM
    proof (rule wp_mono [OF pg.releaseInventory_wp], goal_cases)
      case (1 r2 w2)
      have "stock_w w2 = stock_w w" if "r2 = Ok True"
        using 1 that by (metis append_Nil2 same)
      then show ?case by (cases r2) (simp_all add: wp_ret)
    qed
  next
    case False
    then show ?thesis
      by (cases r) (auto simp: wp_ret intro!: wp_always split: res.split)
  qed
qed

theorem reserve_release_restores_witness:
  "wp (bindM (reserveInventory (\<le>) pg_inventory_repo (pg_lock_manager (\<lambda>_. replicate 8 0)) ''o1'' [\<lparr>rv_sku = ''A'', rv_quantity = 3\<rparr>]) (\<lambda>a.
       bindM (releaseInventory (\<le>) pg_inventory_repo (pg_lock_manager (\<lambda>_. replicate 8 0)) ''o1'' [\<lparr>rv_sku = ''A'', rv_quantity = 3\<rparr>]) (\<lambda>b. ret (a, b))))
     (\<lambda>res w'. res = Ok (True, True) \<longrightarrow> stock_w w' ''A'' = Some (5, 0)) (world_of quiet_env (stocked ''A'' 5 empty_db))"
  by (rule wp_mono [OF reserve_release_restores])
    (auto simp: stock_w_def stock_of_def world_of_def stocked_def empty_db_def split: if_splits)

text \<open>
  Releasing what was never reserved: after a reservation of ten units that the stock of five refuses, the
  release of the same items, as the compensation of the saga does it, leaves fifteen units.
\<close>

theorem release_after_refusal_inflates:
  "stock_w (snd (bindM (reserveInventory (\<le>) pg_inventory_repo (pg_lock_manager (\<lambda>_. replicate 8 0)) ''o1'' [\<lparr>rv_sku = ''A'', rv_quantity = 10\<rparr>])
        (\<lambda>a. bindM (releaseInventory (\<le>) pg_inventory_repo (pg_lock_manager (\<lambda>_. replicate 8 0)) ''o1'' [\<lparr>rv_sku = ''A'', rv_quantity = 10\<rparr>])
        (\<lambda>b. ret (a, b))) (world_of quiet_env (stocked ''A'' 5 empty_db)))) ''A'' = Some (15, 0)"
  by code_simp

text \<open>
  C25. The order of the items in the request does not matter: with different SKUs and a comparison that tells
  them apart, a reservation and a release are the same program for the items in any order, so that two
  orders take the locks they share in the same order.
\<close>

theorem item_order_irrelevant:
  assumes total: "\<And>a b. le a b \<or> le b a" and trans: "\<And>a b c. le a b \<Longrightarrow> le b c \<Longrightarrow> le a c"
    and apart: "\<And>a b. a \<in> rv_sku ` set items \<Longrightarrow> b \<in> rv_sku ` set items \<Longrightarrow> le a b \<Longrightarrow> le b a \<Longrightarrow> a = b"
    and "distinct (map rv_sku items)" and perm: "mset items' = mset items"
  shows "reserveInventory le repo lm oid items' = reserveInventory le repo lm oid items
    \<and> releaseInventory le repo lm oid items' = releaseInventory le repo lm oid items"
proof -
  let ?le = "\<lambda>a b. le (rv_sku a) (rv_sku b)"
  have sorted: "sorted_wrt ?le (sort_by ?le xs)" for xs
    using total trans by (intro sorted_sort_by) blast+
  have "a = b" if "a \<in> set items" "b \<in> set items" "?le a b" "?le b a" for a b
    using apart [of "rv_sku a" "rv_sku b"] that assms(4) by (auto simp: distinct_map dest: inj_onD)
  then have "sort_by ?le items' = sort_by ?le items"
    by (intro sorted_wrt_unique [OF sorted sorted]) (simp_all add: perm mset_eq_setD [OF perm])
  then show ?thesis
    unfolding reserveInventory_def releaseInventory_def by simp
qed

theorem item_order_irrelevant_witness:
  "reserveInventory (\<lambda>a b. length a \<le> length b) pg_inventory_repo (pg_lock_manager (\<lambda>_. replicate 8 0)) ''o1''
     [\<lparr>rv_sku = ''WIDGET'', rv_quantity = 1\<rparr>, \<lparr>rv_sku = ''A'', rv_quantity = 2\<rparr>]
   = reserveInventory (\<lambda>a b. length a \<le> length b) pg_inventory_repo (pg_lock_manager (\<lambda>_. replicate 8 0)) ''o1''
     [\<lparr>rv_sku = ''A'', rv_quantity = 2\<rparr>, \<lparr>rv_sku = ''WIDGET'', rv_quantity = 1\<rparr>]"
  by (rule item_order_irrelevant [THEN conjunct1]) auto

text \<open>
  An order with the same SKU twice: where the second lock is asked for through another session, the
  reservation is refused though the stock suffices, and the units of the first item stay reserved.
\<close>

theorem repeated_sku_refused:
  "(case reserveInventory (\<le>) pg_inventory_repo (pg_lock_manager (\<lambda>_. replicate 8 0)) ''o1''
      [\<lparr>rv_sku = ''A'', rv_quantity = 1\<rparr>, \<lparr>rv_sku = ''A'', rv_quantity = 1\<rparr>]
      (world_of (quiet_env\<lparr>e_session := (\<lambda>n. n)\<rparr>) (stocked ''A'' 5 empty_db)) of
      (res, w) \<Rightarrow> res = Ok False \<and> stock_w w ''A'' = Some (4, 1))"
  by code_simp
end
