(* ===== verification/Payment.thy ===== *)
theory Payment
  imports World Config
begin

text \<open>
  The payment port (\<open>src/src/domain/ports/payment-gateway.ts\<close>), the Stripe adapter
  (\<open>src/src/infrastructure/payment/stripe-adapter.ts\<close>) and the payment service
  (\<open>src/src/domain/services/payment-service.ts\<close>).  The resilience policy is built with the cockatiel
  library, which is not part of the repository: it is a parameter, a transformer of computations, and
  \<open>resilience_laws\<close> says that it acts on the world only through the function it is given.
\<close>

record payment_result =
  pr_success :: bool
  pr_transactionId :: "string option"
  pr_errorCode :: "string option"
  pr_errorMessage :: "string option"

record payment_gateway =
  gw_charge :: "string \<Rightarrow> money \<Rightarrow> string \<Rightarrow> payment_result io"
  gw_refund :: "string \<Rightarrow> money \<Rightarrow> payment_result io"

type_synonym resilience = "payment_result io \<Rightarrow> payment_result io"

definition resilience_laws :: "resilience \<Rightarrow> bool" where
  "resilience_laws execute \<longleftrightarrow>
     (\<forall>R m. preord R \<longrightarrow> ticks R \<longrightarrow> upholds R m \<longrightarrow> upholds R (execute m))"


section \<open>The Stripe adapter\<close>

text \<open>\<open>new Decimal(amount.amount).times(100).toFixed(0)\<close>\<close>

definition minor_units :: "'d decimal_lib \<Rightarrow> money \<Rightarrow> error + string" where
  "minor_units L m =
     bindE (decimal_of L (amount m)) (\<lambda>d.
     Inr (dec_toFixed L (dec_times L d (dec_of_num L (Whole 100))) 0))"

text \<open>
  A member of a JSON value; reading a member of \<open>null\<close> throws.  The members the adapter reads are
  strings where Stripe sends them.
\<close>

definition member :: "json \<Rightarrow> string \<Rightarrow> error + json option" where
  "member j k = (case j of JNull \<Rightarrow> Inl (JsError ''Cannot read properties of null'') | _ \<Rightarrow> Inr (json_get j k))"

definition json_string :: "json option \<Rightarrow> string option" where
  "json_string j = (case j of Some (JStr s) \<Rightarrow> Some s | _ \<Rightarrow> None)"

definition opt_member :: "json option \<Rightarrow> string \<Rightarrow> json option" where
  "opt_member j k = (case j of None \<Rightarrow> None | Some v \<Rightarrow> json_get v k)"

definition or_else :: "'a option \<Rightarrow> 'a \<Rightarrow> 'a" where
  "or_else x d = (case x of Some v \<Rightarrow> v | None \<Rightarrow> d)"

definition succeeded :: "string option \<Rightarrow> payment_result" where
  "succeeded t = \<lparr>pr_success = True, pr_transactionId = t, pr_errorCode = None, pr_errorMessage = None\<rparr>"

definition refused :: "string \<Rightarrow> string \<Rightarrow> payment_result" where
  "refused code msg =
     \<lparr>pr_success = False, pr_transactionId = None, pr_errorCode = Some code, pr_errorMessage = Some msg\<rparr>"

text \<open>What both requests do with the outcome of \<open>fetch\<close>.\<close>

definition stripe_result :: "string \<Rightarrow> string \<Rightarrow> http_result \<Rightarrow> payment_result io" where
  "stripe_result code msg r =
     (case r of
        NetworkError m \<Rightarrow> throw (IoError m)
      | Response resp \<Rightarrow>
          if \<not> http_ok resp
          then bindM (liftR (member (or_else (http_json resp) (JObj [])) ''error'')) (\<lambda>err.
               ret (refused (or_else (json_string (opt_member err ''code'')) code)
                            (or_else (json_string (opt_member err ''message'')) msg)))
          else (case http_json resp of
                  None \<Rightarrow> throw (JsError ''Unexpected end of JSON input'')
                | Some data \<Rightarrow> bindM (liftR (member data ''id'')) (\<lambda>i. ret (succeeded (json_string i)))))"

definition charge_request :: "app_config \<Rightarrow> string \<Rightarrow> string \<Rightarrow> money \<Rightarrow> string \<Rightarrow> http_request" where
  "charge_request cfg units orderId amt token =
     \<lparr>rq_url = paymentGatewayBaseUrl cfg @ ''/v1/charges'',
      rq_headers = [(''Authorization'', ''Bearer '' @ paymentGatewayApiKey cfg),
                    (''Content-Type'', ''application/x-www-form-urlencoded'')],
      rq_body = Form [(''amount'', units), (''currency'', toLowerCase (currency amt)),
                 (''source'', token), (''metadata[orderId]'', orderId)]\<rparr>"

definition stripe_charge ::
    "'d decimal_lib \<Rightarrow> app_config \<Rightarrow> string \<Rightarrow> money \<Rightarrow> string \<Rightarrow> payment_result io" where
  "stripe_charge L cfg orderId amt token =
     (if paymentGatewayApiKey cfg = []
      then bindM uuidM (\<lambda>u. ret (succeeded (Some (''sim_'' @ u))))
      else bindM (liftR (minor_units L amt)) (\<lambda>units.
           bindM (fetchM (charge_request cfg units orderId amt token))
             (stripe_result ''payment_failed'' ''Payment processing failed'')))"

definition refund_request :: "app_config \<Rightarrow> string \<Rightarrow> string \<Rightarrow> http_request" where
  "refund_request cfg units transactionId =
     \<lparr>rq_url = paymentGatewayBaseUrl cfg @ ''/v1/refunds'',
      rq_headers = [(''Authorization'', ''Bearer '' @ paymentGatewayApiKey cfg),
                    (''Content-Type'', ''application/x-www-form-urlencoded'')],
      rq_body = Form [(''charge'', transactionId), (''amount'', units)]\<rparr>"

definition stripe_refund ::
    "'d decimal_lib \<Rightarrow> app_config \<Rightarrow> string \<Rightarrow> money \<Rightarrow> payment_result io" where
  "stripe_refund L cfg transactionId amt =
     (if paymentGatewayApiKey cfg = []
      then bindM uuidM (\<lambda>u. ret (succeeded (Some (''ref_'' @ u))))
      else bindM (liftR (minor_units L amt)) (\<lambda>units.
           bindM (fetchM (refund_request cfg units transactionId))
             (stripe_result ''refund_failed'' ''Refund failed'')))"

definition stripe_gateway :: "'d decimal_lib \<Rightarrow> app_config \<Rightarrow> payment_gateway" where
  "stripe_gateway L cfg = \<lparr>gw_charge = stripe_charge L cfg, gw_refund = stripe_refund L cfg\<rparr>"


section \<open>The payment service\<close>

text \<open>
  \<open>err.message\<close> of the errors a gateway throws; the last line is for errors of other components.
\<close>

fun error_message :: "error \<Rightarrow> string" where
  "error_message (JsError m) = m"
| "error_message (IoError m) = m"
| "error_message (HttpError _ m) = m"
| "error_message (DecimalError s) = ''[DecimalError] Invalid argument: '' @ s"
| "error_message _ = []"

definition service_charge ::
    "resilience \<Rightarrow> payment_gateway \<Rightarrow> string \<Rightarrow> money \<Rightarrow> string \<Rightarrow> payment_result io" where
  "service_charge execute gw orderId amt token =
     bindM nowM (\<lambda>startTime.
     catchM
       (bindM (execute (gw_charge gw orderId amt token)) (\<lambda>result.
        thenM (increment ''payment.charged''
                 [(''status'', if pr_success result then ''success'' else ''failed'')])
          (bindM nowM (\<lambda>t.
           thenM (recordHistogram ''payment.charge.duration'' (t - startTime) [])
             (ret result)))))
       (\<lambda>err.
        thenM (increment ''payment.charged'' [(''status'', ''circuit_open'')])
          (ret (refused ''circuit_open'' (error_message err)))))"

definition service_refund :: "payment_gateway \<Rightarrow> string \<Rightarrow> money \<Rightarrow> payment_result io" where
  "service_refund gw transactionId amt =
     catchM
       (bindM (gw_refund gw transactionId amt) (\<lambda>result.
        thenM (increment ''payment.refunded''
                 [(''status'', if pr_success result then ''success'' else ''failed'')])
          (ret result)))
       (\<lambda>err. ret (refused ''refund_error'' (error_message err)))"


section \<open>Facts\<close>

lemma wp_increment [wp_rules]: "wp (increment n l) P w \<longleftrightarrow>
    P (Ok ()) (w\<lparr>w_counters := bump (labeledKey n l) (w_counters w)\<rparr>)"
  by (simp add: increment_def wp_modifyM)

lemma wp_recordHistogram [wp_rules]: "wp (recordHistogram n v l) P w \<longleftrightarrow>
    P (Ok ()) (w\<lparr>w_histograms := push_value (labeledKey n l) v (w_histograms w)\<rparr>)"
  by (simp add: recordHistogram_def wp_modifyM)

text \<open>The service never throws: whatever the gateway and the policy do, the caller gets a result.\<close>

lemma service_charge_no_throw: "wp (service_charge ex gw oid amt tok) (\<lambda>r _. \<forall>e. r \<noteq> Throw e) w"
  unfolding service_charge_def
  by (simp add: wp_rules) (rule wp_always, auto simp: wp_rules split: res.split)

lemma service_refund_no_throw: "wp (service_refund gw t amt) (\<lambda>r _. \<forall>e. r \<noteq> Throw e) w"
  unfolding service_refund_def
  by (simp add: wp_rules) (rule wp_always, auto simp: wp_rules split: res.split)

text \<open>Payments leave the database alone.\<close>

lemma upholds_stripe_result [upholds_intros]: "preord R \<Longrightarrow> upholds R (stripe_result c m r)"
  unfolding stripe_result_def
  by (auto intro!: upholds_intros split: http_result.split option.split)

lemma upholds_stripe_charge [upholds_intros]:
  "preord R \<Longrightarrow> upholds (on_db R) (stripe_charge L cfg oid amt tok)"
  unfolding stripe_charge_def by (intro upholds_intros preord_on_db ticks_on_db)

lemma upholds_stripe_refund [upholds_intros]:
  "preord R \<Longrightarrow> upholds (on_db R) (stripe_refund L cfg t amt)"
  unfolding stripe_refund_def by (intro upholds_intros preord_on_db ticks_on_db)

lemma upholds_service_charge:
  assumes "resilience_laws ex" and "preord R" and "upholds (on_db R) (gw_charge gw oid amt tok)"
  shows "upholds (on_db R) (service_charge ex gw oid amt tok)"
proof -
  have "upholds (on_db R) (ex (gw_charge gw oid amt tok))"
    using assms unfolding resilience_laws_def by (meson preord_on_db ticks_on_db)
  with assms(2) show ?thesis
    unfolding service_charge_def by (intro upholds_intros preord_on_db ticks_on_db)
qed

lemma upholds_service_refund:
  assumes "preord R" and "upholds (on_db R) (gw_refund gw t amt)"
  shows "upholds (on_db R) (service_refund gw t amt)"
  using assms unfolding service_refund_def by (intro upholds_intros preord_on_db ticks_on_db)

lemma minor_units_cents:
  assumes L: "decimal_laws L rep" and bound: "n * 100 < 10 ^ 28"
  shows "minor_units L (cents n c) = Inr (digits_of n)"
proof -
  obtain d where d: "decimal_of L (cents_string n) = Inr d" "rep d n"
    using decimal_of_cents [OF L] .
  have "rep (dec_times L d (dec_of_num L (Whole (int 100)))) (n * 100)"
    by (rule decimal_lawsD(4) [OF L d(2) bound])
  then have "dec_toFixed L (dec_times L d (dec_of_num L (Whole (int 100)))) 0 = digits_of n"
    by (intro decimal_lawsD(6) [OF L]) (simp add: mult.commute)
  then show ?thesis
    using d(1) by (simp add: minor_units_def)
qed


section \<open>The properties\<close>

text \<open>
  The payment service turns every outcome of the gateway into a result: it fulfils with what the
  policy fulfils with, an error becomes a refusal with the code \<open>circuit_open\<close> (or \<open>refund_error\<close>) and
  the message of the error, and nothing is thrown to the caller.
\<close>

theorem payment_outcomes:
  "fst (service_charge ex gw oid amt tok w) = (case fst (ex (gw_charge gw oid amt tok) (tick w)) of
      Ok a \<Rightarrow> Ok a | Throw e \<Rightarrow> Ok (refused ''circuit_open'' (error_message e)) | Crashed \<Rightarrow> Crashed)
   \<and> fst (service_refund gw t amt w) = (case fst (gw_refund gw t amt w) of
      Ok a \<Rightarrow> Ok a | Throw e \<Rightarrow> Ok (refused ''refund_error'' (error_message e)) | Crashed \<Rightarrow> Crashed)"
proof
  have "wp (service_charge ex gw oid amt tok) (\<lambda>r _. r = (case fst (ex (gw_charge gw oid amt tok) (tick w)) of
      Ok a \<Rightarrow> Ok a | Throw e \<Rightarrow> Ok (refused ''circuit_open'' (error_message e)) | Crashed \<Rightarrow> Crashed)) w"
    unfolding service_charge_def wp_bindM [of nowM] wp_nowM res.case wp_catchM wp_bindM [of "ex _"]
    by (subst wp_def) (auto simp: wp_rules split: res.split)
  then show "fst (service_charge ex gw oid amt tok w) = (case fst (ex (gw_charge gw oid amt tok) (tick w)) of
      Ok a \<Rightarrow> Ok a | Throw e \<Rightarrow> Ok (refused ''circuit_open'' (error_message e)) | Crashed \<Rightarrow> Crashed)"
    by (simp add: wp_def)
  have "wp (service_refund gw t amt) (\<lambda>r _. r = (case fst (gw_refund gw t amt w) of
      Ok a \<Rightarrow> Ok a | Throw e \<Rightarrow> Ok (refused ''refund_error'' (error_message e)) | Crashed \<Rightarrow> Crashed)) w"
    unfolding service_refund_def wp_catchM wp_bindM [of "gw_refund _ _ _"]
    by (subst wp_def) (auto simp: wp_rules split: res.split)
  then show "fst (service_refund gw t amt w) = (case fst (gw_refund gw t amt w) of
      Ok a \<Rightarrow> Ok a | Throw e \<Rightarrow> Ok (refused ''refund_error'' (error_message e)) | Crashed \<Rightarrow> Crashed)"
    by (simp add: wp_def)
qed




end
