(* ===== verification/Saga_Orchestrator.thy ===== *)
theory Saga_Orchestrator
  imports Order_Service Inventory_Service Payment
begin

text \<open>
  \<open>src/src/domain/services/saga-orchestrator.ts\<close>: the ORDER_FULFILLMENT saga, its forward steps and
  its compensation, over the injected repositories, services and transaction manager.
\<close>

record inventory_service =
  is_reserve :: "string \<Rightarrow> reservation list \<Rightarrow> bool io"
  is_release :: "string \<Rightarrow> reservation list \<Rightarrow> bool io"

record payment_service =
  ps_charge :: "string \<Rightarrow> money \<Rightarrow> string \<Rightarrow> payment_result io"
  ps_refund :: "string \<Rightarrow> money \<Rightarrow> payment_result io"

text \<open>The dependencies of the constructor.\<close>

record orchestrator =
  oc_orders :: order_repo
  oc_sagas :: saga_repo
  oc_outbox :: outbox_repo
  oc_inventory :: inventory_service
  oc_payment :: payment_service
  oc_tx :: tx_manager


section \<open>The orchestrator\<close>

definition beginStep :: "saga_repo \<Rightarrow> string \<Rightarrow> string \<Rightarrow> int \<Rightarrow> json \<Rightarrow> saga_step_rec io" where
  "beginStep sagas sagaId stepName stepOrder input =
     bindM uuidM (\<lambda>stid. bindM nowM (\<lambda>t.
     let step = createStep stid sagaId stepName stepOrder input t in
     thenM (sg_createStep sagas step) (ret step)))"

definition endStep :: "saga_repo \<Rightarrow> saga_step_rec \<Rightarrow> saga_step_rec io" where
  "endStep sagas step = thenM (sg_updateStep sagas step) (ret step)"

definition status_event :: "string \<Rightarrow> string \<Rightarrow> (string \<times> json) list \<Rightarrow> new_event" where
  "status_event orderId eventType payload =
     \<lparr>ne_aggregateType = ''order'', ne_aggregateId = orderId, ne_eventType = eventType,
      ne_payload = payload, ne_headers = [], ne_status = OUTBOX_PENDING, ne_retryCount = 0\<rparr>"

definition paid_event :: "saga_context \<Rightarrow> string option \<Rightarrow> new_event" where
  "paid_event context transactionId =
     status_event (cx_orderId context) ''order.paid''
       [(''orderId'', JStr (cx_orderId context)),
        (''transactionId'', (case transactionId of Some t \<Rightarrow> JStr t | None \<Rightarrow> JNull)),
        (''amount'', money_json (cx_totalAmount context)),
        (''queue'', JStr ''webhook-delivery'')]"

definition failed_event :: "saga_context \<Rightarrow> new_event" where
  "failed_event context =
     status_event (cx_orderId context) ''order.failed''
       [(''orderId'', JStr (cx_orderId context)),
        (''reason'', JStr ''Saga compensation executed''),
        (''queue'', JStr ''webhook-delivery'')]"

text \<open>The function both transactions of the orchestrator run.\<close>

definition status_tx :: "orchestrator \<Rightarrow> string \<Rightarrow> order_status \<Rightarrow> new_event \<Rightarrow> conn \<Rightarrow> unit io" where
  "status_tx oc orderId st ev tx =
     thenM (or_updateStatus (oc_orders oc) orderId st tx)
       (bindM (ob_createWithSql (oc_outbox oc) ev tx) (\<lambda>_. ret ()))"

definition is_step :: "string \<Rightarrow> saga_step_rec \<Rightarrow> bool" where
  "is_step name s \<longleftrightarrow> step_name s = name"

text \<open>
  The identifier of the charge in the output of the completed payment step; the empty string and
  \<open>null\<close> are falsy.
\<close>

definition charged_transaction :: "saga_step_rec list \<Rightarrow> string option" where
  "charged_transaction steps =
     (case find (\<lambda>s. is_step ''PROCESS_PAYMENT'' s \<and> step_status s = STEP_COMPLETED) steps of
        None \<Rightarrow> None
      | Some s \<Rightarrow> (case json_get (step_output s) ''transactionId'' of
                    Some (JStr t) \<Rightarrow> if t = [] then None else Some t
                  | _ \<Rightarrow> None))"

definition compensate_payment ::
    "'d decimal_lib \<Rightarrow> orchestrator \<Rightarrow> saga_context \<Rightarrow> saga_step_rec list \<Rightarrow> unit io" where
  "compensate_payment L oc context steps =
     (case charged_transaction steps of
        None \<Rightarrow> ret ()
      | Some transactionId \<Rightarrow>
          bindM (liftR (new_money L (aj_amount (cx_totalAmount context))
                                    (aj_currency (cx_totalAmount context)))) (\<lambda>amt.
          bindM (ps_refund (oc_payment oc) transactionId amt) (\<lambda>refundResult.
          case find (is_step ''PROCESS_PAYMENT'') steps of
            None \<Rightarrow> ret ()
          | Some refundStep \<Rightarrow>
              sg_updateStep (oc_sagas oc)
                (if pr_success refundResult then markStepCompensated refundStep
                 else markStepCompensationFailed refundStep
                        (or_else (pr_errorMessage refundResult) ''Refund failed'')))))"

definition compensate_inventory ::
    "orchestrator \<Rightarrow> saga_context \<Rightarrow> saga_step_rec list \<Rightarrow> unit io" where
  "compensate_inventory oc context steps =
     bindM (is_release (oc_inventory oc) (cx_orderId context) (cx_items context)) (\<lambda>inventoryReleased.
     case find (is_step ''RESERVE_INVENTORY'') steps of
       None \<Rightarrow> ret ()
     | Some inventoryStep \<Rightarrow>
         sg_updateStep (oc_sagas oc)
           (if inventoryReleased then markStepCompensated inventoryStep
            else markStepCompensationFailed inventoryStep ''Release failed''))"

definition compensate ::
    "'d decimal_lib \<Rightarrow> orchestrator \<Rightarrow> string \<Rightarrow> saga_context \<Rightarrow> saga_instance \<Rightarrow> saga_instance io" where
  "compensate L oc sagaId context currentSaga =
     bindM (liftR (startCompensation currentSaga)) (\<lambda>compensating.
     thenM (sg_update (oc_sagas oc) compensating)
     (bindM (sg_getSteps (oc_sagas oc) sagaId) (\<lambda>steps.
     thenM (compensate_payment L oc context steps)
     (thenM (compensate_inventory oc context steps)
     (thenM (catchM (tm_begin (oc_tx oc)
               (status_tx oc (cx_orderId context) CANCELLED (failed_event context))) (\<lambda>_. ret ()))
     (bindM nowM (\<lambda>t.
     bindM (liftR (completeCompensation compensating t)) (\<lambda>failed.
     thenM (sg_update (oc_sagas oc) failed)
     (thenM (increment ''saga.compensated'' []) (ret failed))))))))))"

definition items_json :: "saga_context \<Rightarrow> json" where
  "items_json context = JObj [(''items'', JArr (map item_json (cx_items context)))]"

definition order_json :: "saga_context \<Rightarrow> json" where
  "order_json context = JObj [(''orderId'', JStr (cx_orderId context))]"

text \<open>Steps 2 and 3 and the end of the saga, once the payment has been taken.\<close>

definition confirm_order ::
    "orchestrator \<Rightarrow> saga_context \<Rightarrow> saga_instance \<Rightarrow> payment_result \<Rightarrow> saga_instance io" where
  "confirm_order oc context running paymentResult =
     bindM (beginStep (oc_sagas oc) (saga_id running) ''CONFIRM_ORDER'' 2 (order_json context)) (\<lambda>step2.
     bindM (beginStep (oc_sagas oc) (saga_id running) ''EMIT_EVENTS'' 3 (order_json context)) (\<lambda>step3.
     thenM (tm_begin (oc_tx oc) (status_tx oc (cx_orderId context) PAID
                                   (paid_event context (pr_transactionId paymentResult))))
     (bindM nowM (\<lambda>t2.
     bindM (endStep (oc_sagas oc) (completeStep step2 (JObj [(''status'', JStr ''PAID'')]) t2)) (\<lambda>_.
     bindM nowM (\<lambda>t3.
     bindM (endStep (oc_sagas oc) (completeStep step3 (JObj [(''outboxEventWritten'', JBool True)]) t3)) (\<lambda>_.
     bindM nowM (\<lambda>t.
     bindM (liftR (completeSaga running t)) (\<lambda>completed.
     thenM (sg_update (oc_sagas oc) completed)
     (thenM (increment ''saga.completed'' []) (ret completed)))))))))))"

definition process_payment ::
    "'d decimal_lib \<Rightarrow> orchestrator \<Rightarrow> saga_context \<Rightarrow> saga_instance \<Rightarrow> saga_instance io" where
  "process_payment L oc context running =
     bindM (beginStep (oc_sagas oc) (saga_id running) ''PROCESS_PAYMENT'' 1 (order_json context)) (\<lambda>step1.
     bindM (liftR (new_money L (aj_amount (cx_totalAmount context))
                               (aj_currency (cx_totalAmount context)))) (\<lambda>amt.
     bindM (ps_charge (oc_payment oc) (cx_orderId context) amt (cx_paymentToken context)) (\<lambda>paymentResult.
     if \<not> pr_success paymentResult
     then bindM nowM (\<lambda>t.
          bindM (endStep (oc_sagas oc)
                   (failStep step1 (or_else (pr_errorMessage paymentResult) ''Payment declined'') t)) (\<lambda>_.
          compensate L oc (saga_id running) context running))
     else bindM nowM (\<lambda>t.
          bindM (endStep (oc_sagas oc)
                   (completeStep step1
                      (JObj [(''transactionId'', (case pr_transactionId paymentResult of
                                 Some tid \<Rightarrow> JStr tid | None \<Rightarrow> JNull))]) t)) (\<lambda>_.
          confirm_order oc context running paymentResult)))))"

definition run_saga :: "'d decimal_lib \<Rightarrow> orchestrator \<Rightarrow> saga_context \<Rightarrow> saga_instance io" where
  "run_saga L oc context =
     bindM uuidM (\<lambda>sid. bindM nowM (\<lambda>t.
     let saga = createSagaInstance sid (cx_orderId context) t in
     thenM (sg_create (oc_sagas oc) saga)
     (bindM (liftR (startSaga saga)) (\<lambda>running.
     thenM (sg_update (oc_sagas oc) running)
     (bindM (beginStep (oc_sagas oc) (saga_id running) ''RESERVE_INVENTORY'' 0 (items_json context)) (\<lambda>step0.
     bindM (is_reserve (oc_inventory oc) (cx_orderId context) (cx_items context)) (\<lambda>reserved.
     if \<not> reserved
     then bindM nowM (\<lambda>t.
          bindM (endStep (oc_sagas oc) (failStep step0 ''Insufficient inventory or lock contention'' t)) (\<lambda>_.
          compensate L oc (saga_id running) context running))
     else bindM nowM (\<lambda>t.
          bindM (endStep (oc_sagas oc) (completeStep step0 (JObj [(''reserved'', JBool True)]) t)) (\<lambda>_.
          process_payment L oc context running)))))))))"

text \<open>The objects \<open>src/src/index.ts\<close> wires together.\<close>

definition pg_inventory_service ::
    "(string \<Rightarrow> string \<Rightarrow> bool) \<Rightarrow> (string \<Rightarrow> 8 word list) \<Rightarrow> inventory_service" where
  "pg_inventory_service le sha =
     \<lparr>is_reserve = reserveInventory le pg_inventory_repo (pg_lock_manager sha),
      is_release = releaseInventory le pg_inventory_repo (pg_lock_manager sha)\<rparr>"

definition gateway_payment_service :: "resilience \<Rightarrow> payment_gateway \<Rightarrow> payment_service" where
  "gateway_payment_service execute gw =
     \<lparr>ps_charge = service_charge execute gw, ps_refund = service_refund gw\<rparr>"

definition pg_orchestrator ::
    "'d decimal_lib \<Rightarrow> (string \<Rightarrow> string \<Rightarrow> bool) \<Rightarrow> (string \<Rightarrow> 8 word list) \<Rightarrow> payment_service
       \<Rightarrow> orchestrator" where
  "pg_orchestrator L le sha ps =
     \<lparr>oc_orders = pg_order_repo L, oc_sagas = pg_saga_repo, oc_outbox = pg_outbox_repo,
      oc_inventory = pg_inventory_service le sha, oc_payment = ps, oc_tx = pg_tx_manager\<rparr>"

end
