(* ===== verification/Triples.thy ===== *)
theory Triples
  imports World
begin

text \<open>
  A small program logic over the interactions of \<open>World\<close>: triples of partial correctness, for what a
  program leaves behind when it fulfils whatever fails on the way, and triples of total correctness, for
  what it achieves where nothing fails; one rule per construct of the programs.
\<close>


section \<open>Triples\<close>

text \<open>From a world of \<open>I\<close>, the program, when it fulfils, ends in \<open>Q\<close> with its value.\<close>

definition triple :: "(world \<Rightarrow> bool) \<Rightarrow> 'a io \<Rightarrow> ('a \<Rightarrow> world \<Rightarrow> bool) \<Rightarrow> bool" where
  "triple I m Q \<longleftrightarrow> (\<forall>w. I w \<longrightarrow> wp m (\<lambda>r w'. \<forall>a. r = Ok a \<longrightarrow> Q a w') w)"

lemma tripleD: "triple I m Q \<Longrightarrow> I w \<Longrightarrow> wp m (\<lambda>r w'. \<forall>a. r = Ok a \<longrightarrow> Q a w') w"
  by (simp add: triple_def)

lemma triple_weaken: "triple I m Q \<Longrightarrow> (\<And>w. J w \<Longrightarrow> I w) \<Longrightarrow> (\<And>a w. Q a w \<Longrightarrow> R a w) \<Longrightarrow> triple J m R"
  unfolding triple_def by (fastforce intro: wp_mono)

lemma triple_ret: "(\<And>w. I w \<Longrightarrow> Q a w) \<Longrightarrow> triple I (ret a) Q"
  by (simp add: triple_def wp_ret)

lemma triple_liftR: "(\<And>a w. x = Inr a \<Longrightarrow> I w \<Longrightarrow> Q a w) \<Longrightarrow> triple I (liftR x) Q"
  by (cases x) (simp_all add: triple_def wp_liftR)

lemma triple_bindM:
  assumes "triple I m J" and "\<And>a. triple (J a) (f a) Q"
  shows "triple I (bindM m f) Q"
  unfolding triple_def wp_bindM
proof (intro allI impI)
  fix w assume "I w"
  show "wp m (\<lambda>r w'. case r of Ok a \<Rightarrow> wp (f a) (\<lambda>r w'. \<forall>a. r = Ok a \<longrightarrow> Q a w') w'
      | Throw e \<Rightarrow> \<forall>a. Throw e = Ok a \<longrightarrow> Q a w' | Crashed \<Rightarrow> \<forall>a. Crashed = Ok a \<longrightarrow> Q a w') w"
    by (rule wp_mono [OF tripleD [OF assms(1) \<open>I w\<close>]])
      (use tripleD [OF assms(2)] in \<open>auto split: res.split\<close>)
qed

lemma triple_bindR:
  assumes "\<And>a. x = Inr a \<Longrightarrow> triple I (f a) Q"
  shows "triple I (bindM (liftR x) f) Q"
  using assms by (cases x) (simp_all add: triple_def wp_bindM wp_liftR)

lemma triple_thenM: "triple I m (\<lambda>_. J) \<Longrightarrow> triple J n Q \<Longrightarrow> triple I (thenM m n) Q"
  unfolding thenM_def by (rule triple_bindM)

text \<open>A program that keeps to a relation keeps a condition the relation is stable under.\<close>

lemma triple_frame: "upholds R m \<Longrightarrow> (\<And>w w'. R w w' \<Longrightarrow> I w \<Longrightarrow> I w') \<Longrightarrow> triple I m (\<lambda>_. I)"
  unfolding triple_def upholds_def wp_def by auto

lemma triple_if: "(b \<Longrightarrow> triple I m Q) \<Longrightarrow> (\<not> b \<Longrightarrow> triple I n Q) \<Longrightarrow> triple I (if b then m else n) Q"
  by simp

lemma triple_conj: "triple I m Q \<Longrightarrow> triple J m R \<Longrightarrow> triple (\<lambda>w. I w \<and> J w) m (\<lambda>a w. Q a w \<and> R a w)"
  unfolding triple_def by (simp add: wp_def)


section \<open>Total correctness\<close>

text \<open>From a world of \<open>I\<close> the program fulfils, and ends in \<open>Q\<close> with its value.\<close>

definition total :: "(world \<Rightarrow> bool) \<Rightarrow> 'a io \<Rightarrow> ('a \<Rightarrow> world \<Rightarrow> bool) \<Rightarrow> bool" where
  "total I m Q \<longleftrightarrow> (\<forall>w. I w \<longrightarrow> wp m (\<lambda>r w'. \<exists>a. r = Ok a \<and> Q a w') w)"

lemma totalD: "total I m Q \<Longrightarrow> I w \<Longrightarrow> wp m (\<lambda>r w'. \<exists>a. r = Ok a \<and> Q a w') w"
  by (simp add: total_def)

lemma total_weaken: "total I m Q \<Longrightarrow> (\<And>w. J w \<Longrightarrow> I w) \<Longrightarrow> (\<And>a w. Q a w \<Longrightarrow> R a w) \<Longrightarrow> total J m R"
  by (simp add: total_def wp_def) blast

lemma total_ret: "(\<And>w. I w \<Longrightarrow> Q a w) \<Longrightarrow> total I (ret a) Q"
  by (simp add: total_def wp_ret)

lemma total_bindM:
  assumes "total I m J" and "\<And>a. total (J a) (f a) Q"
  shows "total I (bindM m f) Q"
  unfolding total_def wp_bindM
proof (intro allI impI)
  fix w assume "I w"
  show "wp m (\<lambda>r w'. case r of Ok a \<Rightarrow> wp (f a) (\<lambda>r w'. \<exists>a. r = Ok a \<and> Q a w') w'
      | Throw e \<Rightarrow> \<exists>a. Throw e = Ok a \<and> Q a w' | Crashed \<Rightarrow> \<exists>a. Crashed = Ok a \<and> Q a w') w"
    by (rule wp_mono [OF totalD [OF assms(1) \<open>I w\<close>]]) (auto dest: totalD [OF assms(2)])
qed

lemma total_bindR:
  assumes "x = Inr a" and "total I (f a) Q"
  shows "total I (bindM (liftR x) f) Q"
  using assms by (simp add: total_def wp_bindM wp_liftR)

lemma total_thenM: "total I m (\<lambda>_. J) \<Longrightarrow> total J n Q \<Longrightarrow> total I (thenM m n) Q"
  unfolding thenM_def by (rule total_bindM)

lemma total_tryM:
  assumes "total I m Q"
  shows "total I (tryM m) (\<lambda>x w. \<exists>a. x = Inr a \<and> Q a w)"
  unfolding total_def wp_tryM
  by (intro allI impI, rule wp_mono [OF totalD [OF assms]]) auto

lemma total_catchM:
  assumes "total I m Q"
  shows "total I (catchM m h) Q"
  unfolding total_def wp_catchM
  by (intro allI impI, rule wp_mono [OF totalD [OF assms]]) auto

lemma total_forM: "(\<And>x. x \<in> set xs \<Longrightarrow> total I (f x) (\<lambda>_. I)) \<Longrightarrow> total I (forM xs f) (\<lambda>_. I)"
  by (induction xs) (auto intro: total_ret total_thenM)

lemma total_pure: "total (\<lambda>w. P \<and> I w) m Q \<longleftrightarrow> (P \<longrightarrow> total I m Q)"
  by (auto simp: total_def)

lemma total_ex: "total (\<lambda>w. \<exists>x. I x w) m Q \<longleftrightarrow> (\<forall>x. total (I x) m Q)"
  by (auto simp: total_def)

text \<open>A statement that succeeds where nothing fails.\<close>

lemma total_sql:
  assumes "\<And>w. I w \<Longrightarrow> quiet w"
    and "\<And>w. I w \<Longrightarrow> \<exists>a d. st (w_db w) = Inr (a, d) \<and> Q a (w\<lparr>w_db := d, w_tick := Suc (w_tick w)\<rparr>)"
  shows "total I (sqlM Pool st) Q"
  unfolding total_def
proof (intro allI impI)
  fix w assume w: "I w"
  obtain a d where "st (w_db w) = Inr (a, d)" "Q a (w\<lparr>w_db := d, w_tick := Suc (w_tick w)\<rparr>)" using assms(2) [OF w] by blast
  then show "wp (sqlM Pool st) (\<lambda>r w'. \<exists>a. r = Ok a \<and> Q a w') w" by (intro wp_sql_quiet [OF assms(1) [OF w]]) auto
qed

end
