(* ===== verification/Seed.thy ===== *)
theory Seed
  imports Repositories Triples
begin

text \<open>
  The seeding of a development database, \<open>src/scripts/seed-data.ts\<close>: the stock it writes over whatever
  was there, and the subscription it adds once.
\<close>

definition SEED_INVENTORY :: "(string \<times> int) list" where
  "SEED_INVENTORY =
     [(''WIDGET-1'', 10000), (''WIDGET-2'', 5000), (''WIDGET-3'', 1000), (''WIDGET-RARE'', 50), (''WIDGET-OOS'', 0)]"

definition dev_subscription :: subscription_row where
  "dev_subscription =
     \<lparr>sub_id = ''00000000-0000-4000-a000-000000000000'', sub_url = ''https://webhook.site/dev'',
      sub_event_types = [''order.created'', ''order.paid'', ''order.failed''],
      sub_secret = ''dev-secret-key-replace-in-prod'', sub_active = False\<rparr>"

text \<open>\<open>INSERT INTO webhook_subscriptions ... ON CONFLICT (id) DO NOTHING\<close>\<close>

definition insert_subscription :: "subscription_row \<Rightarrow> unit stmt" where
  "insert_subscription s d =
     require [(length (sub_url s) \<le> 512, ValueTooLong ''webhook_subscriptions.url''),
              (length (sub_secret s) \<le> 255, ValueTooLong ''webhook_subscriptions.secret'')]
       ((), if sub_id s \<in> sub_id ` set (db_subscriptions d) then d
            else d\<lparr>db_subscriptions := db_subscriptions d @ [s]\<rparr>)"

definition seed :: "unit io" where
  "seed =
     thenM (forM SEED_INVENTORY (\<lambda>(s, q). sqlM Pool (seed_stmt s q)))
       (sqlM Pool (insert_subscription dev_subscription))"


section \<open>What the script leaves behind\<close>

definition reseeded :: "string \<Rightarrow> int \<Rightarrow> inventory_row option \<Rightarrow> inventory_row" where
  "reseeded s q old =
     (case old of
        None \<Rightarrow> \<lparr>inv_sku = s, inv_available = q, inv_reserved = 0, inv_version = 1\<rparr>
      | Some r \<Rightarrow> r\<lparr>inv_available := q, inv_reserved := 0, inv_version := inv_version r + 1\<rparr>)"

definition seed_row :: "string \<times> int \<Rightarrow> db \<Rightarrow> db" where
  "seed_row x d = (case x of (s, q) \<Rightarrow>
     d\<lparr>db_inventory := (db_inventory d)(s \<mapsto> reseeded s q (db_inventory d s))\<rparr>)"

text \<open>The counter of a row that can still be raised.\<close>

definition version_free :: "db \<Rightarrow> string \<Rightarrow> bool" where
  "version_free d s \<longleftrightarrow> (\<forall>r. db_inventory d s = Some r \<longrightarrow> int4 (inv_version r + 1))"

lemma version_free_seed_row: "s \<noteq> fst x \<Longrightarrow> version_free (seed_row x d) s = version_free d s"
  by (cases x) (simp add: version_free_def seed_row_def)

lemma seed_stmt_run:
  "version_free d s \<Longrightarrow> 0 \<le> q \<Longrightarrow> int4 q \<Longrightarrow> length s \<le> 64 \<Longrightarrow> seed_stmt s q d = Inr ((), seed_row (s, q) d)"
  by (cases "db_inventory d s")
    (simp_all add: seed_stmt_def update_inventory_def checked_inventory_def version_free_def seed_row_def reseeded_def int4_def)

lemma total_seed_loop:
  assumes "distinct (map fst items)"
    and "\<forall>(s, q) \<in> set items. version_free d s \<and> 0 \<le> q \<and> int4 q \<and> length s \<le> 64"
  shows "total (\<lambda>w. quiet w \<and> w_db w = d) (forM items (\<lambda>(s, q). sqlM Pool (seed_stmt s q)))
     (\<lambda>_ w. quiet w \<and> w_db w = fold seed_row items d)"
  using assms
proof (induction items arbitrary: d)
  case Nil
  show ?case by (simp add: total_ret)
next
  case (Cons x items)
  obtain s q where x: "x = (s, q)" by (cases x)
  have "total (\<lambda>w. quiet w \<and> w_db w = d) (sqlM Pool (seed_stmt s q)) (\<lambda>_ w. quiet w \<and> w_db w = seed_row (s, q) d)"
    using Cons.prems x by (intro total_sql) (auto simp: seed_stmt_run quiet_def)
  moreover have "total (\<lambda>w. quiet w \<and> w_db w = seed_row (s, q) d) (forM items (\<lambda>(s, q). sqlM Pool (seed_stmt s q)))
      (\<lambda>_ w. quiet w \<and> w_db w = fold seed_row items (seed_row (s, q) d))"
  proof (rule Cons.IH)
    show "distinct (map fst items)" using Cons.prems x by simp
    have "s' \<noteq> s \<and> version_free d s' \<and> 0 \<le> q' \<and> int4 q' \<and> length s' \<le> 64" if "(s', q') \<in> set items" for s' q'
      using Cons.prems(2)[rule_format, of "(s', q')"] Cons.prems(1) x that by (auto intro: rev_image_eqI)
    then show "\<forall>(s', q') \<in> set items. version_free (seed_row (s, q) d) s' \<and> 0 \<le> q' \<and> int4 q' \<and> length s' \<le> 64"
      by (auto simp: version_free_seed_row)
  qed
  ultimately show ?case by (simp add: x total_thenM)
qed

lemma seed_items_ok:
  "distinct (map fst SEED_INVENTORY)" "(s, q) \<in> set SEED_INVENTORY \<Longrightarrow> 0 \<le> q \<and> int4 q \<and> length s \<le> 64"
  by (auto simp: SEED_INVENTORY_def int4_def)

lemma fold_seed_row:
  assumes "distinct (map fst items)"
  shows "fold seed_row items d = d\<lparr>db_inventory := (\<lambda>s. case map_of items s of
      None \<Rightarrow> db_inventory d s | Some q \<Rightarrow> Some (reseeded s q (db_inventory d s)))\<rparr>"
  using assms
proof (induction items arbitrary: d)
  case Nil
  show ?case by simp
next
  case (Cons x items)
  obtain s q where x: "x = (s, q)" by (cases x)
  have "map_of items s = None" using Cons.prems x by (simp add: map_of_eq_None_iff)
  with Cons show ?case by (auto simp: x seed_row_def fun_eq_iff split: option.split)
qed

lemma total_insert_subscription:
  "total (\<lambda>w. quiet w \<and> w_db w = d) (sqlM Pool (insert_subscription dev_subscription))
     (\<lambda>_ w. w_db w = (if sub_id dev_subscription \<in> sub_id ` set (db_subscriptions d) then d
                      else d\<lparr>db_subscriptions := db_subscriptions d @ [dev_subscription]\<rparr>))"
  by (intro total_sql) (auto simp: insert_subscription_def dev_subscription_def)

text \<open>
  The seeding: where the database answers, the script succeeds, every SKU of its list has exactly the
  stock it names and nothing reserved, the others keep theirs, the subscription of development is added
  when no subscription has its id, and no other table is touched.
\<close>

theorem seed_stocks:
  assumes "quiet w" and "\<forall>s \<in> fst ` set SEED_INVENTORY. version_free (w_db w) s"
  shows "fst (seed w) = Ok () \<and> w_db (snd (seed w)) = (w_db w)\<lparr>
     db_inventory := (\<lambda>s. case map_of SEED_INVENTORY s of
        None \<Rightarrow> db_inventory (w_db w) s | Some q \<Rightarrow> Some (reseeded s q (db_inventory (w_db w) s))),
     db_subscriptions := db_subscriptions (w_db w) @
        (if sub_id dev_subscription \<in> sub_id ` set (db_subscriptions (w_db w)) then [] else [dev_subscription])\<rparr>"
proof -
  have "total (\<lambda>v. quiet v \<and> w_db v = w_db w) seed
     (\<lambda>_ v. w_db v = (if sub_id dev_subscription \<in> sub_id ` set (db_subscriptions (fold seed_row SEED_INVENTORY (w_db w)))
                      then fold seed_row SEED_INVENTORY (w_db w)
                      else (fold seed_row SEED_INVENTORY (w_db w))\<lparr>db_subscriptions :=
                             db_subscriptions (fold seed_row SEED_INVENTORY (w_db w)) @ [dev_subscription]\<rparr>))"
    unfolding seed_def using assms(2) seed_items_ok
    by (intro total_thenM [OF total_seed_loop total_insert_subscription]) force+
  from totalD [OF this, of w] assms(1) show ?thesis
    by (simp add: wp_def fold_seed_row [OF seed_items_ok(1)] split_beta)
qed

theorem seed_stocks_witness:
  "map_option inv_available (db_inventory (w_db (snd (seed (world_of quiet_env empty_db)))) ''WIDGET-RARE'') = Some 50"
proof -
  have "version_free (w_db (world_of quiet_env empty_db)) s" for s
    by (simp add: version_free_def world_of_def empty_db_def)
  moreover have "quiet (world_of quiet_env empty_db)" by (simp add: quiet_def world_of_def quiet_env_def)
  ultimately show ?thesis
    using seed_stocks [of "world_of quiet_env empty_db"]
    by (simp add: SEED_INVENTORY_def reseeded_def world_of_def empty_db_def)
qed

end
