(* ===== verification/Commits.thy ===== *)
theory Commits
  imports Saga_Orchestrator Seed
begin

text \<open>
  The abstract machine behind the program: what one committed statement or transaction may do to the
  data.  Every operation of the program refines it, whatever fails and wherever the process dies: the
  data after it are reached from the data before it by a chain of commits.  As the commits are the
  atomic steps of the database, an interleaving of several operations is a chain of commits as well,
  so that an invariant of the machine is an invariant of the concurrent program.
\<close>


section \<open>The machine\<close>

definition event_core :: "outbox_event \<Rightarrow> string \<times> string \<times> string \<times> string" where
  "event_core e = (ev_id e, ev_eventType e, ev_aggregateId e, ev_aggregateType e)"

definition status_recorded :: "string \<Rightarrow> order_status \<Rightarrow> new_event \<Rightarrow> db \<Rightarrow> db \<Rightarrow> bool" where
  "status_recorded oid st ne d d' \<longleftrightarrow>
     (\<exists>t eid t' d1. set_order_status oid st t d = Inr ((), d1)
        \<and> insert_event (event_row_of ne eid t') d1 = Inr ((), d'))"

inductive commit :: "'d decimal_lib \<Rightarrow> db \<Rightarrow> db \<Rightarrow> bool" for L where
  order_created: "order_from L request ord \<Longrightarrow> recorded_with request ord d d' \<Longrightarrow> commit L d d'"
| order_paid: "status_recorded (cx_orderId c) PAID (paid_event c tid) d d' \<Longrightarrow> commit L d d'"
| order_failed: "status_recorded (cx_orderId c) CANCELLED (failed_event c) d d' \<Longrightarrow> commit L d d'"
| reserved: "reserve_stmt s q d = Inr (b, d') \<Longrightarrow> commit L d d'"
| released: "release_stmt s q d = Inr (b, d') \<Longrightarrow> commit L d d'"
| seeded: "seed_stmt s q d = Inr (u, d') \<Longrightarrow> commit L d d'"
| saga_created: "insert_saga sg d = Inr (u, d') \<Longrightarrow> saga_status sg = SAGA_PENDING \<Longrightarrow> commit L d d'"
| saga_written: "set_saga sg d = Inr (u, d') \<Longrightarrow> commit L d d'"
| step_created: "insert_step stp d = Inr (u, d') \<Longrightarrow> commit L d d'"
| step_written: "set_step stp d = Inr (u, d') \<Longrightarrow> commit L d d'"
| event_written: "set_event eid f d = Inr (u, d') \<Longrightarrow> (\<And>e. event_core (f e) = event_core e) \<Longrightarrow> commit L d d'"
| subscribed: "insert_subscription sb d = Inr (u, d') \<Longrightarrow> commit L d d'"
| delivery_recorded: "d' = d\<lparr>db_deliveries := db_deliveries d @ [r]\<rparr> \<Longrightarrow> commit L d d'"

abbreviation commits :: "'d decimal_lib \<Rightarrow> db \<Rightarrow> db \<Rightarrow> bool" where
  "commits L \<equiv> (commit L)\<^sup>*\<^sup>*"

lemma preord_rtranclp [intro, simp]: "preord R\<^sup>*\<^sup>*"
  by (auto simp: preord_def)

text \<open>
  An invariant of the machine: what every commit keeps is kept by every chain of commits, by every
  operation that refines the machine, and by every run of the program.
\<close>

locale commit_invariant =
  fixes L :: "'d decimal_lib" and I :: "db \<Rightarrow> bool"
  assumes commit_keeps: "commit L d d' \<Longrightarrow> I d \<Longrightarrow> I d'"
begin

lemma commits_keep: "commits L d d' \<Longrightarrow> I d \<Longrightarrow> I d'"
  by (induction rule: rtranclp_induct) (auto intro: commit_keeps)

lemma operation_keeps: "upholds (on_db (commits L)) m \<Longrightarrow> I (w_db w) \<Longrightarrow> I (w_db (snd (m w)))"
  by (auto simp: upholds_def on_db_def intro: commits_keep)

end


section \<open>The operations refine the machine\<close>

lemma upholds_eq_on_db: "upholds (on_db (=)) m \<Longrightarrow> preord R \<Longrightarrow> upholds (on_db R) m"
  by (auto simp: upholds_def on_db_def preord_def)

lemma on_db_mono: "upholds (on_db R) m \<Longrightarrow> (\<And>d d'. R d d' \<Longrightarrow> R' d d') \<Longrightarrow> upholds (on_db R') m"
  by (auto simp: upholds_def on_db_def)

lemma upholds_stmt:
  "(\<And>d a d'. st d = Inr (a, d') \<Longrightarrow> d' = d \<or> commit L d d') \<Longrightarrow> upholds (on_db (commits L)) (sqlM Pool st)"
  by (rule upholds_sqlM_Pool) (auto simp: stmt_in_def dest: r_into_rtranclp)

lemma select_idle: "stmt_in (=) (select_steps sid)" "stmt_in (=) (select_saga p)" "stmt_in (=) (select_pending n)"
    "stmt_in (=) (select_running t m)" "stmt_in (=) (select_order q)" "stmt_in (=) (select_items oid)"
  by (auto simp: stmt_in_def select_steps_def select_saga_def select_pending_def select_running_def
      select_order_def select_items_def)

lemma upholds_select: "stmt_in (=) st \<Longrightarrow> upholds (on_db (=)) (sqlM Pool st)"
  by (rule upholds_sqlM_Pool) auto

lemma pg_saga_sel [simp]:
  "sg_create pg_saga_repo = saga_create" "sg_update pg_saga_repo = saga_update"
  "sg_createStep pg_saga_repo = saga_createStep" "sg_updateStep pg_saga_repo = saga_updateStep"
  "sg_getSteps pg_saga_repo = saga_getSteps" "sg_findById pg_saga_repo = saga_findById"
  "sg_findByOrderId pg_saga_repo = saga_findByOrderId"
  "sg_findRunningSagas pg_saga_repo = saga_findRunningSagas"
  by (simp_all add: pg_saga_repo_def)

lemma upholds_saga_repo [upholds_intros]:
  "saga_status s = SAGA_PENDING \<Longrightarrow> upholds (on_db (commits L)) (saga_create s)"
  "upholds (on_db (commits L)) (saga_update s)"
  "upholds (on_db (commits L)) (saga_createStep st)"
  "upholds (on_db (commits L)) (saga_updateStep st)"
  "upholds (on_db (commits L)) (saga_getSteps sid)"
  unfolding saga_create_def saga_update_def saga_createStep_def saga_updateStep_def saga_getSteps_def
  by (auto intro: upholds_stmt commit.intros upholds_eq_on_db [OF upholds_select] simp: select_idle)

lemma upholds_inventory_stmts [upholds_intros]:
  "upholds (on_db (commits L)) (inventory_findBySku s)"
  "upholds (on_db (commits L)) (inventory_reserve s q)"
  "upholds (on_db (commits L)) (inventory_release s q)"
  unfolding inventory_findBySku_def inventory_reserve_def inventory_release_def
  by (intro upholds_intros preord_on_db preord_rtranclp upholds_eq_on_db [OF upholds_select] select_inventory_idle)
    (auto intro: upholds_stmt commit.intros)

text \<open>The loops of the inventory service hand over release functions that leave the data alone.\<close>

definition releases_ok :: "(db \<Rightarrow> db \<Rightarrow> bool) \<Rightarrow> (error + bool) \<times> unit io list \<Rightarrow> bool" where
  "releases_ok R x \<longleftrightarrow> (\<forall>m \<in> set (snd x). upholds (on_db R) m)"

lemma yields_advisory_acquire:
  assumes "preord R"
  shows "yields (on_db R) (\<lambda>x. \<forall>rel. x = Some rel \<longrightarrow> upholds (on_db R) rel) (advisory_acquire sha r ttl)"
proof -
  have "wp (advisory_acquire sha r ttl) (\<lambda>_ w'. on_db R w w') w" for w
    by (rule upholds_wp [OF upholds_advisory_acquire [OF assms]])
  moreover have "wp (advisory_acquire sha r ttl)
      (\<lambda>res w'. \<forall>x. res = Ok x \<longrightarrow> (\<forall>rel. x = Some rel \<longrightarrow> upholds (on_db R) rel)) w" for w
    by (rule wp_mono [OF advisory_acquire_closure])
      (use upholds_release_handle [OF assms] in auto)
  ultimately show ?thesis by (simp add: yields_def wp_def)
qed

text \<open>Both loops, with the body of an item as a parameter.\<close>

lemma yields_item_loop:
  assumes R: "preord R" and rels: "releases_ok R (x, releases)"
    and item: "upholds (on_db R) item"
    and more: "\<And>releases. releases_ok R (x, releases) \<Longrightarrow> yields (on_db R) (releases_ok R) (k releases)"
  shows "yields (on_db R) (releases_ok R)
     (bindM (tryM (advisory_acquire sha res ttl)) (\<lambda>acq.
      case acq of
        Inl e \<Rightarrow> ret (Inl e, releases)
      | Inr None \<Rightarrow> ret (Inr False, releases)
      | Inr (Some release) \<Rightarrow>
          bindM (tryM item) (\<lambda>out. case out of
            Inr True \<Rightarrow> k (releases @ [release]) | _ \<Rightarrow> ret (out, releases @ [release]))))"
proof (rule yields_bindM [OF preord_on_db [OF R] yields_tryM [OF preord_on_db [OF R] yields_advisory_acquire [OF R]]])
  fix acq :: "error + unit io option"
  assume acq: "case acq of Inl _ \<Rightarrow> True | Inr x \<Rightarrow> (\<forall>rel. x = Some rel \<longrightarrow> upholds (on_db R) rel)"
  have stop: "yields (on_db R) (releases_ok R) (ret (out, rs))" if "releases_ok R (x, rs)" for out rs
    using that by (intro yields_ret preord_on_db [OF R]) (simp add: releases_ok_def)
  have body: "yields (on_db R) (releases_ok R) (bindM (tryM item) (\<lambda>out. case out of
            Inr True \<Rightarrow> k (releases @ [release]) | _ \<Rightarrow> ret (out, releases @ [release])))"
    if "upholds (on_db R) release" for release
  proof (rule yields_bindM [OF preord_on_db [OF R]])
    show "yields (on_db R) (\<lambda>_. True) (tryM item)"
      by (rule upholds_yields) (intro upholds_tryM preord_on_db R item, simp)
    have rs: "releases_ok R (x, releases @ [release])"
      using rels that by (auto simp: releases_ok_def)
    show "yields (on_db R) (releases_ok R) (case out of
            Inr True \<Rightarrow> k (releases @ [release]) | _ \<Rightarrow> ret (out, releases @ [release]))" for out
      using stop [OF rs] more [OF rs] by (auto split: sum.split bool.split)
  qed
  show "yields (on_db R) (releases_ok R) (case acq of
        Inl e \<Rightarrow> ret (Inl e, releases)
      | Inr None \<Rightarrow> ret (Inr False, releases)
      | Inr (Some release) \<Rightarrow>
          bindM (tryM item) (\<lambda>out. case out of
            Inr True \<Rightarrow> k (releases @ [release]) | _ \<Rightarrow> ret (out, releases @ [release])))"
    using acq stop [OF rels] body by (auto split: sum.split option.split)
qed

lemma upholds_reserve_item [upholds_intros]:
  "upholds (on_db (commits L)) (reserve_item pg_inventory_repo i)"
  unfolding reserve_item_def pg_repo_sel by (intro upholds_intros preord_on_db preord_rtranclp)

lemma upholds_release_item [upholds_intros]:
  "upholds (on_db (commits L)) (release_item pg_inventory_repo i)"
  unfolding release_item_def pg_repo_sel by (intro upholds_intros preord_on_db preord_rtranclp)

lemma yields_reserve_loop:
  assumes R: "preord R" and item: "\<And>i. upholds (on_db R) (reserve_item pg_inventory_repo i)"
  shows "releases_ok R (x, releases) \<Longrightarrow>
    yields (on_db R) (releases_ok R) (reserve_loop pg_inventory_repo (pg_lock_manager sha) items releases)"
proof (induction items arbitrary: releases)
  case Nil
  then show ?case
    unfolding reserve_loop.simps by (intro yields_ret preord_on_db R) (simp add: releases_ok_def)
next
  case (Cons i items)
  show ?case
    unfolding reserve_loop.simps pg_repo_sel
    by (rule yields_item_loop [OF R Cons.prems item Cons.IH])
qed

lemma yields_release_loop:
  "releases_ok (commits L) (x, releases) \<Longrightarrow> yields (on_db (commits L)) (releases_ok (commits L))
     (release_loop pg_inventory_repo (pg_lock_manager sha) items releases)"
proof (induction items arbitrary: releases)
  case Nil
  then show ?case
    unfolding release_loop.simps by (intro yields_ret preord_on_db preord_rtranclp) (simp add: releases_ok_def)
next
  case (Cons i items)
  show ?case
    unfolding release_loop.simps pg_repo_sel
    by (rule yields_item_loop [OF preord_rtranclp Cons.prems upholds_release_item Cons.IH])
qed

lemma upholds_all_releases:
  "releases_ok R x \<Longrightarrow> preord R \<Longrightarrow> upholds (on_db R) (all_settled (snd x))"
  by (rule upholds_all_settled) (auto simp: releases_ok_def)

lemma upholds_metrics_case [upholds_intros]:
  "preord R \<Longrightarrow> upholds R m \<Longrightarrow> upholds R (case out of Inr True \<Rightarrow> m | _ \<Rightarrow> ret ())"
  by (auto intro: upholds_intros split: sum.split bool.split)

text \<open>A reservation keeps to every relation the reservation of one item keeps to.\<close>

lemma upholds_reserveInventory_on:
  assumes R: "preord R" and item: "\<And>i. upholds (on_db R) (reserve_item pg_inventory_repo i)"
  shows "upholds (on_db R) (reserveInventory le pg_inventory_repo (pg_lock_manager sha) oid items)"
  unfolding reserveInventory_def
proof (rule upholds_bindM [OF preord_on_db [OF R]],
    rule upholds_nowM [OF ticks_on_db [OF R]],
    rule upholds_bind_yields [OF preord_on_db [OF R] yields_reserve_loop [OF R item]])
  show "releases_ok R (undefined, [])" by (simp add: releases_ok_def)
  fix t and x :: "(error + bool) \<times> unit io list"
  assume "releases_ok R x"
  then show "upholds (on_db R) (case x of (out, releases) \<Rightarrow>
     bindM (case out of
              Inr True \<Rightarrow> bindM nowM (\<lambda>t'. recordHistogram ''inventory.reservation.duration'' (t' - t) [])
            | _ \<Rightarrow> ret ()) (\<lambda>_. thenM (all_settled releases) (liftR out)))"
    unfolding split_def by (intro upholds_intros upholds_all_releases preord_on_db ticks_on_db R)
qed

lemma upholds_reserveInventory [upholds_intros]:
  "upholds (on_db (commits L)) (reserveInventory le pg_inventory_repo (pg_lock_manager sha) oid items)"
  by (rule upholds_reserveInventory_on [OF preord_rtranclp upholds_reserve_item])

lemma upholds_releaseInventory [upholds_intros]:
  "upholds (on_db (commits L)) (releaseInventory le pg_inventory_repo (pg_lock_manager sha) oid items)"
  unfolding releaseInventory_def
proof (rule upholds_bind_yields [OF preord_on_db [OF preord_rtranclp] yields_release_loop])
  show "releases_ok (commits L) (undefined, [])" by (simp add: releases_ok_def)
  fix x :: "(error + bool) \<times> unit io list"
  assume "releases_ok (commits L) x"
  then show "upholds (on_db (commits L)) (case x of (out, releases) \<Rightarrow>
     thenM (all_settled releases) (liftR out))"
    unfolding split_def by (intro upholds_intros upholds_all_releases preord_on_db preord_rtranclp)
qed


section \<open>The transactions\<close>

lemma status_recorded_eq:
  assumes "status_recorded oid st ne d d'"
  obtains t eid t' where "eid \<notin> ev_id ` set (db_outbox d)"
    "d' = d\<lparr>db_orders := update_all (\<lambda>r. or_id r = oid)
                              (\<lambda>r. r\<lparr>or_status := st, or_updated_at := t\<rparr>) (db_orders d),
            db_outbox := db_outbox d @ [event_row_of ne eid t']\<rparr>"
  using assms by (auto simp: status_recorded_def set_order_status_def dest!: insert_event_Inr)

lemma order_updateStatus_wp:
  "wp (order_updateStatus oid st Tx) (\<lambda>r w'. w_db w' = w_db w \<and> (\<forall>a. r = Ok a \<longrightarrow>
      (\<exists>t. set_order_status oid st t (view Tx w) = Inr ((), view Tx w')))) w"
  unfolding order_updateStatus_def wp_bindM wp_nowM res.case
  by (rule wp_mono [OF wp_sql_Tx]) auto

lemma status_tx_wp:
  "wp (thenM (order_updateStatus oid st Tx) (bindM (outbox_createWithSql ne Tx) (\<lambda>_. ret ())))
     (\<lambda>r w'. w_db w' = w_db w \<and> (\<forall>a. r = Ok a \<longrightarrow> status_recorded oid st ne (view Tx w) (view Tx w'))) w"
  unfolding wp_thenM
proof (rule wp_mono [OF order_updateStatus_wp], goal_cases)
  case (1 r w1)
  show ?case
  proof (cases r)
    case (Ok a)
    with 1 obtain t where w1: "w_db w1 = w_db w"
        "set_order_status oid st t (view Tx w) = Inr ((), view Tx w1)"
      by auto
    then have "w_db w2 = w_db w1 \<and> (\<forall>eid. r2 = Ok eid \<longrightarrow>
         (\<exists>t. insert_event (event_row_of ne eid t) (view Tx w1) = Inr ((), view Tx w2))) \<Longrightarrow>
       w_db w2 = w_db w \<and> (\<forall>a. r2 = Ok a \<longrightarrow> status_recorded oid st ne (view Tx w) (view Tx w2))" for r2 w2
      unfolding status_recorded_def by (cases r2) auto
    then show ?thesis
      unfolding Ok res.case wp_bindM
      by (intro wp_mono [OF outbox_createWithSql_wp]) (auto simp: wp_ret split: res.split)
  qed (use 1 in auto)
qed

lemma pg_orchestrator_sel [simp]:
  "oc_orders (pg_orchestrator L le sha ps) = pg_order_repo L"
  "oc_sagas (pg_orchestrator L le sha ps) = pg_saga_repo"
  "oc_outbox (pg_orchestrator L le sha ps) = pg_outbox_repo"
  "oc_inventory (pg_orchestrator L le sha ps) = pg_inventory_service le sha"
  "oc_payment (pg_orchestrator L le sha ps) = ps"
  "oc_tx (pg_orchestrator L le sha ps) = pg_tx_manager"
  "is_reserve (pg_inventory_service le sha) = reserveInventory le pg_inventory_repo (pg_lock_manager sha)"
  "is_release (pg_inventory_service le sha) = releaseInventory le pg_inventory_repo (pg_lock_manager sha)"
  by (simp_all add: pg_orchestrator_def pg_inventory_service_def)

lemma status_begin_wp:
  "wp (tm_begin pg_tx_manager (status_tx (pg_orchestrator L le sha ps) oid st ne)) (\<lambda>r w'. w_tx w' = None
      \<and> ((\<forall>a. r \<noteq> Ok a) \<and> w_db w' = w_db w \<or> status_recorded oid st ne (w_db w) (w_db w'))) w"
  by (rule pg_tx.atomic) (unfold status_tx_def pg_orchestrator_sel pg_order_sel, rule status_tx_wp)

lemma upholds_status_begin:
  assumes "preord R" and "\<And>d d'. status_recorded oid st ne d d' \<Longrightarrow> R d d'"
  shows "upholds (on_db R) (tm_begin pg_tx_manager (status_tx (pg_orchestrator L le sha ps) oid st ne))"
proof (rule upholdsI)
  fix w
  show "on_db R w (snd (tm_begin pg_tx_manager (status_tx (pg_orchestrator L le sha ps) oid st ne) w))"
    using status_begin_wp [of L le sha ps oid st ne w] assms preord_refl [OF assms(1)]
    by (auto simp: wp_def on_db_def)
qed

lemma upholds_paid_begin [upholds_intros]:
  "upholds (on_db (commits L)) (tm_begin pg_tx_manager
     (status_tx (pg_orchestrator L' le sha ps) (cx_orderId c) PAID (paid_event c tid)))"
  by (rule upholds_status_begin) (auto intro: commit.intros)

lemma upholds_failed_begin [upholds_intros]:
  "upholds (on_db (commits L)) (tm_begin pg_tx_manager
     (status_tx (pg_orchestrator L' le sha ps) (cx_orderId c) CANCELLED (failed_event c)))"
  by (rule upholds_status_begin) (auto intro: commit.intros)


section \<open>The operations of the services refine the machine\<close>

text \<open>A payment service that leaves the data alone; \<open>Payment\<close> shows it of the Stripe adapter.\<close>

definition payment_frame :: "payment_service \<Rightarrow> bool" where
  "payment_frame ps \<longleftrightarrow> (\<forall>oid amt tok. upholds (on_db (=)) (ps_charge ps oid amt tok))
     \<and> (\<forall>t amt. upholds (on_db (=)) (ps_refund ps t amt))"

lemma upholds_payment [upholds_intros]:
  "payment_frame ps \<Longrightarrow> preord R \<Longrightarrow> upholds (on_db R) (ps_charge ps oid amt tok)"
  "payment_frame ps \<Longrightarrow> preord R \<Longrightarrow> upholds (on_db R) (ps_refund ps t amt)"
  by (auto simp: payment_frame_def intro: upholds_eq_on_db)

lemma upholds_beginStep [upholds_intros]:
  "upholds (on_db (commits L)) (beginStep pg_saga_repo sid n k j)"
  unfolding beginStep_def Let_def pg_saga_sel by (intro upholds_intros preord_on_db ticks_on_db preord_rtranclp)

lemma upholds_endStep [upholds_intros]: "upholds (on_db (commits L)) (endStep pg_saga_repo st)"
  unfolding endStep_def pg_saga_sel by (intro upholds_intros preord_on_db preord_rtranclp)

lemma upholds_compensate_payment [upholds_intros]:
  "payment_frame ps \<Longrightarrow>
     upholds (on_db (commits L)) (compensate_payment L' (pg_orchestrator L'' le sha ps) c steps)"
  unfolding compensate_payment_def pg_orchestrator_sel pg_saga_sel
  by (intro upholds_intros preord_on_db preord_rtranclp)

lemma upholds_compensate_inventory [upholds_intros]:
  "upholds (on_db (commits L)) (compensate_inventory (pg_orchestrator L'' le sha ps) c steps)"
  unfolding compensate_inventory_def pg_orchestrator_sel pg_saga_sel
  by (intro upholds_intros preord_on_db preord_rtranclp)

lemma upholds_compensate [upholds_intros]:
  "payment_frame ps \<Longrightarrow>
     upholds (on_db (commits L)) (compensate L' (pg_orchestrator L'' le sha ps) sid c sg)"
  unfolding compensate_def pg_orchestrator_sel pg_saga_sel
  by (intro upholds_intros preord_on_db ticks_on_db preord_rtranclp)

lemma upholds_confirm_order [upholds_intros]:
  "upholds (on_db (commits L)) (confirm_order (pg_orchestrator L'' le sha ps) c sg pr)"
  unfolding confirm_order_def pg_orchestrator_sel pg_saga_sel
  by (intro upholds_intros preord_on_db ticks_on_db preord_rtranclp)

lemma upholds_process_payment [upholds_intros]:
  "payment_frame ps \<Longrightarrow>
     upholds (on_db (commits L)) (process_payment L' (pg_orchestrator L'' le sha ps) c sg)"
  unfolding process_payment_def pg_orchestrator_sel pg_saga_sel
  by (intro upholds_intros preord_on_db ticks_on_db preord_rtranclp)

lemma upholds_run_saga [upholds_intros]:
  "payment_frame ps \<Longrightarrow>
     upholds (on_db (commits L)) (run_saga L' (pg_orchestrator L'' le sha ps) c)"
  unfolding run_saga_def Let_def pg_orchestrator_sel pg_saga_sel
  by (intro upholds_intros preord_on_db ticks_on_db preord_rtranclp) (simp add: createSagaInstance_def)

lemma upholds_createOrder [upholds_intros]:
  assumes "\<And>c. upholds (on_db (=)) (enqueue c)"
  shows "upholds (on_db (commits L))
           (service_createOrder L (pg_order_repo L') pg_outbox_repo enqueue pg_tx_manager request)"
proof (rule upholdsI)
  fix w
  show "on_db (commits L) w
     (snd (service_createOrder L (pg_order_repo L') pg_outbox_repo enqueue pg_tx_manager request w))"
    using pg_tx.createOrder_wp [where enqueue = enqueue and L = L and L' = L' and request = request and w = w] assms
    by (auto simp: wp_def on_db_def intro: commit.intros)
qed

lemma upholds_seed [upholds_intros]:
  "upholds (on_db (commits L)) (inventory_seedInventory items)"
  unfolding inventory_seedInventory_def split_def
  by (intro upholds_intros preord_on_db preord_rtranclp upholds_stmt) (auto intro: commit.intros)

lemma upholds_seed_script [upholds_intros]: "upholds (on_db (commits L)) seed"
  unfolding seed_def split_def
  by (intro upholds_intros preord_on_db preord_rtranclp upholds_stmt) (auto intro: commit.intros)

end
