(* ===== verification/Metrics.thy ===== *)
theory Metrics
  imports World
begin

text \<open>
  The reading side of \<open>src/src/infrastructure/observability/metrics.ts\<close>: counters and percentiles.
  The arithmetic of the percentile is that of doubles; \<open>fl\<close> rounds an exact result to a double, and
  \<open>rounding_laws\<close> says that it is monotone and exact on the integers a double holds.
\<close>

definition rounding_laws :: "(rat \<Rightarrow> rat) \<Rightarrow> bool" where
  "rounding_laws fl \<longleftrightarrow> (\<forall>x y. x \<le> y \<longrightarrow> fl x \<le> fl y) \<and> (\<forall>k :: int. \<bar>k\<bar> \<le> 2 ^ 53 \<longrightarrow> fl (of_int k) = of_int k)"

lemma rounding_lawsD:
  assumes "rounding_laws fl"
  shows "x \<le> y \<Longrightarrow> fl x \<le> fl y" and "\<bar>k\<bar> \<le> 2 ^ 53 \<Longrightarrow> fl (of_int k) = of_int k"
  using assms unfolding rounding_laws_def by blast+

definition getCounter :: "string \<Rightarrow> (string \<times> string) list \<Rightarrow> world \<Rightarrow> nat" where
  "getCounter name labels w =
     (case w_counters w (labeledKey name labels) of Some n \<Rightarrow> n | None \<Rightarrow> 0)"

text \<open>\<open>sorted[Math.max(0, idx)] ?? 0\<close>, with \<open>idx\<close> the ceiling minus one.\<close>

definition percentile_index :: "(rat \<Rightarrow> rat) \<Rightarrow> rat \<Rightarrow> nat \<Rightarrow> int" where
  "percentile_index fl p n = \<lceil>fl (fl (p / 100) * of_nat n)\<rceil> - 1"

definition getHistogramPercentile ::
    "(rat \<Rightarrow> rat) \<Rightarrow> string \<Rightarrow> rat \<Rightarrow> (string \<times> string) list \<Rightarrow> world \<Rightarrow> int" where
  "getHistogramPercentile fl name p labels w =
     (let values = (case w_histograms w (labeledKey name labels) of Some vs \<Rightarrow> vs | None \<Rightarrow> []) in
      if values = [] then 0
      else (let sorted = sort_by (\<le>) values; i = nat (max 0 (percentile_index fl p (length sorted)))
            in if i < length sorted then sorted ! i else 0))"


section \<open>Facts\<close>

lemma getCounter_increment:
  "wp (increment n l) (\<lambda>r w'. r = Ok () \<and> getCounter n l w' = Suc (getCounter n l w)) w"
  by (simp add: increment_def wp_modifyM getCounter_def bump_def split: option.split)

text \<open>For \<open>0 <= p <= 100\<close> the index is one of the list's, and it grows with \<open>p\<close>.\<close>

lemma percentile_index_bounds:
  assumes fl: "rounding_laws fl" and p: "0 \<le> p" "p \<le> 100" and n: "0 < n" "n \<le> 2 ^ 53"
  shows "-1 \<le> percentile_index fl p n" "percentile_index fl p n < int n"
proof -
  have ints: "fl (of_int k) = of_int k" if "0 \<le> k" "k \<le> 2 ^ 53" for k
    by (rule rounding_lawsD(2) [OF fl]) (use that in simp)
  have q: "0 \<le> fl (p / 100)" "fl (p / 100) \<le> 1"
    using rounding_lawsD(1) [OF fl, of 0 "p / 100"] rounding_lawsD(1) [OF fl, of "p / 100" 1]
      ints [of 0] ints [of 1] p by simp_all
  then have "0 \<le> fl (p / 100) * of_nat n" "fl (p / 100) * of_nat n \<le> of_int (int n)"
    using mult_right_mono [OF q(2), of "of_nat n"] by simp_all
  then have "0 \<le> fl (fl (p / 100) * of_nat n)" "fl (fl (p / 100) * of_nat n) \<le> of_int (int n)"
    using rounding_lawsD(1) [OF fl, of 0] rounding_lawsD(1) [OF fl, of _ "of_int (int n)"]
      ints [of 0] ints [of "int n"] n by simp_all
  then have "0 \<le> \<lceil>fl (fl (p / 100) * of_nat n)\<rceil>" "\<lceil>fl (fl (p / 100) * of_nat n)\<rceil> \<le> int n"
    using ceiling_mono [of 0 "fl (fl (p / 100) * of_nat n)"] by (simp_all add: ceiling_le_iff)
  then show "-1 \<le> percentile_index fl p n" "percentile_index fl p n < int n"
    unfolding percentile_index_def by linarith+
qed

lemma percentile_index_mono:
  assumes "rounding_laws fl" and "p \<le> q"
  shows "percentile_index fl p n \<le> percentile_index fl q n"
proof -
  have "fl (p / 100) \<le> fl (q / 100)"
    by (rule rounding_lawsD(1) [OF assms(1)]) (use assms(2) in \<open>simp add: divide_right_mono\<close>)
  then have "fl (p / 100) * of_nat n \<le> fl (q / 100) * of_nat n"
    by (rule mult_right_mono) simp
  then have "fl (fl (p / 100) * of_nat n) \<le> fl (fl (q / 100) * of_nat n)"
    by (rule rounding_lawsD(1) [OF assms(1)])
  then have "\<lceil>fl (fl (p / 100) * of_nat n)\<rceil> \<le> \<lceil>fl (fl (q / 100) * of_nat n)\<rceil>" by (rule ceiling_mono)
  then show ?thesis by (simp add: percentile_index_def)
qed

lemma percentile_index_100:
  assumes "rounding_laws fl" and "n \<le> 2 ^ 53"
  shows "percentile_index fl 100 n = int n - 1"
  using rounding_lawsD(2) [OF assms(1), of 1] rounding_lawsD(2) [OF assms(1), of "int n"] assms(2)
  by (simp add: percentile_index_def)

lemma sorted_sort_by_le: "sorted (sort_by (\<le>) (xs :: 'a :: linorder list))"
  by (rule sorted_sort_by) auto


section \<open>The properties\<close>

text \<open>
  A percentile of a histogram is one of its values, grows with the percentage and is the maximum
  at 100, whatever the rounding of \<open>p / 100 * length\<close> to doubles.
\<close>

theorem percentile_sound:
  assumes fl: "rounding_laws fl" and vs: "w_histograms w (labeledKey name l) = Some vs" "vs \<noteq> []"
    and n: "length vs \<le> 2 ^ 53"
  shows "(\<forall>p \<in> {0..100}. getHistogramPercentile fl name p l w \<in> set vs)
    \<and> (\<forall>p \<in> {0..100}. \<forall>q \<in> {0..100}. p \<le> q \<longrightarrow>
         getHistogramPercentile fl name p l w \<le> getHistogramPercentile fl name q l w)
    \<and> getHistogramPercentile fl name 100 l w = Max (set vs)"
proof -
  let ?s = "sort_by (\<le>) vs"
  let ?i = "\<lambda>p. nat (max 0 (percentile_index fl p (length vs)))"
  have len: "length ?s = length vs" "set ?s = set vs" by simp_all
  have i: "?i p < length vs" if "p \<in> {0..100}" for p
    using percentile_index_bounds(2) [OF fl, of p "length vs"] vs(2) n that by (simp add: nat_less_iff)
  have get: "getHistogramPercentile fl name p l w = ?s ! ?i p" if "p \<in> {0..100}" for p
    using i [OF that] vs by (simp add: getHistogramPercentile_def Let_def)
  have "?s ! ?i p \<le> ?s ! ?i q" if "p \<in> {0..100}" "q \<in> {0..100}" "p \<le> q" for p q
    using percentile_index_mono [OF fl that(3), of "length vs"] i [OF that(2)]
    by (intro sorted_nth_mono [OF sorted_sort_by_le]) auto
  moreover have "?s ! ?i p \<in> set vs" if "p \<in> {0..100}" for p
    using i [OF that] len by (metis nth_mem)
  moreover have "?s ! ?i 100 = Max (set vs)"
  proof (rule Max_eqI [symmetric])
    fix y assume "y \<in> set vs"
    then obtain k where "k < length ?s" "y = ?s ! k" using len by (metis in_set_conv_nth)
    then show "y \<le> ?s ! ?i 100"
      using percentile_index_100 [OF fl n] vs(2) by (auto intro!: sorted_nth_mono [OF sorted_sort_by_le])
  qed (use calculation(2) [of 100] in auto)
  ultimately show ?thesis by (simp add: get)
qed

theorem percentile_sound_witness:
  "getHistogramPercentile id ''h'' 50 [] ((world_of quiet_env empty_db)\<lparr>w_histograms := [''h'' \<mapsto> [7, 3, 5]]\<rparr>) \<in> {3, 5, 7}
   \<and> getHistogramPercentile id ''h'' 100 [] ((world_of quiet_env empty_db)\<lparr>w_histograms := [''h'' \<mapsto> [7, 3, 5]]\<rparr>) = 7"
  using percentile_sound [of id "(world_of quiet_env empty_db)\<lparr>w_histograms := [''h'' \<mapsto> [7, 3, 5]]\<rparr>" "''h''" "[]" "[7, 3, 5]"]
  by (auto simp: rounding_laws_def labeledKey_def)

end
