(* ===== verification/Webhooks.thy ===== *)
theory Webhooks
  imports Commits Metrics "HOL-Library.Sublist"
begin

text \<open>
  \<open>src/src/events/webhooks\<close>: the canonical form and the signature of a payload, the delay between
  retries, the block list of private addresses and the dispatcher.  HMAC-SHA256 is a parameter, a
  function from the secret and the data to bytes; the printing of a number that is not an integer and
  of a date are parameters as well.
\<close>


section \<open>Canonical form and signature\<close>

text \<open>
  The members of an object keep the order they were inserted in, for keys that are not array indices;
  the payloads of the program have no others.
\<close>

primrec canonicalize :: "json \<Rightarrow> json" where
  "canonicalize JNull = JNull"
| "canonicalize (JBool b) = JBool b"
| "canonicalize (JNum q) = JNum q"
| "canonicalize (JStr s) = JStr s"
| "canonicalize (JArr vs) = JArr (map canonicalize vs)"
| "canonicalize (JObj kvs) =
     JObj (sort_by (\<lambda>a b. fst a \<le> fst b) (map (map_prod id canonicalize) kvs))"

text \<open>\<open>JSON.stringify\<close>\<close>

definition hex_digit :: "nat \<Rightarrow> char" where
  "hex_digit n = (if n < 10 then char_of (48 + n) else char_of (87 + n))"

definition escape_char :: "char \<Rightarrow> string" where
  "escape_char c =
     (if c = CHR 0x22 then [CHR 0x5C, CHR 0x22]
      else if c = CHR 0x5C then [CHR 0x5C, CHR 0x5C]
      else if c = CHR 0x08 then [CHR 0x5C, CHR ''b'']
      else if c = CHR 0x0C then [CHR 0x5C, CHR ''f'']
      else if c = CHR 0x0A then [CHR 0x5C, CHR ''n'']
      else if c = CHR 0x0D then [CHR 0x5C, CHR ''r'']
      else if c = CHR 0x09 then [CHR 0x5C, CHR ''t'']
      else if of_char c < (32 :: nat)
      then [CHR 0x5C, CHR ''u'', CHR ''0'', CHR ''0'', hex_digit (of_char c div 16), hex_digit (of_char c mod 16)]
      else [c])"

definition quote_string :: "string \<Rightarrow> string" where
  "quote_string s = CHR 0x22 # concat (map escape_char s) @ [CHR 0x22]"

definition number_string :: "(rat \<Rightarrow> string) \<Rightarrow> js_number \<Rightarrow> string" where
  "number_string ps q = (case q of Whole k \<Rightarrow> int_string k | Fraction r \<Rightarrow> ps r | _ \<Rightarrow> ''null'')"

primrec stringify :: "(rat \<Rightarrow> string) \<Rightarrow> json \<Rightarrow> string" where
  "stringify ps JNull = ''null''"
| "stringify ps (JBool b) = (if b then ''true'' else ''false'')"
| "stringify ps (JNum q) = number_string ps q"
| "stringify ps (JStr s) = quote_string s"
| "stringify ps (JArr vs) = ''['' @ commas (map (stringify ps) vs) @ '']''"
| "stringify ps (JObj kvs) =
     ''{'' @ commas (map (\<lambda>kv. quote_string (fst kv) @ '':'' @ snd kv) (map (map_prod id (stringify ps)) kvs)) @ ''}''"

text \<open>\<open>digest('hex')\<close> and \<open>Buffer.from(s, 'hex')\<close>, which stops at the first pair that is not hexadecimal.\<close>

definition hex_byte :: "8 word \<Rightarrow> string" where
  "hex_byte b = [hex_digit (unat b div 16), hex_digit (unat b mod 16)]"

definition hex_encode :: "8 word list \<Rightarrow> string" where
  "hex_encode bs = concat (map hex_byte bs)"

definition hex_value :: "char \<Rightarrow> nat option" where
  "hex_value c =
     (if CHR ''0'' \<le> c \<and> c \<le> CHR ''9'' then Some (of_char c - 48)
      else if CHR ''a'' \<le> c \<and> c \<le> CHR ''f'' then Some (of_char c - 87)
      else if CHR ''A'' \<le> c \<and> c \<le> CHR ''F'' then Some (of_char c - 55)
      else None)"

fun hex_decode :: "string \<Rightarrow> 8 word list" where
  "hex_decode (a # b # s) =
     (case (hex_value a, hex_value b) of
        (Some x, Some y) \<Rightarrow> word_of_nat (16 * x + y) # hex_decode s
      | _ \<Rightarrow> [])"
| "hex_decode _ = []"

type_synonym hmac = "string \<Rightarrow> string \<Rightarrow> 8 word list"

definition signPayload :: "hmac \<Rightarrow> (rat \<Rightarrow> string) \<Rightarrow> json \<Rightarrow> string \<Rightarrow> string" where
  "signPayload hm ps payload secret = hex_encode (hm secret (stringify ps (canonicalize payload)))"

definition verifyPayload :: "hmac \<Rightarrow> (rat \<Rightarrow> string) \<Rightarrow> json \<Rightarrow> string \<Rightarrow> string \<Rightarrow> bool" where
  "verifyPayload hm ps payload signature secret =
     (let expected = hex_decode (signPayload hm ps payload secret);
          provided = hex_decode signature
      in if length expected \<noteq> length provided then False else expected = provided)"

text \<open>The facts: the encoding is invertible, and the canonical form forgets the order of the members.\<close>

lemma hex_value_digit: "n < 16 \<Longrightarrow> hex_value (hex_digit n) = Some n"
proof -
  have "list_all (\<lambda>n. hex_value (hex_digit n) = Some n) [0..<16]" by code_simp
  then show "n < 16 \<Longrightarrow> hex_value (hex_digit n) = Some n" by (simp add: list_all_iff)
qed

lemma hex_decode_encode [simp]: "hex_decode (hex_encode bs) = bs"
proof (induction bs)
  case Nil
  then show ?case by (simp add: hex_encode_def)
next
  case (Cons b bs)
  have "unat b < 256" using unsigned_less [of b, where 'a = nat] by simp
  then have "unat b div 16 < 16" "unat b mod 16 < 16" by auto
  then have "hex_decode (hex_byte b @ hex_encode bs) = word_of_nat (16 * (unat b div 16) + unat b mod 16) # bs"
    using Cons.IH by (simp add: hex_byte_def hex_value_digit)
  then show ?case by (simp add: hex_encode_def)
qed

lemma verifyPayload_iff:
  "verifyPayload hm ps payload signature secret \<longleftrightarrow>
     hex_decode signature = hm secret (stringify ps (canonicalize payload))"
  by (auto simp: verifyPayload_def signPayload_def Let_def)

text \<open>Two values that differ in the order of the members of their objects, at any depth.\<close>

inductive same_json :: "json \<Rightarrow> json \<Rightarrow> bool" where
  refl: "same_json j j"
| arr: "list_all2 same_json vs vs' \<Longrightarrow> same_json (JArr vs) (JArr vs')"
| obj: "distinct (map fst kvs) \<Longrightarrow> list_all2 (\<lambda>a b. fst a = fst b \<and> same_json (snd a) (snd b)) kvs kvs' \<Longrightarrow>
     mset kvs'' = mset kvs' \<Longrightarrow> same_json (JObj kvs) (JObj kvs'')"
monos list_all2_mono

lemma sort_by_keys_unique:
  assumes m: "mset xs = mset ys" and d: "distinct (map fst (xs :: (string \<times> 'b) list))"
  shows "sort_by (\<lambda>a b. fst a \<le> fst b) xs = sort_by (\<lambda>a b. fst a \<le> fst b) ys"
proof -
  let ?le = "\<lambda>a b. fst a \<le> (fst b :: string)"
  have strict: "sorted_wrt ?le zs \<Longrightarrow> distinct (map fst zs) \<Longrightarrow> sorted_wrt (\<lambda>a b. fst a < fst b) zs"
    for zs :: "(string \<times> 'b) list"
    by (induction zs) (auto simp: order_le_less image_iff)
  have s: "sorted_wrt ?le (sort_by ?le zs)" for zs :: "(string \<times> 'b) list"
    by (rule sorted_sort_by) auto
  have dist: "distinct (map fst (sort_by ?le zs))" if "mset zs = mset xs" for zs
  proof -
    have "mset (map fst (sort_by ?le zs)) = mset (map fst xs)" using that by simp
    with d show ?thesis using mset_eq_imp_distinct_iff by blast
  qed
  have uniq: "as = bs" if "sorted_wrt (\<lambda>a b. fst a < fst b) as" "sorted_wrt (\<lambda>a b. fst a < fst b) bs"
      "set as = set bs" for as bs :: "(string \<times> 'b) list"
    using that
  proof (induction as arbitrary: bs)
    case Nil
    then show ?case by simp
  next
    case (Cons a as)
    then obtain b bs' where bs: "bs = b # bs'" by (cases bs) auto
    have "a = b"
    proof (rule ccontr)
      assume "a \<noteq> b"
      with Cons.prems bs have "a \<in> set bs'" "b \<in> set as" by auto
      with Cons.prems bs show False by (auto dest: less_asym)
    qed
    moreover from this have "set as = set bs'"
      using Cons.prems bs by (auto simp: set_eq_iff) (metis less_irrefl)+
    ultimately show ?case using Cons bs by auto
  qed
  show ?thesis
  proof (rule uniq)
    show "set (sort_by ?le xs) = set (sort_by ?le ys)" using mset_eq_setD [OF m] by simp
  qed (rule strict [OF s dist]; use m in simp)+
qed

lemma canonicalize_same_json: "same_json j j' \<Longrightarrow> canonicalize j = canonicalize j'"
proof (induction rule: same_json.induct)
  case (refl j)
  then show ?case by simp
next
  case (arr vs vs')
  have "map canonicalize vs = map canonicalize vs'"
    using arr.IH by (induction rule: list_all2_induct) auto
  then show ?case by simp
next
  case (obj kvs kvs' kvs'')
  let ?c = "map (map_prod id canonicalize)"
  have eq: "?c kvs = ?c kvs'"
    using obj.IH by (induction rule: list_all2_induct) (auto simp: prod_eq_iff)
  moreover have "mset (?c kvs') = mset (?c kvs'')"
    using obj.hyps by simp
  moreover have "distinct (map fst (?c kvs'))"
    using obj.hyps by (simp add: eq [symmetric] comp_def)
  ultimately show ?case by (simp add: sort_by_keys_unique)
qed


section \<open>The delay before a retry\<close>

text \<open>
  The arithmetic is that of doubles: \<open>fl\<close> rounds an exact result to a double.  \<open>rnd\<close> is the value of
  \<open>Math.random()\<close>.  \<open>Math.round\<close> is the floor of the number plus a half.
\<close>

definition js_round :: "rat \<Rightarrow> int" where
  "js_round x = \<lfloor>x + 1 / 2\<rfloor>"

definition calculateRetryDelay :: "(rat \<Rightarrow> rat) \<Rightarrow> app_config \<Rightarrow> rat \<Rightarrow> nat \<Rightarrow> int" where
  "calculateRetryDelay fl cfg rnd attempt =
     (let exponential = fl (of_int (webhookRetryBaseDelayMs cfg) * 2 ^ attempt);
          jitter = fl (fl (rnd * exponential) * fl (3 / 10))
      in min (js_round (fl (exponential + jitter))) 86400000)"

lemma js_round_mono: "x \<le> y \<Longrightarrow> js_round x \<le> js_round y"
  by (simp add: js_round_def floor_mono)

lemma js_round_int [simp]: "js_round (of_int k) = k"
proof -
  have "\<lfloor>of_int k + (1 / 2 :: rat)\<rfloor> = k" by (rule floor_unique) simp_all
  then show ?thesis by (simp add: js_round_def)
qed

lemma calculateRetryDelay_bounds:
  assumes fl: "rounding_laws fl" and base: "0 \<le> webhookRetryBaseDelayMs cfg"
    and small: "webhookRetryBaseDelayMs cfg * 2 ^ attempt \<le> 2 ^ 52" and rnd: "0 \<le> rnd" "rnd < 1"
  defines "e \<equiv> webhookRetryBaseDelayMs cfg * 2 ^ attempt"
  shows "min e 86400000 \<le> calculateRetryDelay fl cfg rnd attempt"
    and "calculateRetryDelay fl cfg rnd attempt \<le> min (2 * e) 86400000"
proof -
  have e: "0 \<le> e" "e \<le> 2 ^ 52" using base small by (simp_all add: e_def)
  have ex: "fl (of_int k) = of_int k" if "0 \<le> k" "k \<le> 2 ^ 53" for k :: int
    by (rule rounding_lawsD(2) [OF fl]) (use that in simp)
  have fe: "fl (of_int e) = of_int e" "fl 0 = 0" "fl 1 = 1" "fl (of_int (2 * e)) = of_int (2 * e)"
    using ex [of e] ex [of 0] ex [of 1] ex [of "2 * e"] e by simp_all
  have exp: "fl (of_int (webhookRetryBaseDelayMs cfg) * 2 ^ attempt) = of_int e"
    using fe(1) by (simp add: e_def)
  let ?r = "fl (rnd * of_int e)" and ?c = "fl (3 / 10)"
  have "rnd * of_int e \<le> 1 * (of_int e :: rat)"
    by (rule mult_right_mono) (use rnd e in simp_all)
  then have r: "0 \<le> ?r" "?r \<le> of_int e"
    using rounding_lawsD(1) [OF fl, of 0 "rnd * of_int e"] rounding_lawsD(1) [OF fl, of "rnd * of_int e" "of_int e"]
      rnd e fe by simp_all
  have c: "0 \<le> ?c" "?c \<le> 1"
    using rounding_lawsD(1) [OF fl, of 0 "3 / 10"] rounding_lawsD(1) [OF fl, of "3 / 10" 1] fe by simp_all
  have "?r * ?c \<le> of_int e * 1"
    by (rule mult_mono) (use r c e in simp_all)
  then have j: "0 \<le> fl (?r * ?c)" "fl (?r * ?c) \<le> of_int e"
    using rounding_lawsD(1) [OF fl, of 0 "?r * ?c"] rounding_lawsD(1) [OF fl, of "?r * ?c" "of_int e"] r c fe
    by simp_all
  have s: "of_int e \<le> fl (of_int e + fl (?r * ?c))" "fl (of_int e + fl (?r * ?c)) \<le> of_int (2 * e)"
    using rounding_lawsD(1) [OF fl, of "of_int e" "of_int e + fl (?r * ?c)"]
      rounding_lawsD(1) [OF fl, of "of_int e + fl (?r * ?c)" "of_int (2 * e)"] j fe by simp_all
  have "js_round (of_int e) \<le> js_round (fl (of_int e + fl (?r * ?c)))"
    "js_round (fl (of_int e + fl (?r * ?c))) \<le> js_round (of_int (2 * e))"
    by (rule js_round_mono, rule s)+
  then show "min e 86400000 \<le> calculateRetryDelay fl cfg rnd attempt"
    "calculateRetryDelay fl cfg rnd attempt \<le> min (2 * e) 86400000"
    unfolding calculateRetryDelay_def Let_def exp js_round_int by linarith+
qed


section \<open>Blocked addresses\<close>

text \<open>The regular expressions the block list uses, anchored at the start; the flag is \<open>i\<close>.\<close>

datatype pat = Lit string | Cls "char list" | Digits | Opt pat | Seq pat pat | Alt pat pat

definition same_char :: "bool \<Rightarrow> char \<Rightarrow> char \<Rightarrow> bool" where
  "same_char ci c d \<longleftrightarrow> (if ci then lower_char c = lower_char d else c = d)"

fun strip :: "bool \<Rightarrow> string \<Rightarrow> string \<Rightarrow> string list" where
  "strip ci [] s = [s]"
| "strip ci (c # cs) [] = []"
| "strip ci (c # cs) (d # ds) = (if same_char ci c d then strip ci cs ds else [])"

fun digit_rests :: "string \<Rightarrow> string list" where
  "digit_rests [] = []"
| "digit_rests (c # s) = (if is_digit c then s # digit_rests s else [])"

fun class_rests :: "bool \<Rightarrow> char list \<Rightarrow> string \<Rightarrow> string list" where
  "class_rests ci cs [] = []"
| "class_rests ci cs (c # s) = (if list_ex (\<lambda>d. same_char ci d c) cs then [s] else [])"

text \<open>What may follow a match.\<close>

primrec rests :: "bool \<Rightarrow> pat \<Rightarrow> string \<Rightarrow> string list" where
  "rests ci (Lit l) s = strip ci l s"
| "rests ci (Cls cs) s = class_rests ci cs s"
| "rests ci Digits s = digit_rests s"
| "rests ci (Opt p) s = rests ci p s @ [s]"
| "rests ci (Seq p q) s = concat (map (rests ci q) (rests ci p s))"
| "rests ci (Alt p q) s = rests ci p s @ rests ci q s"

definition scheme :: pat where
  "scheme = Seq (Lit ''http'') (Seq (Opt (Lit ''s'')) (Lit ''://''))"

definition dot_digits :: pat where
  "dot_digits = Seq (Lit ''.'') Digits"

definition hex_chars :: string where
  "hex_chars = ''0123456789abcdef''"

definition SSRF_BLOCKED_PATTERNS :: "(bool \<times> pat) list" where
  "SSRF_BLOCKED_PATTERNS = [
     (True, Seq scheme (Lit ''localhost'')),
     (False, Seq scheme (Lit ''127.'')),
     (False, Seq scheme (Seq (Lit ''0'') (Seq dot_digits (Seq dot_digits dot_digits)))),
     (False, Seq scheme (Seq (Lit ''10'') (Seq dot_digits (Seq dot_digits dot_digits)))),
     (False, Seq scheme (Seq (Lit ''172.'')
        (Seq (Alt (Seq (Lit ''1'') (Cls ''6789'')) (Alt (Seq (Lit ''2'') (Cls ''0123456789''))
                                                    (Seq (Lit ''3'') (Cls ''01''))))
          (Seq dot_digits dot_digits)))),
     (False, Seq scheme (Lit ''192.168.'')),
     (False, Seq scheme (Lit ''169.254.'')),
     (False, Seq scheme (Lit ''[::1]'')),
     (True, Seq scheme (Seq (Lit ''[fc'') (Seq (Cls hex_chars) (Seq (Cls hex_chars) (Lit '':''))))),
     (True, Seq scheme (Seq (Lit ''[fd'') (Seq (Cls hex_chars) (Seq (Cls hex_chars) (Lit '':''))))),
     (True, Seq scheme (Lit ''metadata.google.internal'')),
     (False, Seq scheme (Lit ''169.254.169.254''))]"

definition isBlockedUrl :: "string \<Rightarrow> bool" where
  "isBlockedUrl url = list_ex (\<lambda>re. rests (fst re) (snd re) url \<noteq> []) SSRF_BLOCKED_PATTERNS"

lemma strip_append [simp]: "strip ci l (l @ s) = [s]"
  by (induction l) (simp_all add: same_char_def)

lemma scheme_rests: "rests ci scheme (''http://'' @ s) = [s]" "rests ci scheme (''https://'' @ s) = [s]"
  by (simp_all add: scheme_def same_char_def lower_char_def less_eq_char_def)

lemma digit_rests_digits: "digit_rests (digits_of n @ s) \<noteq> [] \<and> s \<in> set (digit_rests (digits_of n @ s))"
proof -
  have "s \<in> set (digit_rests (ds @ s))" if "ds \<noteq> []" "\<forall>c \<in> set ds. is_digit c" for ds
    using that
  proof (induction ds)
    case (Cons c ds)
    then show ?case by (cases "ds = []") auto
  qed simp
  then have "s \<in> set (digit_rests (digits_of n @ s))"
    using digits_of_digits by simp
  then show ?thesis by force
qed

text \<open>The addresses the list is there for: loopback, private, link-local and "this network".\<close>

definition private_ip4 :: "nat \<Rightarrow> nat \<Rightarrow> bool" where
  "private_ip4 a b \<longleftrightarrow> a = 0 \<or> a = 10 \<or> a = 127 \<or> a = 169 \<and> b = 254
     \<or> a = 172 \<and> 16 \<le> b \<and> b \<le> 31 \<or> a = 192 \<and> b = 168"

definition ip4_string :: "nat \<Rightarrow> nat \<Rightarrow> nat \<Rightarrow> nat \<Rightarrow> string" where
  "ip4_string a b c d =
     digits_of a @ ''.'' @ digits_of b @ ''.'' @ digits_of c @ ''.'' @ digits_of d"

lemma rests_SeqI:
  "t \<in> set (rests ci p s) \<Longrightarrow> u \<in> set (rests ci q t) \<Longrightarrow> u \<in> set (rests ci (Seq p q) s)"
  by auto

lemma rests_scheme: "sch = ''http://'' \<or> sch = ''https://'' \<Longrightarrow> s \<in> set (rests ci scheme (sch @ s))"
  by (elim disjE) (simp_all only: scheme_rests list.set insert_iff simp_thms)

lemma rests_Lit: "s \<in> set (rests ci (Lit l) (l @ s))"
  by simp

lemma rests_dot_digits: "s \<in> set (rests ci dot_digits (''.'' @ digits_of n @ s))"
  unfolding dot_digits_def by (rule rests_SeqI, rule rests_Lit) (use digit_rests_digits [of n s] in simp)

lemma isBlockedUrlI: "(ci, p) \<in> set SSRF_BLOCKED_PATTERNS \<Longrightarrow> u \<in> set (rests ci p url) \<Longrightarrow> isBlockedUrl url"
  unfolding isBlockedUrl_def list_ex_iff by force

text \<open>A pattern of the list that starts with the scheme.\<close>

lemma blocked_after_scheme:
  assumes "(ci, Seq scheme p) \<in> set SSRF_BLOCKED_PATTERNS" and "sch = ''http://'' \<or> sch = ''https://''"
    and "u \<in> set (rests ci p s)"
  shows "isBlockedUrl (sch @ s)"
  by (rule isBlockedUrlI [OF assms(1)], rule rests_SeqI [OF rests_scheme [OF assms(2)] assms(3)])

lemma digits_of_fixed:
  "digits_of 0 = ''0''" "digits_of 10 = ''10''" "digits_of 127 = ''127''" "digits_of 169 = ''169''"
  "digits_of 254 = ''254''" "digits_of 172 = ''172''" "digits_of 192 = ''192''" "digits_of 168 = ''168''"
  by code_simp+

text \<open>The decimal digits of 16 to 31, as the class of the pattern for 172.16/12 has them.\<close>

definition in_172 :: "string \<Rightarrow> bool" where
  "in_172 s = (case s of
      [x, y] \<Rightarrow> x = CHR ''1'' \<and> list_ex ((=) y) ''6789'' \<or> x = CHR ''2'' \<and> list_ex ((=) y) ''0123456789''
                \<or> x = CHR ''3'' \<and> list_ex ((=) y) ''01''
    | _ \<Rightarrow> False)"

lemma in_172_digits:
  assumes "16 \<le> b" "b \<le> 31"
  shows "in_172 (digits_of b)"
proof -
  have "list_all (\<lambda>b. in_172 (digits_of b)) [16..<32]" by code_simp
  moreover have "b \<in> set [16..<32]"
    using assms unfolding set_upt atLeastLessThan_iff by linarith
  ultimately show ?thesis unfolding list_all_iff by (rule bspec)
qed

lemma digits_of_172:
  assumes "16 \<le> b" "b \<le> 31"
  shows "t \<in> set (rests False (Alt (Seq (Lit ''1'') (Cls ''6789'')) (Alt (Seq (Lit ''2'') (Cls ''0123456789''))
                                                    (Seq (Lit ''3'') (Cls ''01'')))) (digits_of b @ t))"
proof -
  have ci: "same_char False = (=)" by (intro ext) (simp add: same_char_def)
  obtain x y where xy: "digits_of b = [x, y]"
    using in_172_digits [OF assms] by (auto simp: in_172_def split: list.splits)
  show ?thesis
    using in_172_digits [OF assms] unfolding xy in_172_def by (auto simp: ci eq_commute)
qed
lemma private_ip4_blocked:
  assumes p: "private_ip4 a b" and sch: "sch = ''http://'' \<or> sch = ''https://''"
  shows "isBlockedUrl (sch @ ip4_string a b c d @ s)"
proof -
  let ?three = "''.'' @ digits_of b @ ''.'' @ digits_of c @ ''.'' @ digits_of d @ s"
  have three: "s \<in> set (rests False (Seq (Lit l) (Seq dot_digits (Seq dot_digits dot_digits))) (l @ ?three))" for l
    by (intro rests_SeqI [OF rests_Lit] rests_SeqI [OF rests_dot_digits] rests_dot_digits)
  from p show ?thesis
    unfolding private_ip4_def
  proof (elim disjE conjE)
    assume "a = 0"
    then have eq: "ip4_string a b c d @ s = ''0'' @ ?three"
      by (simp add: ip4_string_def digits_of_fixed)
    show ?thesis
      unfolding eq by (rule blocked_after_scheme [OF _ sch three]) (simp add: SSRF_BLOCKED_PATTERNS_def)
  next
    assume "a = 10"
    then have eq: "ip4_string a b c d @ s = ''10'' @ ?three"
      by (simp add: ip4_string_def digits_of_fixed)
    show ?thesis
      unfolding eq by (rule blocked_after_scheme [OF _ sch three]) (simp add: SSRF_BLOCKED_PATTERNS_def)
  next
    assume "a = 127"
    then have eq: "ip4_string a b c d @ s = ''127.'' @ digits_of b @ ''.'' @ digits_of c @ ''.'' @ digits_of d @ s"
      by (simp add: ip4_string_def digits_of_fixed)
    show ?thesis
      unfolding eq by (rule blocked_after_scheme [OF _ sch rests_Lit [where ci = False]]) (simp add: SSRF_BLOCKED_PATTERNS_def)
  next
    assume "a = 169" "b = 254"
    then have eq: "ip4_string a b c d @ s = ''169.254.'' @ digits_of c @ ''.'' @ digits_of d @ s"
      by (simp add: ip4_string_def digits_of_fixed)
    show ?thesis
      unfolding eq by (rule blocked_after_scheme [OF _ sch rests_Lit [where ci = False]]) (simp add: SSRF_BLOCKED_PATTERNS_def)
  next
    assume a: "a = 172" and b: "16 \<le> b" "b \<le> 31"
    let ?two = "''.'' @ digits_of c @ ''.'' @ digits_of d @ s"
    have u: "s \<in> set (rests False (Seq (Lit ''172.'')
        (Seq (Alt (Seq (Lit ''1'') (Cls ''6789'')) (Alt (Seq (Lit ''2'') (Cls ''0123456789''))
                                                    (Seq (Lit ''3'') (Cls ''01''))))
          (Seq dot_digits dot_digits))) (''172.'' @ digits_of b @ ?two))"
      by (intro rests_SeqI [OF rests_Lit] rests_SeqI [OF digits_of_172 [OF b]]
          rests_SeqI [OF rests_dot_digits] rests_dot_digits)
    have eq: "ip4_string a b c d @ s = ''172.'' @ digits_of b @ ?two"
      by (simp add: ip4_string_def digits_of_fixed a)
    show ?thesis
      unfolding eq by (rule blocked_after_scheme [OF _ sch u]) (simp add: SSRF_BLOCKED_PATTERNS_def)
  next
    assume "a = 192" "b = 168"
    then have eq: "ip4_string a b c d @ s = ''192.168.'' @ digits_of c @ ''.'' @ digits_of d @ s"
      by (simp add: ip4_string_def digits_of_fixed)
    show ?thesis
      unfolding eq by (rule blocked_after_scheme [OF _ sch rests_Lit [where ci = False]]) (simp add: SSRF_BLOCKED_PATTERNS_def)
  qed
qed



section \<open>The dispatcher\<close>

text \<open>The columns the query selects are those the delivery reads.\<close>

definition select_subscriptions :: "string \<Rightarrow> subscription_row list stmt" where
  "select_subscriptions eventType d =
     Inr (filter (\<lambda>sub. sub_active sub \<and> eventType \<in> set (sub_event_types sub)) (db_subscriptions d), d)"

definition insert_delivery :: "delivery_row \<Rightarrow> unit stmt" where
  "insert_delivery r d =
     require [
       (length (wd_event_id r) \<le> 64, ValueTooLong ''webhook_deliveries.event_id''),
       (int4 (wd_status r), NumericOutOfRange ''webhook_deliveries.status''),
       (wd_subscription r \<in> sub_id ` set (db_subscriptions d),
          ForeignKeyViolation ''webhook_deliveries_subscription_id_fkey'')]
     ((), d\<lparr>db_deliveries := db_deliveries d @ [r]\<rparr>)"

record webhook_payload =
  wp_eventType :: string
  wp_aggregateId :: string
  wp_payload :: "(string \<times> json) list"
  wp_timestamp :: string

definition payload_json :: "webhook_payload \<Rightarrow> json" where
  "payload_json p =
     JObj [(''eventType'', JStr (wp_eventType p)), (''aggregateId'', JStr (wp_aggregateId p)),
           (''payload'', JObj (wp_payload p)), (''timestamp'', JStr (wp_timestamp p))]"

text \<open>It logs what it cannot record.\<close>

definition recordDelivery :: "string \<Rightarrow> string \<Rightarrow> int \<Rightarrow> string \<Rightarrow> unit io" where
  "recordDelivery subscriptionId aggregateId status responseBody =
     catchM (sqlM Pool (insert_delivery
               \<lparr>wd_subscription = subscriptionId, wd_event_id = aggregateId, wd_status = status,
                wd_body = take 2000 responseBody\<rparr>))
       (\<lambda>err. ret ())"

definition delivery_request ::
    "hmac \<Rightarrow> (rat \<Rightarrow> string) \<Rightarrow> app_config \<Rightarrow> subscription_row \<Rightarrow> webhook_payload \<Rightarrow> http_request" where
  "delivery_request hm ps cfg sub p =
     \<lparr>rq_url = sub_url sub,
      rq_headers = [(''Content-Type'', ''application/json''),
                    (webhookSecretHeader cfg, signPayload hm ps (payload_json p) (sub_secret sub)),
                    (''X-Event-Type'', wp_eventType p),
                    (''X-Delivery-Timestamp'', wp_timestamp p)],
      rq_body = Text (stringify ps (payload_json p))\<rparr>"

text \<open>The \<open>catch\<close> block; \<open>httpStatus\<close> and \<open>responseBody\<close> are the values the variables have by then.\<close>

definition delivery_failed ::
    "subscription_row \<Rightarrow> webhook_payload \<Rightarrow> int \<Rightarrow> string \<Rightarrow> error \<Rightarrow> unit io" where
  "delivery_failed sub p httpStatus responseBody err =
     thenM (increment ''webhook.delivered'' [(''status'', ''failed'')])
     (thenM (catchM (recordDelivery (sub_id sub) (wp_aggregateId p) httpStatus responseBody) (\<lambda>_. ret ()))
     (throw err))"

definition deliver ::
    "hmac \<Rightarrow> (rat \<Rightarrow> string) \<Rightarrow> app_config \<Rightarrow> webhook_payload \<Rightarrow> subscription_row \<Rightarrow> unit io" where
  "deliver hm ps cfg p sub =
     (if isBlockedUrl (sub_url sub) then ret ()
      else bindM nowM (\<lambda>startTime.
           bindM (fetchM (delivery_request hm ps cfg sub p)) (\<lambda>res.
           case res of
             NetworkError msg \<Rightarrow> delivery_failed sub p (-1) [] (IoError msg)
           | Response response \<Rightarrow>
               (let httpStatus = http_status response;
                    responseBody = (case http_text response of Some t \<Rightarrow> t | None \<Rightarrow> [])
                in bindM nowM (\<lambda>t.
                   thenM (recordHistogram ''webhook.delivery.duration'' (t - startTime)
                            [(''status_code'', int_string httpStatus)])
                   (thenM (recordDelivery (sub_id sub) (wp_aggregateId p) httpStatus responseBody)
                   (if \<not> http_ok response
                    then delivery_failed sub p httpStatus responseBody
                           (JsError (''Webhook delivery failed: HTTP '' @ int_string httpStatus
                                     @ '' from '' @ sub_url sub))
                    else increment ''webhook.delivered'' [(''status'', ''success'')])))))))"

text \<open>
  \<open>Promise.allSettled\<close> runs the deliveries concurrently; they share nothing but the tables, so that
  they are run here one after the other.
\<close>

definition dispatch ::
    "hmac \<Rightarrow> (rat \<Rightarrow> string) \<Rightarrow> (int \<Rightarrow> string) \<Rightarrow> app_config \<Rightarrow> string \<Rightarrow> string \<Rightarrow> (string \<times> json) list \<Rightarrow> unit io" where
  "dispatch hm ps toISOString cfg eventType aggregateId payload =
     bindM (sqlM Pool (select_subscriptions eventType)) (\<lambda>subscriptions.
     if subscriptions = [] then ret ()
     else bindM nowM (\<lambda>t.
          let webhookPayload = \<lparr>wp_eventType = eventType, wp_aggregateId = aggregateId,
                                wp_payload = payload, wp_timestamp = toISOString t\<rparr>
          in all_settled (map (deliver hm ps cfg webhookPayload) subscriptions)))"


section \<open>What the dispatcher does\<close>

lemma upholds_recordDelivery [upholds_intros]: "upholds (on_db (commits L)) (recordDelivery s a h b)"
  unfolding recordDelivery_def
proof (intro upholds_intros preord_on_db preord_rtranclp upholds_stmt)
  show "d' = d \<or> commit L d d'"
    if "insert_delivery r d = Inr (u, d')" for r d u d'
    using that unfolding insert_delivery_def require_Inr_iff by (auto intro: commit.delivery_recorded)
qed

lemma upholds_deliver [upholds_intros]: "upholds (on_db (commits L)) (deliver hm ps cfg p sub)"
proof -
  have failed: "upholds (on_db (commits L)) (delivery_failed sub p h b e)" for h b e
    unfolding delivery_failed_def by (intro upholds_intros preord_on_db preord_rtranclp)
  show ?thesis
    unfolding deliver_def Let_def
    by (intro upholds_intros preord_on_db ticks_on_db preord_rtranclp failed)
qed

lemma upholds_dispatch [upholds_intros]: "upholds (on_db (commits L)) (dispatch hm ps dt cfg ty a pl)"
proof -
  have "stmt_in (=) (select_subscriptions ty)"
    by (auto simp: stmt_in_def select_subscriptions_def)
  then show ?thesis
    unfolding dispatch_def Let_def
    by (intro upholds_intros preord_on_db ticks_on_db preord_rtranclp upholds_eq_on_db [OF upholds_select])
      (auto intro: upholds_deliver)
qed

text \<open>The requests of the program that are on record: only to addresses that are not blocked.\<close>

definition sends_allowed :: "world \<Rightarrow> world \<Rightarrow> bool" where
  "sends_allowed w w' \<longleftrightarrow>
     (\<exists>rqs. w_sent w' = w_sent w @ rqs \<and> (\<forall>rq \<in> set rqs. \<not> isBlockedUrl (rq_url rq)))"

lemma preord_sends_allowed [intro, simp]: "preord sends_allowed"
  unfolding preord_def
proof (intro conjI allI impI)
  show "sends_allowed s s" for s by (simp add: sends_allowed_def)
  show "sends_allowed s u" if "sends_allowed s t" "sends_allowed t u" for s t u
    using that unfolding sends_allowed_def by (metis Un_iff append.assoc set_append)
qed

lemma sends_allowed_same: "w_sent w' = w_sent w \<Longrightarrow> sends_allowed w w'"
  by (simp add: sends_allowed_def)

lemma upholds_sends_sql [upholds_intros]: "upholds sends_allowed (sqlM Pool st)"
proof (rule upholdsI)
  have "wp (sqlM Pool st) (\<lambda>_ w'. w_sent w' = w_sent w) w" for w
    by (rule wp_sql_worldI) simp_all
  then show "sends_allowed w (snd (sqlM Pool st w))" for w
    by (simp add: wp_def sends_allowed_same)
qed

lemma upholds_sends_basic [upholds_intros]:
  "upholds sends_allowed nowM" "upholds sends_allowed (increment n l)"
  "upholds sends_allowed (recordHistogram n v l)"
  by (simp_all add: upholds_def nowM_def increment_def recordHistogram_def modifyM_def sends_allowed_same)

lemma upholds_sends_fetch: "\<not> isBlockedUrl (rq_url rq) \<Longrightarrow> upholds sends_allowed (fetchM rq)"
  by (simp add: upholds_def fetchM_def Let_def sends_allowed_def split: fault.split)

lemma upholds_sends_deliver: "upholds sends_allowed (deliver hm ps cfg p sub)"
proof (cases "isBlockedUrl (sub_url sub)")
  case True
  then show ?thesis by (simp add: deliver_def upholds_ret)
next
  case False
  have failed: "upholds sends_allowed (delivery_failed sub p h b e)" for h b e
    unfolding delivery_failed_def recordDelivery_def by (intro upholds_intros preord_sends_allowed)
  show ?thesis
    using False unfolding deliver_def Let_def recordDelivery_def
    by simp (intro upholds_intros preord_sends_allowed upholds_sends_fetch failed; simp add: delivery_request_def)
qed

lemma upholds_sends_dispatch: "upholds sends_allowed (dispatch hm ps dt cfg ty a pl)"
  unfolding dispatch_def Let_def
  by (intro upholds_intros preord_sends_allowed) (auto intro: upholds_sends_deliver)


section \<open>The requests a dispatch sends\<close>

text \<open>A program that sends no request and, where nothing fails, does not die.\<close>

definition hushed :: "world \<Rightarrow> 'a res \<Rightarrow> world \<Rightarrow> bool" where
  "hushed w r w' \<longleftrightarrow> w_env w' = w_env w \<and> w_sent w' = w_sent w \<and> (quiet w \<longrightarrow> r \<noteq> Crashed)"

definition silent :: "'a io \<Rightarrow> bool" where
  "silent m \<longleftrightarrow> (\<forall>w. wp m (hushed w) w)"

text \<open>The requests \<open>rqs\<close> were tried in their order: those that did not get lost were sent, all of them
  when nothing fails.\<close>

definition posted :: "http_request list \<Rightarrow> world \<Rightarrow> 'a res \<Rightarrow> world \<Rightarrow> bool" where
  "posted rqs w r w' \<longleftrightarrow> w_env w' = w_env w
     \<and> (\<exists>xs. subseq xs rqs \<and> w_sent w' = w_sent w @ xs \<and> (quiet w \<longrightarrow> xs = rqs \<and> r \<noteq> Crashed))"

lemma hushed_trans:
  assumes "hushed w a w1" and "hushed w1 r w2"
  shows "hushed w r w2"
proof -
  have "quiet w1 = quiet w" using assms by (simp add: hushed_def quiet_def)
  with assms show ?thesis by (simp add: hushed_def)
qed

lemma posted_append:
  assumes "posted as w (Ok a) w1" and "posted bs w1 r w2"
  shows "posted (as @ bs) w r w2"
proof -
  obtain xs ys where *: "w_env w1 = w_env w" "subseq xs as" "w_sent w1 = w_sent w @ xs" "quiet w \<longrightarrow> xs = as"
    "w_env w2 = w_env w1" "subseq ys bs" "w_sent w2 = w_sent w1 @ ys" "quiet w1 \<longrightarrow> ys = bs \<and> r \<noteq> Crashed"
    using assms by (auto simp: posted_def)
  have "subseq (xs @ ys) (as @ bs)" using *(2,6) by (rule list_emb_append_mono)
  moreover have "quiet w1 = quiet w" using *(1) by (simp add: quiet_def)
  ultimately show ?thesis using * unfolding posted_def by (intro conjI exI [of _ "xs @ ys"]) simp_all
qed

lemma posted_Crashed:
  assumes "posted as w Crashed w1"
  shows "posted (as @ bs) w Crashed w1"
proof -
  obtain xs where *: "w_env w1 = w_env w" "subseq xs as" "w_sent w1 = w_sent w @ xs" "\<not> quiet w"
    using assms by (auto simp: posted_def)
  have "subseq xs (as @ bs)" using *(2) by (simp add: subseq_rev_drop_many list_emb_append_mono [of _ xs as "[]" bs, simplified])
  with * show ?thesis by (auto simp: posted_def)
qed

lemma hushed_posted: "posted as w (Ok a) w1 \<Longrightarrow> hushed w1 r w2 \<Longrightarrow> posted as w r w2"
  unfolding posted_def hushed_def quiet_def by auto

lemma silent_basic [intro]:
  "silent (ret a)" "silent (throw e)" "silent nowM" "silent (increment n l)" "silent (recordHistogram n v l)"
  by (simp_all add: silent_def hushed_def wp_rules tick_def)

lemma silent_sql [intro]: "silent (sqlM Pool st)"
  unfolding silent_def sqlM_def wp_ioM
  by (auto simp: wp_def hushed_def quiet_def tick_def put_view_def split: fault.split sum.split prod.split)
    (metis fault.distinct)+

lemma silent_bindM [intro]:
  assumes "silent m" and "\<And>a. silent (k a)"
  shows "silent (bindM m k)"
  unfolding silent_def wp_bindM
proof (intro allI wp_mono [OF assms(1) [unfolded silent_def, THEN spec]], goal_cases)
  case (1 w r w1)
  show ?case
  proof (cases r)
    case (Ok a)
    show ?thesis
      unfolding Ok res.case
      by (rule wp_mono [OF assms(2) [unfolded silent_def, THEN spec] hushed_trans [OF 1]])
  qed (use 1 in \<open>simp_all add: hushed_def\<close>)
qed

lemma silent_catchM [intro]:
  assumes "silent m" and "\<And>e. silent (h e)"
  shows "silent (catchM m h)"
  unfolding silent_def wp_catchM
proof (intro allI wp_mono [OF assms(1) [unfolded silent_def, THEN spec]], goal_cases)
  case (1 w r w1)
  show ?case
  proof (cases r)
    case (Throw e)
    show ?thesis
      unfolding Throw res.case
      by (rule wp_mono [OF assms(2) [unfolded silent_def, THEN spec] hushed_trans [OF 1]])
  qed (use 1 in \<open>simp_all add: hushed_def\<close>)
qed

lemma silent_thenM [intro]: "silent m \<Longrightarrow> silent n \<Longrightarrow> silent (thenM m n)"
  unfolding thenM_def by (rule silent_bindM)

lemma wp_fetch_posted: "wp (fetchM rq) (\<lambda>r w'. (\<exists>res. r = Ok res \<and> posted [rq] w r w') \<or> r = Crashed \<and> posted [rq] w r w') w"
proof -
  have "posted [rq] w r (w\<lparr>w_tick := n, w_sent := w_sent w @ [rq]\<rparr>)" if "quiet w \<longrightarrow> r \<noteq> Crashed" for r :: "http_result res" and n
    using that by (auto simp: posted_def intro!: exI [of _ "[rq]"])
  moreover have "posted [rq] w r (w\<lparr>w_tick := n\<rparr>)" if "\<not> quiet w" for r :: "http_result res" and n
    using that by (auto simp: posted_def)
  ultimately show ?thesis
    unfolding wp_def fetchM_def Let_def
    by (cases "e_fault (w_env w) (w_tick w)") (auto simp: tick_def quiet_def, (metis fault.distinct)+)
qed

lemma posted_result: "posted as w r w1 \<Longrightarrow> (r' = Crashed \<Longrightarrow> r = Crashed) \<Longrightarrow> posted as w r' w1"
  by (auto simp: posted_def)

lemma posted_fetch:
  assumes "\<And>res. silent (k res)"
  shows "wp (bindM (fetchM rq) k) (posted [rq] w) w"
  unfolding wp_bindM
proof (rule wp_mono [OF wp_fetch_posted], goal_cases)
  case (1 r w1)
  then show ?case
  proof (elim disjE exE conjE)
    fix res
    assume r: "r = Ok res" "posted [rq] w r w1"
    show ?thesis
      unfolding r(1) res.case
      by (rule wp_mono [OF assms [unfolded silent_def, THEN spec]]) (rule hushed_posted [OF r(2) [unfolded r(1)]])
  qed (simp add: posted_result)
qed

lemma silent_recordDelivery [intro]: "silent (recordDelivery s a h b)"
  unfolding recordDelivery_def by (intro silent_catchM silent_sql silent_basic)

lemma silent_delivery_failed [intro]: "silent (delivery_failed sub p h b e)"
  unfolding delivery_failed_def by (intro silent_thenM silent_catchM silent_recordDelivery silent_basic)

lemma deliver_posted:
  "wp (deliver hm ps cfg p sub)
     (posted (if isBlockedUrl (sub_url sub) then [] else [delivery_request hm ps cfg sub p]) w) w"
proof (cases "isBlockedUrl (sub_url sub)")
  case True
  then show ?thesis by (simp add: deliver_def wp_ret posted_def)
next
  case False
  let ?k = "\<lambda>startTime. bindM (fetchM (delivery_request hm ps cfg sub p))"
  have "posted rqs w r w'" if "posted rqs (tick w) r w'" for rqs and r :: "unit res" and w'
    using that by (simp add: posted_def tick_def quiet_def)
  moreover have "silent (if c then m else n)" if "silent m" "silent n" for c and m n :: "unit io"
    using that by simp
  ultimately show ?thesis
    unfolding deliver_def if_not_P [OF False] wp_bindM [of nowM] wp_nowM res.case Let_def
    by (intro wp_mono [OF posted_fetch])
      (auto intro!: silent_bindM silent_thenM silent_basic simp: silent_recordDelivery silent_delivery_failed split: http_result.split)
qed

lemma all_settled_posted:
  assumes "\<And>x w. x \<in> set xs \<Longrightarrow> wp (m x) (posted (rqs x) w) w"
  shows "wp (all_settled (map m xs)) (\<lambda>r w'. posted (concat (map rqs xs)) w r w' \<and> (\<forall>e. r \<noteq> Throw e)) w"
  using assms
proof (induction xs arbitrary: w)
  case Nil
  then show ?case by (simp add: all_settled_def wp_ret posted_def)
next
  case (Cons x xs)
  note rest = Cons.IH [OF Cons.prems, simplified]
  show ?case
    unfolding all_settled_def list.map forM.simps wp_thenM wp_catchM
  proof (rule wp_mono [OF Cons.prems [OF list.set_intros(1)]], goal_cases)
    case (1 r w1)
    have go: "wp (forM (map m xs) (\<lambda>m. catchM (thenM m (ret ())) (\<lambda>_. ret ())))
        (\<lambda>r w'. posted (concat (map rqs (x # xs))) w r w' \<and> (\<forall>e. r \<noteq> Throw e)) w1" if "r \<noteq> Crashed"
    proof -
      have "posted (rqs x) w (Ok ()) w1" by (rule posted_result [OF 1]) (use that in simp)
      then show ?thesis
        by (intro wp_mono [OF rest [unfolded all_settled_def]]) (auto intro: posted_append)
    qed
    show ?case
      using go 1 by (cases r) (simp_all add: wp_ret posted_Crashed posted_result)
  qed
qed

lemma subscriptions_wp:
  "wp (sqlM Pool (select_subscriptions ty)) (\<lambda>r w'. hushed w r w'
      \<and> (\<forall>ss. r = Ok ss \<longrightarrow> ss = filter (\<lambda>s. sub_active s \<and> ty \<in> set (sub_event_types s)) (db_subscriptions (w_db w)))
      \<and> (quiet w \<longrightarrow> (\<exists>ss. r = Ok ss))) w"
proof -
  have "quiet w \<Longrightarrow> e_fault (w_env w) (w_tick w) = Fine" by (simp add: quiet_def)
  then show ?thesis
    by (cases "e_fault (w_env w) (w_tick w)")
      (auto simp: wp_def sqlM_def ioM_def hushed_def tick_def put_view_def select_subscriptions_def Let_def)
qed


section \<open>The properties\<close>

text \<open>
  C17. A dispatch posts the event to the active subscriptions of its type whose address is not blocked,
  in order, each with the body and the headers of \<open>delivery_request\<close> signed with its own secret: the
  requests sent are among these whatever fails, all of these when nothing fails, whatever the
  receivers answer, and a failed delivery is not reported to the caller.
\<close>

theorem dispatch_delivers:
  "wp (dispatch hm ps dt cfg ty a pl) (\<lambda>r w'. \<exists>t xs.
     (let p = \<lparr>wp_eventType = ty, wp_aggregateId = a, wp_payload = pl, wp_timestamp = dt t\<rparr>;
          subs = filter (\<lambda>s. sub_active s \<and> ty \<in> set (sub_event_types s) \<and> \<not> isBlockedUrl (sub_url s))
                   (db_subscriptions (w_db w));
          rqs = map (\<lambda>s. delivery_request hm ps cfg s p) subs
      in subseq xs rqs \<and> w_sent w' = w_sent w @ xs
         \<and> (quiet w \<longrightarrow> xs = rqs \<and> r = Ok ())
         \<and> (\<forall>e. r = Throw e \<longrightarrow> xs = []))) w"
proof -
  let ?subs = "filter (\<lambda>s. sub_active s \<and> ty \<in> set (sub_event_types s)) (db_subscriptions (w_db w))"
  let ?allowed = "filter (\<lambda>s. sub_active s \<and> ty \<in> set (sub_event_types s) \<and> \<not> isBlockedUrl (sub_url s)) (db_subscriptions (w_db w))"
  let ?p = "\<lambda>t. \<lparr>wp_eventType = ty, wp_aggregateId = a, wp_payload = pl, wp_timestamp = dt t\<rparr>"
  let ?rqs = "\<lambda>p. concat (map (\<lambda>s. if isBlockedUrl (sub_url s) then [] else [delivery_request hm ps cfg s p]) ?subs)"
  have "concat (map (\<lambda>s. if isBlockedUrl (sub_url s) then [] else [delivery_request hm ps cfg s p]) (filter P xs))
      = map (\<lambda>s. delivery_request hm ps cfg s p) (filter (\<lambda>s. P s \<and> \<not> isBlockedUrl (sub_url s)) xs)" for p P xs
    by (induction xs) auto
  from this [of _ "\<lambda>s. sub_active s \<and> ty \<in> set (sub_event_types s)"]
  have rqs: "?rqs p = map (\<lambda>s. delivery_request hm ps cfg s p) ?allowed" for p
    by (simp add: conj_assoc)
  show ?thesis
    unfolding dispatch_def wp_bindM [of "sqlM _ _"]
  proof (rule wp_mono [OF subscriptions_wp], goal_cases)
    case (1 r w1)
    show ?case
    proof (cases r)
      case (Ok ss)
      then have ss: "ss = ?subs" using 1 by blast
      have sent: "posted rqs w r2 w2" if "posted rqs (tick w1) r2 w2" for rqs r2 w2
        using that 1 by (simp add: posted_def hushed_def quiet_def tick_def)
      have "wp (if ?subs = [] then ret () else bindM nowM (\<lambda>t. all_settled (map (deliver hm ps cfg (?p t)) ?subs)))
          (\<lambda>r w'. \<exists>t. posted (?rqs (?p t)) w r w' \<and> (\<forall>e. r \<noteq> Throw e)) w1"
      proof (cases "?subs = []")
        case True
        then show ?thesis using 1 by (simp add: wp_ret posted_def hushed_def)
      next
        case False
        show ?thesis
          unfolding if_not_P [OF False] wp_bindM wp_nowM res.case
          by (rule wp_mono [OF all_settled_posted [OF deliver_posted]]) (auto intro: sent)
      qed
      then show ?thesis
        unfolding Ok res.case Let_def rqs ss
      proof (rule wp_mono, goal_cases)
        case (1 r2 w2)
        then obtain t where "posted (map (\<lambda>s. delivery_request hm ps cfg s (?p t)) ?allowed) w r2 w2"
          "\<forall>e. r2 \<noteq> Throw e" by blast
        then show ?case by (cases r2) (auto simp: posted_def)
      qed
    qed (use 1 in \<open>auto simp: hushed_def Let_def\<close>)
  qed
qed


theorem dispatch_delivers_witness:
  "wp (dispatch (\<lambda>_ _. []) (\<lambda>_. []) (\<lambda>_. []) example_config ''order.paid'' ''o1'' [])
     (\<lambda>r w'. r = Ok () \<and> map rq_url (w_sent w') = [''https://shop.example'']) (world_of quiet_env
       (empty_db\<lparr>db_subscriptions :=
          [\<lparr>sub_id = ''s1'', sub_url = ''http://127.0.0.1/'', sub_event_types = [''order.paid''], sub_secret = ''k'', sub_active = True\<rparr>,
           \<lparr>sub_id = ''s2'', sub_url = ''https://shop.example'', sub_event_types = [''order.paid''], sub_secret = ''k'', sub_active = True\<rparr>]\<rparr>))"
proof -
  have "isBlockedUrl ''http://127.0.0.1/''" "\<not> isBlockedUrl ''https://shop.example''" by code_simp+
  then show ?thesis
    by (intro wp_mono [OF dispatch_delivers])
      (auto simp: quiet_def world_of_def quiet_env_def delivery_request_def Let_def)
qed



text \<open>
  C29. A signature verifies the payload it was made for, also when the payload comes back with the
  members of its objects in another order; and nothing else verifies but a string of hexadecimal
  digits (and what follows them) of the very bytes of the digest.
\<close>

theorem signature_roundtrip:
  assumes "same_json payload payload'"
  shows "verifyPayload hm ps payload' (signPayload hm ps payload secret) secret
    \<and> (verifyPayload hm ps payload' s secret \<longleftrightarrow> hex_decode s = hex_decode (signPayload hm ps payload secret))"
  using canonicalize_same_json [OF assms] by (simp_all add: verifyPayload_iff signPayload_def)

theorem signature_roundtrip_witness:
  "verifyPayload (\<lambda>k m. map of_char (k @ m)) (\<lambda>_. []) (JObj [(''b'', JNull), (''a'', JStr ''x'')])
     (signPayload (\<lambda>k m. map of_char (k @ m)) (\<lambda>_. []) (JObj [(''a'', JStr ''x''), (''b'', JNull)]) ''key'') ''key''"
  by (rule signature_roundtrip [THEN conjunct1])
    (rule same_json.obj [of _ "[(''a'', JStr ''x''), (''b'', JNull)]"], auto intro: same_json.refl)

text \<open>
  The delay before a retry grows with the attempt: with a base of at least zero and a delay small
  enough for a double, it is at least \<open>base * 2 ^ attempt\<close> and at most twice that, cut at 24 hours,
  for every value of \<open>Math.random()\<close> and every rounding of the products.
\<close>

theorem retry_delay_bounds:
  assumes "rounding_laws fl" and "0 \<le> webhookRetryBaseDelayMs cfg"
    and "webhookRetryBaseDelayMs cfg * 2 ^ attempt \<le> 2 ^ 52" and "0 \<le> rnd" "rnd < 1"
  shows "min (webhookRetryBaseDelayMs cfg * 2 ^ attempt) 86400000 \<le> calculateRetryDelay fl cfg rnd attempt
    \<and> calculateRetryDelay fl cfg rnd attempt \<le> min (2 * (webhookRetryBaseDelayMs cfg * 2 ^ attempt)) 86400000"
  using calculateRetryDelay_bounds [OF assms] by simp

theorem retry_delay_bounds_witness:
  "4000 \<le> calculateRetryDelay id (example_config\<lparr>webhookRetryBaseDelayMs := 1000\<rparr>) (1 / 2) 2
   \<and> calculateRetryDelay id (example_config\<lparr>webhookRetryBaseDelayMs := 1000\<rparr>) (1 / 2) 2 \<le> 8000"
  using retry_delay_bounds [of id "example_config\<lparr>webhookRetryBaseDelayMs := 1000\<rparr>" 2 "1 / 2"]
  by (simp add: rounding_laws_def)

text \<open>
  No address of the private, loopback, link-local and unspecified IPv4 networks is contacted when
  it is written as four decimal numbers after the lower-case scheme, whatever follows them; nor is a
  host that begins with \<open>localhost\<close>.
\<close>

theorem private_addresses_blocked:
  assumes "sch = ''http://'' \<or> sch = ''https://''" and "private_ip4 a b"
  shows "isBlockedUrl (sch @ ip4_string a b c d @ s)"
  using private_ip4_blocked assms by blast

theorem private_addresses_blocked_witness: "isBlockedUrl ''https://172.20.0.5:8080/hook''"
proof -
  have "ip4_string 172 20 0 5 = ''172.20.0.5''" by code_simp
  then show ?thesis
    using private_addresses_blocked [of "''https://''" 172 20 0 5 "'':8080/hook''"] by (simp add: private_ip4_def)
qed

text \<open>
  Addresses of the same networks that the patterns let through: an upper-case scheme, a number for the
  whole address, an IPv4 address mapped into IPv6.
\<close>

theorem blocked_urls_misses:
  "\<not> isBlockedUrl ''HTTP://127.0.0.1/''" "\<not> isBlockedUrl ''http://2130706433/''"
  "\<not> isBlockedUrl ''http://[::ffff:169.254.169.254]/''" "\<not> isBlockedUrl ''http://[::]/''"
  by code_simp+

text \<open>A delivery that is refused is recorded twice: before the throw and in the \<open>catch\<close> block.\<close>

theorem refused_delivery_recorded_twice:
  "map wd_status (db_deliveries (w_db (snd (deliver (\<lambda>_ _. []) (\<lambda>_. []) example_config
     \<lparr>wp_eventType = ''order.paid'', wp_aggregateId = ''o1'', wp_payload = [], wp_timestamp = ''t''\<rparr>
     \<lparr>sub_id = ''s2'', sub_url = ''https://a.b'', sub_event_types = [''order.paid''], sub_secret = ''k'', sub_active = True\<rparr>
     (world_of (quiet_env\<lparr>e_http := \<lambda>_. Response \<lparr>http_ok = False, http_status = 500, http_json = None, http_text = None\<rparr>\<rparr>)
        (empty_db\<lparr>db_subscriptions :=
          [\<lparr>sub_id = ''s2'', sub_url = ''https://a.b'', sub_event_types = [''order.paid''], sub_secret = ''k'', sub_active = True\<rparr>]\<rparr>)))))) = [500, 500]"
  by code_simp

end
