(* ===== verification/Workers.thy ===== *)
theory Workers
  imports Webhooks
begin

text \<open>
  \<open>src/src/infrastructure/queue/workers\<close>: the four BullMQ workers, and the resilience policy of
  \<open>src/src/infrastructure/payment/circuit-breaker.ts\<close>.  A processor takes the data of its job as JSON;
  data of another shape than the declared type are refused before the processor acts.
\<close>


section \<open>Jobs\<close>

record payment_job =
  pj_orderId :: string
  pj_amount :: amount_json
  pj_paymentToken :: string
  pj_sagaId :: string

datatype inventory_action = Reserve | Release

record inventory_job =
  ij_orderId :: string
  ij_items :: "reservation list"
  ij_action :: inventory_action

record notification_job =
  nj_eventType :: string
  nj_aggregateId :: string
  nj_payload :: "(string \<times> json) list"

definition read_payment_job :: "json \<Rightarrow> payment_job option" where
  "read_payment_job j =
     (case (str_member j ''orderId'', json_get j ''amount'', str_member j ''paymentToken'', str_member j ''sagaId'') of
        (Some oid, Some a, Some tok, Some sid) \<Rightarrow>
          map_option (\<lambda>m. \<lparr>pj_orderId = oid, pj_amount = m, pj_paymentToken = tok, pj_sagaId = sid\<rparr>) (read_money a)
      | _ \<Rightarrow> None)"

definition read_inventory_job :: "json \<Rightarrow> inventory_job option" where
  "read_inventory_job j =
     (case (str_member j ''orderId'', json_get j ''items'', str_member j ''action'') of
        (Some oid, Some (JArr is), Some act) \<Rightarrow>
          map_option (\<lambda>items. \<lparr>ij_orderId = oid, ij_items = items,
                               ij_action = (if act = ''reserve'' then Reserve else Release)\<rparr>)
            (those (map read_item is))
      | _ \<Rightarrow> None)"

definition read_notification_job :: "json \<Rightarrow> notification_job option" where
  "read_notification_job j =
     (case (str_member j ''eventType'', str_member j ''aggregateId'', json_get j ''payload'') of
        (Some ty, Some agg, Some (JObj p)) \<Rightarrow> Some \<lparr>nj_eventType = ty, nj_aggregateId = agg, nj_payload = p\<rparr>
      | _ \<Rightarrow> None)"

definition on_data :: "(json \<Rightarrow> 'j option) \<Rightarrow> ('j \<Rightarrow> unit io) \<Rightarrow> json \<Rightarrow> unit io" where
  "on_data read f j = (case read j of Some d \<Rightarrow> f d | None \<Rightarrow> throw (JsError ''Invalid job data''))"


section \<open>Processors\<close>

definition payment_processor :: "'d decimal_lib \<Rightarrow> payment_service \<Rightarrow> payment_job \<Rightarrow> unit io" where
  "payment_processor L ps j =
     bindM (liftR (new_money L (aj_amount (pj_amount j)) (aj_currency (pj_amount j)))) (\<lambda>amt.
     bindM (ps_charge ps (pj_orderId j) amt (pj_paymentToken j)) (\<lambda>result.
     if \<not> pr_success result
     then thenM (increment ''payment.worker.failed'' [])
            (throw (JsError (''Payment failed: '' @ or_else (pr_errorMessage result) ''null'')))
     else increment ''payment.worker.succeeded'' []))"

definition action_name :: "inventory_action \<Rightarrow> string" where
  "action_name a = (case a of Reserve \<Rightarrow> ''reserve'' | Release \<Rightarrow> ''release'')"

definition inventory_processor :: "inventory_service \<Rightarrow> inventory_job \<Rightarrow> unit io" where
  "inventory_processor svc j =
     bindM (case ij_action j of
              Reserve \<Rightarrow> is_reserve svc (ij_orderId j) (ij_items j)
            | Release \<Rightarrow> is_release svc (ij_orderId j) (ij_items j)) (\<lambda>success.
     if \<not> success
     then thenM (increment ''inventory.worker.failed'' [(''action'', action_name (ij_action j))])
            (throw (JsError (''Inventory '' @ action_name (ij_action j) @ '' failed for order '' @ ij_orderId j)))
     else increment ''inventory.worker.succeeded'' [(''action'', action_name (ij_action j))])"

type_synonym dispatcher = "string \<Rightarrow> string \<Rightarrow> (string \<times> json) list \<Rightarrow> unit io"

definition notification_processor :: "dispatcher \<Rightarrow> notification_job \<Rightarrow> unit io" where
  "notification_processor disp j =
     catchM
       (thenM (disp (nj_eventType j) (nj_aggregateId j) (nj_payload j))
         (increment ''notification.worker.succeeded'' [(''eventType'', nj_eventType j)]))
       (\<lambda>err. thenM (increment ''notification.worker.failed'' [(''eventType'', nj_eventType j)]) (throw err))"

definition processSagaJob :: "'d decimal_lib \<Rightarrow> orchestrator \<Rightarrow> saga_context \<Rightarrow> unit io" where
  "processSagaJob L oc context =
     catchM (thenM (run_saga L oc context) (ret ())) (\<lambda>err. throw err)"


section \<open>The workers\<close>

record worker_deps =
  wd_payment :: payment_service
  wd_inventory :: inventory_service
  wd_orchestrator :: orchestrator
  wd_dispatcher :: dispatcher

text \<open>The list the module keeps after \<open>startWorkers\<close>; \<open>stopWorkers\<close> empties it.\<close>

definition startWorkers :: "'d decimal_lib \<Rightarrow> app_config \<Rightarrow> worker_deps \<Rightarrow> worker_handle list" where
  "startWorkers L cfg deps =
     [createWorker cfg ''payment-processing'' (on_data read_payment_job (payment_processor L (wd_payment deps))),
      createWorker cfg ''inventory-release'' (on_data read_inventory_job (inventory_processor (wd_inventory deps))),
      createWorker cfg ''webhook-delivery'' (on_data read_notification_job (notification_processor (wd_dispatcher deps))),
      createWorker cfg ''saga-execution'' (on_data read_context (processSagaJob L (wd_orchestrator deps)))]"

text \<open>
  BullMQ hands a job to the worker of its queue and, when the processor rejects, to the same worker
  again until the attempts of the job are used up; \<open>n\<close> is the number of attempts made.
\<close>

fun run_attempts :: "(json \<Rightarrow> unit io) \<Rightarrow> json \<Rightarrow> nat \<Rightarrow> unit io" where
  "run_attempts f data 0 = ret ()"
| "run_attempts f data (Suc n) = catchM (f data) (\<lambda>err. run_attempts f data n)"


section \<open>The resilience policy\<close>

text \<open>
  The policies of cockatiel are a parameter: a retry and a circuit breaker with their options, and
  their composition.  A listener of the breaker is run by the library when its state changes.
\<close>

record breaker_opts =
  bo_halfOpenAfter :: int
  bo_threshold :: int

record retry_opts =
  ro_maxAttempts :: nat
  ro_initialDelay :: nat
  ro_maxDelay :: nat

record breaker_listeners =
  bl_onBreak :: "unit io"
  bl_onReset :: "unit io"
  bl_onHalfOpen :: "unit io"

record cockatiel =
  ck_retry :: "retry_opts \<Rightarrow> resilience"
  ck_circuitBreaker :: "breaker_opts \<Rightarrow> breaker_listeners \<Rightarrow> resilience"
  ck_wrap :: "resilience \<Rightarrow> resilience \<Rightarrow> resilience"

definition createPaymentResiliencePolicy :: "cockatiel \<Rightarrow> app_config \<Rightarrow> resilience" where
  "createPaymentResiliencePolicy ck cfg =
     (let retryPolicy = ck_retry ck \<lparr>ro_maxAttempts = 3, ro_initialDelay = 100, ro_maxDelay = 2000\<rparr>;
          circuitBreakerPolicy = ck_circuitBreaker ck
            \<lparr>bo_halfOpenAfter = paymentCircuitBreakerDurationMs cfg,
             bo_threshold = paymentCircuitBreakerThreshold cfg\<rparr>
            \<lparr>bl_onBreak = increment ''payment.circuit_breaker'' [(''state'', ''open'')],
             bl_onReset = increment ''payment.circuit_breaker'' [(''state'', ''closed'')],
             bl_onHalfOpen = increment ''payment.circuit_breaker'' [(''state'', ''half_open'')]\<rparr>
      in ck_wrap ck circuitBreakerPolicy retryPolicy)"

text \<open>
  What the library promises: a retry runs the function again after a rejection, at most
  \<open>maxAttempts\<close> times; a breaker runs it once or rejects; \<open>wrap\<close> composes; the listeners and the
  policies themselves touch nothing but the metrics and the clock.  The instance is a closed breaker.
\<close>

fun retrying :: "nat \<Rightarrow> resilience" where
  "retrying 0 m = m"
| "retrying (Suc n) m = catchM m (\<lambda>err. retrying n m)"

definition closed_cockatiel :: cockatiel where
  "closed_cockatiel = \<lparr>ck_retry = (\<lambda>opts. retrying (ro_maxAttempts opts)), ck_circuitBreaker = (\<lambda>opts listeners m. m),
     ck_wrap = (\<lambda>outer inner m. outer (inner m))\<rparr>"

lemma retrying_upholds: "preord R \<Longrightarrow> upholds R m \<Longrightarrow> upholds R (retrying n m)"
  by (induction n) (auto intro: upholds_catchM)

lemma closed_resilience_laws: "resilience_laws (createPaymentResiliencePolicy closed_cockatiel cfg)"
  unfolding resilience_laws_def createPaymentResiliencePolicy_def closed_cockatiel_def
  by (simp add: retrying_upholds)


section \<open>The machine\<close>

lemma upholds_on_data: "(\<And>d. upholds R (f d)) \<Longrightarrow> preord R \<Longrightarrow> upholds R (on_data read f j)"
  by (auto simp: on_data_def upholds_throw split: option.split)

lemma upholds_payment_processor:
  assumes "payment_frame ps"
  shows "upholds (on_db (commits L')) (payment_processor L ps j)"
  unfolding payment_processor_def
  by (intro upholds_intros preord_on_db preord_rtranclp assms)

lemma upholds_inventory_processor:
  "upholds (on_db (commits L)) (inventory_processor (pg_inventory_service le sha) j)"
  unfolding inventory_processor_def
  by (cases "ij_action j") (auto intro!: upholds_intros)

lemma upholds_notification_processor:
  assumes "\<And>t a p. upholds (on_db (commits L)) (disp t a p)"
  shows "upholds (on_db (commits L)) (notification_processor disp j)"
  unfolding notification_processor_def
  by (intro upholds_intros preord_on_db preord_rtranclp assms)

lemma upholds_processSagaJob:
  assumes "payment_frame ps"
  shows "upholds (on_db (commits L)) (processSagaJob L' (pg_orchestrator L'' le sha ps) c)"
  unfolding processSagaJob_def
  by (intro upholds_intros preord_on_db preord_rtranclp assms)

end
