(* ===== verification/Redis_Store.thy ===== *)
theory Redis_Store
  imports Webhooks
begin

text \<open>
  \<open>src/src/infrastructure/redis\<close>: the idempotency store and the rate limiter.  The Redis client is not
  part of the repository: its commands are a parameter (\<open>redis_client\<close>), and \<open>redis_laws\<close> states what
  the documentation of the commands says of the keys, which may expire.  \<open>JSON.parse\<close> is a parameter.
\<close>

record redis_client =
  rd_get :: "string \<Rightarrow> string option io"
  rd_setEX :: "string \<Rightarrow> string \<Rightarrow> int \<Rightarrow> unit io"
  rd_del :: "string \<Rightarrow> unit io"
  rd_incr :: "string \<Rightarrow> int io"
  rd_pexpireat :: "string \<Rightarrow> int \<Rightarrow> unit io"
  rd_ping :: "unit io"


section \<open>What Redis promises\<close>

definition only_redis :: "world \<Rightarrow> world \<Rightarrow> bool" where
  "only_redis w w' \<longleftrightarrow> (\<exists>r n. w' = w\<lparr>w_redis := r, w_tick := n\<rparr>)"

lemma preord_only_redis [intro, simp]: "preord only_redis"
proof (unfold preord_def, intro conjI allI impI)
  show "only_redis w w" for w
    unfolding only_redis_def by (intro exI [of _ "w_redis w"] exI [of _ "w_tick w"]) simp
  show "only_redis w w''" if "only_redis w w'" "only_redis w' w''" for w w' w''
    using that unfolding only_redis_def by fastforce
qed

lemma only_redis_sel:
  assumes "only_redis w w'"
  shows "w_db w' = w_db w" "w_tx w' = w_tx w" "w_sent w' = w_sent w" "w_env w' = w_env w"
    "w_queues w' = w_queues w" "w_outbox w' = w_outbox w"
  using assms by (auto simp: only_redis_def)

definition may_expire :: "string \<Rightarrow> world \<Rightarrow> bool" where
  "may_expire k w \<longleftrightarrow> (\<exists>v t. w_redis w k = Some (v, Some t))"

definition counter :: "string \<Rightarrow> world \<Rightarrow> int" where
  "counter k w = (case w_redis w k of None \<Rightarrow> 0 | Some (v, _) \<Rightarrow> int (number_of v))"

definition redis_laws :: "redis_client \<Rightarrow> bool" where
  "redis_laws C \<longleftrightarrow>
     (\<forall>k w. wp (rd_get C k) (\<lambda>r w'. only_redis w w' \<and> w_redis w' = w_redis w
        \<and> (\<forall>v. r = Ok (Some v) \<longrightarrow> (\<exists>t. w_redis w k = Some (v, t)))
        \<and> (r = Ok None \<longrightarrow> w_redis w k = None \<or> may_expire k w)) w) \<and>
     (\<forall>k v ex w. wp (rd_setEX C k v ex) (\<lambda>r w'. only_redis w w'
        \<and> (\<forall>k'. k' \<noteq> k \<longrightarrow> w_redis w' k' = w_redis w k')
        \<and> (w_redis w' k = w_redis w k \<or> (\<exists>t. w_redis w' k = Some (v, Some t)))
        \<and> (r = Ok () \<longrightarrow> (\<exists>t. w_redis w' k = Some (v, Some t)))) w) \<and>
     (\<forall>k w. wp (rd_del C k) (\<lambda>r w'. only_redis w w' \<and> (\<forall>k'. k' \<noteq> k \<longrightarrow> w_redis w' k' = w_redis w k') \<and> (r = Ok () \<longrightarrow> w_redis w' k = None)) w) \<and>
     (\<forall>k w. wp (rd_incr C k) (\<lambda>r w'. only_redis w w' \<and> (\<forall>k'. k' \<noteq> k \<longrightarrow> w_redis w' k' = w_redis w k')
        \<and> (\<forall>n. r = Ok n \<longrightarrow> (n = counter k w + 1 \<or> may_expire k w \<and> n = 1) \<and> counter k w' = n)) w) \<and>
     (\<forall>k t w. wp (rd_pexpireat C k t) (\<lambda>r w'. only_redis w w' \<and> (\<forall>k'. k' \<noteq> k \<longrightarrow> w_redis w' k' = w_redis w k')
        \<and> (counter k w' = counter k w \<or> counter k w' = 0)) w)"

lemma redis_lawsD:
  assumes "redis_laws C"
  shows "wp (rd_get C k) (\<lambda>r w'. only_redis w w' \<and> w_redis w' = w_redis w
        \<and> (\<forall>v. r = Ok (Some v) \<longrightarrow> (\<exists>t. w_redis w k = Some (v, t)))
        \<and> (r = Ok None \<longrightarrow> w_redis w k = None \<or> may_expire k w)) w"
    and "wp (rd_setEX C k v ex) (\<lambda>r w'. only_redis w w'
        \<and> (\<forall>k'. k' \<noteq> k \<longrightarrow> w_redis w' k' = w_redis w k')
        \<and> (w_redis w' k = w_redis w k \<or> (\<exists>t. w_redis w' k = Some (v, Some t)))
        \<and> (r = Ok () \<longrightarrow> (\<exists>t. w_redis w' k = Some (v, Some t)))) w"
    and "wp (rd_del C k) (\<lambda>r w'. only_redis w w' \<and> (\<forall>k'. k' \<noteq> k \<longrightarrow> w_redis w' k' = w_redis w k') \<and> (r = Ok () \<longrightarrow> w_redis w' k = None)) w"
    and "wp (rd_incr C k) (\<lambda>r w'. only_redis w w' \<and> (\<forall>k'. k' \<noteq> k \<longrightarrow> w_redis w' k' = w_redis w k')
        \<and> (\<forall>n. r = Ok n \<longrightarrow> (n = counter k w + 1 \<or> may_expire k w \<and> n = 1) \<and> counter k w' = n)) w"
    and "wp (rd_pexpireat C k t) (\<lambda>r w'. only_redis w w' \<and> (\<forall>k'. k' \<noteq> k \<longrightarrow> w_redis w' k' = w_redis w k')
        \<and> (counter k w' = counter k w \<or> counter k w' = 0)) w"
  using assms unfolding redis_laws_def by blast+


section \<open>The idempotency store\<close>

record idempotency_record =
  ir_requestId :: string
  ir_status :: int
  ir_response :: string
  ir_requestHash :: string
  ir_createdAt :: string

definition idempotency_key :: "string \<Rightarrow> string \<Rightarrow> string" where
  "idempotency_key clientId key = ''idempotency:'' @ clientId @ '':'' @ key"

definition record_json :: "idempotency_record \<Rightarrow> json" where
  "record_json r =
     JObj [(''requestId'', JStr (ir_requestId r)), (''status'', JNum (Whole (ir_status r))),
           (''response'', JStr (ir_response r)), (''requestHash'', JStr (ir_requestHash r)),
           (''createdAt'', JStr (ir_createdAt r))]"

text \<open>A parsed value used as an \<open>IdempotencyRecord\<close>: the members are those the store has written.\<close>

definition read_record :: "json \<Rightarrow> idempotency_record option" where
  "read_record j =
     (case (str_member j ''requestId'', json_get j ''status'', str_member j ''response'',
            str_member j ''requestHash'', str_member j ''createdAt'') of
        (Some i, Some (JNum (Whole st)), Some resp, Some h, Some t) \<Rightarrow>
          Some \<lparr>ir_requestId = i, ir_status = st, ir_response = resp, ir_requestHash = h, ir_createdAt = t\<rparr>
      | _ \<Rightarrow> None)"

lemma read_record_json [simp]: "read_record (record_json r) = Some r"
  by (simp add: read_record_def record_json_def str_member_def)

text \<open>An empty string is falsy; an error of Redis or of the parser is \<open>null\<close>.\<close>

definition idempotency_get ::
    "redis_client \<Rightarrow> (string \<Rightarrow> json option) \<Rightarrow> string \<Rightarrow> string \<Rightarrow> idempotency_record option io" where
  "idempotency_get C parse clientId key =
     catchM (bindM (rd_get C (idempotency_key clientId key)) (\<lambda>raw.
             case raw of
               None \<Rightarrow> ret None
             | Some r \<Rightarrow> if r = [] then ret None
                         else (case parse r of
                                 None \<Rightarrow> throw (JsError ''Unexpected token in JSON'')
                               | Some j \<Rightarrow> ret (read_record j))))
       (\<lambda>err. ret None)"

definition idempotency_set ::
    "redis_client \<Rightarrow> (rat \<Rightarrow> string) \<Rightarrow> app_config \<Rightarrow> string \<Rightarrow> string \<Rightarrow> idempotency_record \<Rightarrow> unit io" where
  "idempotency_set C ps cfg clientId key r =
     catchM (rd_setEX C (idempotency_key clientId key) (stringify ps (record_json r)) (idempotencyTtlSeconds cfg))
       (\<lambda>err. ret ())"

definition idempotency_delete :: "redis_client \<Rightarrow> string \<Rightarrow> string \<Rightarrow> unit io" where
  "idempotency_delete C clientId key =
     catchM (rd_del C (idempotency_key clientId key)) (\<lambda>err. ret ())"


section \<open>The rate limiter\<close>

record rate_limit_result =
  rl_allowed :: bool
  rl_remaining :: int
  rl_resetTime :: int

definition rate_key :: "string \<Rightarrow> int \<Rightarrow> string" where
  "rate_key clientId windowStart = ''rl:'' @ clientId @ '':'' @ int_string windowStart"

text \<open>\<open>Math.floor(now / windowMs) * windowMs\<close>, for a window that is not zero.\<close>

definition window_start :: "app_config \<Rightarrow> int \<Rightarrow> int" where
  "window_start cfg now = now div rateLimitWindowMs cfg * rateLimitWindowMs cfg"

definition isAllowed :: "redis_client \<Rightarrow> app_config \<Rightarrow> string \<Rightarrow> rate_limit_result io" where
  "isAllowed C cfg clientId =
     bindM nowM (\<lambda>now.
     let windowStart = window_start cfg now;
         resetTime = windowStart + rateLimitWindowMs cfg;
         key = rate_key clientId windowStart
     in catchM
          (bindM (rd_incr C key) (\<lambda>current.
           thenM (whenM (current = 1) (rd_pexpireat C key resetTime))
             (ret \<lparr>rl_allowed = (current \<le> rateLimitMax cfg),
                   rl_remaining = max 0 (rateLimitMax cfg - current), rl_resetTime = resetTime\<rparr>)))
          (\<lambda>err. ret \<lparr>rl_allowed = True, rl_remaining = rateLimitMax cfg, rl_resetTime = resetTime\<rparr>))"

text \<open>Reading and writing Redis leaves the data alone.\<close>

lemma upholds_redis:
  assumes C: "redis_laws C" and R: "preord R"
  shows "upholds (on_db R) (rd_get C k)" "upholds (on_db R) (rd_setEX C k v ex)"
    "upholds (on_db R) (rd_del C k)" "upholds (on_db R) (rd_incr C k)" "upholds (on_db R) (rd_pexpireat C k t)"
proof -
  have *: "upholds (on_db R) m" if "\<And>w. wp m (\<lambda>_ w'. only_redis w w') w" for m :: "'a io"
  proof (rule upholdsI)
    fix w
    have "w_db (snd (m w)) = w_db w"
      using that [of w] only_redis_sel(1) by (simp add: wp_def)
    then show "on_db R w (snd (m w))" by (simp add: on_db_def preord_refl [OF R])
  qed
  show "upholds (on_db R) (rd_get C k)" "upholds (on_db R) (rd_setEX C k v ex)"
    "upholds (on_db R) (rd_del C k)" "upholds (on_db R) (rd_incr C k)" "upholds (on_db R) (rd_pexpireat C k t)"
    by (rule *, rule wp_mono, rule redis_lawsD [OF C], blast)+
qed

lemma upholds_idempotency_get [upholds_intros]:
  "redis_laws C \<Longrightarrow> preord R \<Longrightarrow> upholds (on_db R) (idempotency_get C parse c k)"
  unfolding idempotency_get_def
  by (intro upholds_intros preord_on_db upholds_redis)

lemma upholds_idempotency_set [upholds_intros]:
  "redis_laws C \<Longrightarrow> preord R \<Longrightarrow> upholds (on_db R) (idempotency_set C ps cfg c k r)"
  unfolding idempotency_set_def by (intro upholds_intros preord_on_db upholds_redis)

lemma upholds_isAllowed [upholds_intros]:
  "redis_laws C \<Longrightarrow> preord R \<Longrightarrow> upholds (on_db R) (isAllowed C cfg c)"
  unfolding isAllowed_def Let_def by (intro upholds_intros preord_on_db ticks_on_db upholds_redis)

text \<open>What has been stored is what is read, while the key lives and Redis answers.\<close>

lemma idempotency_get_stored:
  assumes C: "redis_laws C"
    and stored: "w_redis w (idempotency_key c k) = Some (stringify ps (record_json r), t)"
    and parse: "parse (stringify ps (record_json r)) = Some (record_json r)"
  shows "wp (idempotency_get C parse c k) (\<lambda>res w'. only_redis w w' \<and> (\<forall>x. res = Ok x \<longrightarrow> x = None \<or> x = Some r)) w"
proof -
  have ne: "stringify ps (record_json r) \<noteq> []"
    by (simp add: record_json_def)
  have body: "wp (case raw of
               None \<Rightarrow> ret None
             | Some r \<Rightarrow> if r = [] then ret None
                         else (case parse r of
                                 None \<Rightarrow> throw (JsError ''Unexpected token in JSON'')
                               | Some j \<Rightarrow> ret (read_record j)))
       (\<lambda>res w'. only_redis w w' \<and> (\<forall>x. res = Ok x \<longrightarrow> x = None \<or> x = Some r)) w1"
    if "only_redis w w1" "raw = None \<or> raw = Some (stringify ps (record_json r))" for raw w1
    using that parse ne by (elim disjE) (simp_all add: wp_ret)
  have catch: "wp (bindM (rd_get C (idempotency_key c k)) (\<lambda>raw.
             case raw of
               None \<Rightarrow> ret None
             | Some r \<Rightarrow> if r = [] then ret None
                         else (case parse r of
                                 None \<Rightarrow> throw (JsError ''Unexpected token in JSON'')
                               | Some j \<Rightarrow> ret (read_record j))))
      (\<lambda>res w'. only_redis w w' \<and> (\<forall>x. res = Ok x \<longrightarrow> x = None \<or> x = Some r)) w"
    unfolding wp_bindM
  proof (rule wp_mono [OF redis_lawsD(1) [OF C]], elim conjE)
    fix res w1
    assume o: "only_redis w w1"
      and v: "\<forall>v. res = Ok (Some v) \<longrightarrow> (\<exists>t. w_redis w (idempotency_key c k) = Some (v, t))"
    show "case res of
        Ok raw \<Rightarrow> wp (case raw of
               None \<Rightarrow> ret None
             | Some r \<Rightarrow> if r = [] then ret None
                         else (case parse r of
                                 None \<Rightarrow> throw (JsError ''Unexpected token in JSON'')
                               | Some j \<Rightarrow> ret (read_record j)))
           (\<lambda>res w'. only_redis w w' \<and> (\<forall>x. res = Ok x \<longrightarrow> x = None \<or> x = Some r)) w1
      | Throw e \<Rightarrow> only_redis w w1 \<and> (\<forall>x. Throw e = Ok x \<longrightarrow> x = None \<or> x = Some r)
      | Crashed \<Rightarrow> only_redis w w1 \<and> (\<forall>x. Crashed = Ok x \<longrightarrow> x = None \<or> x = Some r)"
    proof (cases res)
      case (Ok raw)
      have "raw = None \<or> raw = Some (stringify ps (record_json r))"
        using v stored Ok by (cases raw) auto
      from body [OF o this] show ?thesis by (simp add: Ok)
    qed (use o in simp_all)
  qed
  show ?thesis
    unfolding idempotency_get_def wp_catchM
    by (rule wp_mono [OF catch]) (simp add: wp_ret split: res.split)
qed

text \<open>
  The limiter counts: a request is allowed exactly while the counter of its window is at most the
  maximum, and always when Redis fails.
\<close>

definition limit_key :: "app_config \<Rightarrow> string \<Rightarrow> world \<Rightarrow> string" where
  "limit_key cfg cid w = rate_key cid (window_start cfg (e_clock (w_env w) (w_tick w)))"

lemma only_redis_tick: "only_redis w (tick w)"
  unfolding only_redis_def tick_def by (intro exI [of _ "w_redis w"] exI [of _ "Suc (w_tick w)"]) simp

lemma isAllowed_wp:
  assumes C: "redis_laws C"
  shows "wp (isAllowed C cfg cid) (\<lambda>r w'. only_redis w w' \<and> (\<forall>res. r = Ok res \<longrightarrow>
      (\<exists>n. (n = counter (limit_key cfg cid w) w + 1 \<or> may_expire (limit_key cfg cid w) w \<and> n = 1)
          \<and> rl_allowed res = (n \<le> rateLimitMax cfg) \<and> rl_remaining res = max 0 (rateLimitMax cfg - n))
      \<or> rl_allowed res \<and> rl_remaining res = rateLimitMax cfg)) w"
proof -
  note trans = preord_trans [OF preord_only_redis]
  have same: "counter k (tick w) = counter k w" "may_expire k (tick w) = may_expire k w" for k
    by (simp_all add: counter_def may_expire_def)
  show ?thesis
    unfolding isAllowed_def Let_def wp_bindM [of nowM] wp_nowM res.case wp_catchM wp_bindM [of "rd_incr _ _"]
      limit_key_def [symmetric]
  proof (rule wp_mono [OF redis_lawsD(4) [OF C]], goal_cases)
    case (1 r w1)
    then have w1: "only_redis w w1" using trans only_redis_tick by blast
    show ?case
    proof (cases r)
      case (Ok n)
      with 1 have n: "n = counter (limit_key cfg cid w) w + 1 \<or> may_expire (limit_key cfg cid w) w \<and> n = 1"
        by (simp add: same)
      have e: "wp (rd_pexpireat C k t) (\<lambda>_ w'. only_redis w w') w1" for k t
        by (rule wp_mono [OF redis_lawsD(5) [OF C]]) (use trans [OF w1] in blast)
      show ?thesis
        unfolding Ok res.case wp_thenM wp_whenM
        using n w1 by (auto simp: wp_ret split: res.split intro!: wp_mono [OF e])
    qed (use w1 in \<open>auto simp: wp_ret\<close>)
  qed
qed


section \<open>A client that keeps the promises\<close>

text \<open>The keys of the world, with the readings of its clock as the time of the server.\<close>

definition live :: "string \<Rightarrow> world \<Rightarrow> (string \<times> int option) option" where
  "live k w = (case w_redis w k of
      Some (v, Some t) \<Rightarrow> if e_clock (w_env w) (w_tick w) < t then Some (v, Some t) else None
    | x \<Rightarrow> x)"

definition mem_redis :: redis_client where
  "mem_redis = \<lparr>
     rd_get = (\<lambda>k. ioM (getsM (\<lambda>w. map_option fst (live k w)))),
     rd_setEX = (\<lambda>k v s. ioM (modifyM (\<lambda>w. w\<lparr>w_redis := (w_redis w)(k \<mapsto>
                   (v, Some (e_clock (w_env w) (w_tick w) + s * 1000)))\<rparr>))),
     rd_del = (\<lambda>k. ioM (modifyM (\<lambda>w. w\<lparr>w_redis := (w_redis w)(k := None)\<rparr>))),
     rd_incr = (\<lambda>k. ioM (\<lambda>w. let n = (case live k w of None \<Rightarrow> 0 | Some (v, _) \<Rightarrow> number_of v) in
                   (Ok (int n + 1), w\<lparr>w_redis := (w_redis w)(k \<mapsto>
                      (digits_of (n + 1), Option.bind (live k w) snd))\<rparr>))),
     rd_pexpireat = (\<lambda>k t. ioM (modifyM (\<lambda>w. w\<lparr>w_redis := (case live k w of
                   None \<Rightarrow> w_redis w | Some (v, _) \<Rightarrow> (w_redis w)(k \<mapsto> (v, Some t)))\<rparr>))),
     rd_ping = ioM (ret ())\<rparr>"

lemma redis_tick_sel [simp]:
  "counter k (tick w) = counter k w" "may_expire k (tick w) = may_expire k w"
  by (simp_all add: counter_def may_expire_def)

lemma only_redis_write: "only_redis w ((tick w)\<lparr>w_redis := r\<rparr>)"
  unfolding only_redis_def tick_def by (intro exI [of _ r] exI [of _ "Suc (w_tick w)"]) simp

text \<open>A command is one interaction.\<close>

lemma wp_command:
  assumes "wp m P (tick w)" and "\<And>e. P (Throw e) (tick w)" and "P Crashed (tick w)"
    and "\<And>r e w'. P r w' \<Longrightarrow> P (Throw e) w' \<and> P Crashed w'"
  shows "wp (ioM m) P w"
  using assms unfolding wp_ioM by (auto simp: wp_def split: fault.split)

lemma live_cases: "live k w = w_redis w k \<or> live k w = None \<and> may_expire k w"
  by (auto simp: live_def may_expire_def split: option.split)

lemma mem_redis_laws: "redis_laws mem_redis"
  unfolding redis_laws_def
proof (intro conjI allI)
  fix k v ex t w
  show "wp (rd_get mem_redis k) (\<lambda>r w'. only_redis w w' \<and> w_redis w' = w_redis w
        \<and> (\<forall>v. r = Ok (Some v) \<longrightarrow> (\<exists>t. w_redis w k = Some (v, t)))
        \<and> (r = Ok None \<longrightarrow> w_redis w k = None \<or> may_expire k w)) w"
    using live_cases [of k "tick w"] unfolding mem_redis_def redis_client.simps
    by (intro wp_command) (auto simp: wp_getsM only_redis_tick dest: sym)
  show "wp (rd_setEX mem_redis k v ex) (\<lambda>r w'. only_redis w w'
        \<and> (\<forall>k'. k' \<noteq> k \<longrightarrow> w_redis w' k' = w_redis w k')
        \<and> (w_redis w' k = w_redis w k \<or> (\<exists>t. w_redis w' k = Some (v, Some t)))
        \<and> (r = Ok () \<longrightarrow> (\<exists>t. w_redis w' k = Some (v, Some t)))) w"
    unfolding mem_redis_def redis_client.simps
    by (intro wp_command) (auto simp: wp_modifyM only_redis_tick only_redis_write)
  show "wp (rd_del mem_redis k) (\<lambda>r w'. only_redis w w' \<and> (\<forall>k'. k' \<noteq> k \<longrightarrow> w_redis w' k' = w_redis w k') \<and> (r = Ok () \<longrightarrow> w_redis w' k = None)) w"
    unfolding mem_redis_def redis_client.simps
    by (intro wp_command) (auto simp: wp_modifyM only_redis_tick only_redis_write)
  show "wp (rd_incr mem_redis k) (\<lambda>r w'. only_redis w w' \<and> (\<forall>k'. k' \<noteq> k \<longrightarrow> w_redis w' k' = w_redis w k')
        \<and> (\<forall>n. r = Ok n \<longrightarrow> (n = counter k w + 1 \<or> may_expire k w \<and> n = 1) \<and> counter k w' = n)) w"
    using live_cases [of k "tick w"] unfolding mem_redis_def redis_client.simps Let_def
    by (intro wp_command) (auto simp: wp_def only_redis_tick only_redis_write counter_def split: option.split)
  show "wp (rd_pexpireat mem_redis k t) (\<lambda>r w'. only_redis w w' \<and> (\<forall>k'. k' \<noteq> k \<longrightarrow> w_redis w' k' = w_redis w k')
        \<and> (counter k w' = counter k w \<or> counter k w' = 0)) w"
    using live_cases [of k "tick w"] unfolding mem_redis_def redis_client.simps
    by (intro wp_command)
      (auto simp: wp_modifyM only_redis_tick only_redis_write counter_def split: option.split)
qed


section \<open>A server that answers\<close>

text \<open>
  When nothing fails and a key does not expire during the run, the commands do what their names say, in one
  interaction.
  The locale states it of a client that keeps the promises above; the time to live is what \<open>alive\<close>
  compares with the clock.
\<close>

definition alive :: "string \<Rightarrow> world \<Rightarrow> bool" where
  "alive k w \<longleftrightarrow> (\<forall>v t n. w_redis w k = Some (v, Some t) \<longrightarrow> w_tick w \<le> n \<longrightarrow> e_clock (w_env w) n < t)"

definition redis_to :: "(string \<Rightarrow> (string \<times> int option) option) \<Rightarrow> world \<Rightarrow> world \<Rightarrow> bool" where
  "redis_to f w w' \<longleftrightarrow> (\<exists>n \<ge> w_tick w. w' = w\<lparr>w_redis := f, w_tick := n\<rparr>)"

lemma redis_to_sel:
  assumes "redis_to f w w'"
  shows "w_redis w' = f" "w_env w' = w_env w" "w_db w' = w_db w" "w_tick w \<le> w_tick w'" "quiet w' = quiet w" "only_redis w w'"
  using assms by (auto simp: redis_to_def quiet_def only_redis_def)

lemma redis_to_tick: "redis_to (w_redis w) w (tick w)"
  unfolding redis_to_def tick_def by (intro exI [of _ "Suc (w_tick w)"]) simp

lemma redis_to_trans:
  assumes "redis_to f w w'" and "redis_to g w' w''"
  shows "redis_to g w w''"
proof -
  obtain n n' where "w_tick w \<le> n" "w' = w\<lparr>w_redis := f, w_tick := n\<rparr>" "w_tick w' \<le> n'" "w'' = w'\<lparr>w_redis := g, w_tick := n'\<rparr>"
    using assms by (auto simp: redis_to_def)
  then show ?thesis unfolding redis_to_def by (intro exI [of _ n']) simp
qed

lemma alive_later:
  assumes "alive k w" "w_env w' = w_env w" "w_tick w \<le> w_tick w'" "w_redis w' k = w_redis w k"
  shows "alive k w'"
  using assms order_trans unfolding alive_def by metis

locale redis_server =
  fixes C :: redis_client
  assumes laws: "redis_laws C"
    and get_alive: "quiet w \<Longrightarrow> alive k w \<Longrightarrow>
      wp (rd_get C k) (\<lambda>r w'. r = Ok (map_option fst (w_redis w k)) \<and> redis_to (w_redis w) w w' \<and> w_tick w' = Suc (w_tick w)) w"
    and set_kept: "quiet w \<Longrightarrow>
      wp (rd_setEX C k v s) (\<lambda>r w'. r = Ok ()
        \<and> (\<exists>n. redis_to ((w_redis w)(k \<mapsto> (v, Some (e_clock (w_env w) n + s * 1000)))) w w')) w"
    and incr_counts: "quiet w \<Longrightarrow> alive k w \<Longrightarrow>
      wp (rd_incr C k) (\<lambda>r w'. r = Ok (counter k w + 1) \<and> (\<exists>v. int (number_of v) = counter k w + 1
        \<and> redis_to ((w_redis w)(k \<mapsto> (v, Option.bind (w_redis w k) snd))) w w') \<and> w_tick w' = Suc (w_tick w)) w"
    and expireat_kept: "quiet w \<Longrightarrow> alive k w \<Longrightarrow> \<forall>n \<ge> w_tick w. e_clock (w_env w) n < t \<Longrightarrow>
      wp (rd_pexpireat C k t) (\<lambda>r w'. r = Ok ()
        \<and> redis_to ((w_redis w)(k := map_option (\<lambda>(v, _). (v, Some t)) (w_redis w k))) w w' \<and> w_tick w' = Suc (w_tick w)) w"

lemma live_alive: "alive k w \<Longrightarrow> live k (tick w) = w_redis w k"
  by (auto simp: alive_def live_def tick_def split: option.split)

lemma wp_ioM_quiet: "quiet w \<Longrightarrow> wp m P (tick w) \<Longrightarrow> wp (ioM m) P w"
  by (simp add: ioM_def quiet_def wp_def)

lemma redis_to_write: "f = g \<Longrightarrow> redis_to f w ((tick w)\<lparr>w_redis := g\<rparr>)"
  unfolding redis_to_def tick_def by (intro exI [of _ "Suc (w_tick w)"]) simp

interpretation mem: redis_server mem_redis
proof
  show "redis_laws mem_redis" by (rule mem_redis_laws)
  fix w k v and s :: int and t :: int
  assume q: "quiet w"
  show "wp (rd_setEX mem_redis k v s) (\<lambda>r w'. r = Ok ()
        \<and> (\<exists>n. redis_to ((w_redis w)(k \<mapsto> (v, Some (e_clock (w_env w) n + s * 1000)))) w w')) w"
    unfolding mem_redis_def redis_client.simps
    by (rule wp_ioM_quiet [OF q]) (auto simp: wp_modifyM intro!: exI redis_to_write)
  assume a: "alive k w"
  note live = live_alive [OF a]
  show "wp (rd_get mem_redis k) (\<lambda>r w'. r = Ok (map_option fst (w_redis w k)) \<and> redis_to (w_redis w) w w' \<and> w_tick w' = Suc (w_tick w)) w"
    unfolding mem_redis_def redis_client.simps
    by (rule wp_ioM_quiet [OF q]) (simp add: wp_getsM live redis_to_tick)
  show "wp (rd_incr mem_redis k) (\<lambda>r w'. r = Ok (counter k w + 1) \<and> (\<exists>v. int (number_of v) = counter k w + 1
        \<and> redis_to ((w_redis w)(k \<mapsto> (v, Option.bind (w_redis w k) snd))) w w') \<and> w_tick w' = Suc (w_tick w)) w"
    unfolding mem_redis_def redis_client.simps Let_def
    by (rule wp_ioM_quiet [OF q])
      (auto simp: wp_def live counter_def split: option.split intro!: exI [of _ "digits_of _"] redis_to_write)
  assume "\<forall>n \<ge> w_tick w. e_clock (w_env w) n < t"
  show "wp (rd_pexpireat mem_redis k t) (\<lambda>r w'. r = Ok ()
        \<and> redis_to ((w_redis w)(k := map_option (\<lambda>(v, _). (v, Some t)) (w_redis w k))) w w' \<and> w_tick w' = Suc (w_tick w)) w"
    unfolding mem_redis_def redis_client.simps
    by (rule wp_ioM_quiet [OF q])
      (auto simp: wp_modifyM live split: option.split intro!: redis_to_write fun_upd_idem [symmetric])
qed


section \<open>The properties\<close>

text \<open>
  C18. The rate limiter decides by the count of the client's window: when Redis answers, the call is
  allowed exactly when the incremented counter is at most the maximum, and reports what remains, never
  below zero; it lets the call through only when a command has thrown.  Nothing but Redis changes, and
  it never throws.
\<close>

theorem rate_limit_decides:
  assumes "redis_laws C"
  shows "wp (isAllowed C cfg cid) (\<lambda>r w'. (let key = limit_key cfg cid w in
      w_db w' = w_db w \<and> (\<forall>e. r \<noteq> Throw e) \<and> (\<forall>res. r = Ok res \<longrightarrow>
        (\<exists>n. (n = counter key w + 1 \<or> may_expire key w \<and> n = 1)
            \<and> rl_allowed res = (n \<le> rateLimitMax cfg) \<and> rl_remaining res = max 0 (rateLimitMax cfg - n))
        \<or> rl_allowed res
            \<and> (\<exists>e w1. rd_incr C key (tick w) = (Throw e, w1)
                 \<or> rd_incr C key (tick w) = (Ok 1, w1) \<and> fst (rd_pexpireat C key (rl_resetTime res) w1) = Throw e)))) w"
proof -
  let ?k = "limit_key cfg cid w"
  have db: "wp (isAllowed C cfg cid) (\<lambda>r w'. w_db w' = w_db w) w"
    by (rule wp_mono [OF isAllowed_wp [OF assms]]) (auto simp: only_redis_sel)
  obtain r1 w1 where incr: "rd_incr C ?k (tick w) = (r1, w1)" by fastforce
  have n: "\<forall>n. r1 = Ok n \<longrightarrow> n = counter ?k w + 1 \<or> may_expire ?k w \<and> n = 1"
    using wpI [OF redis_lawsD(4) [OF assms] incr] by (simp add: redis_tick_sel)
  have key: "rate_key cid (window_start cfg (e_clock (w_env w) (w_tick w))) = ?k" by (simp add: limit_key_def)
  show ?thesis
    unfolding Let_def wp_conj
  proof (intro conjI db)
    show "wp (isAllowed C cfg cid) (\<lambda>r w'. \<forall>e. r \<noteq> Throw e) w"
      unfolding isAllowed_def wp_bindM [of nowM] wp_nowM res.case Let_def wp_catchM
      by (rule wp_always) (simp add: wp_ret split: res.split)
    show "wp (isAllowed C cfg cid) (\<lambda>r w'. \<forall>res. r = Ok res \<longrightarrow>
        (\<exists>n. (n = counter ?k w + 1 \<or> may_expire ?k w \<and> n = 1)
            \<and> rl_allowed res = (n \<le> rateLimitMax cfg) \<and> rl_remaining res = max 0 (rateLimitMax cfg - n))
        \<or> rl_allowed res
            \<and> (\<exists>e w1. rd_incr C ?k (tick w) = (Throw e, w1)
                 \<or> rd_incr C ?k (tick w) = (Ok 1, w1) \<and> fst (rd_pexpireat C ?k (rl_resetTime res) w1) = Throw e)) w"
      using n unfolding isAllowed_def wp_bindM [of nowM] wp_nowM res.case Let_def wp_catchM key
      by (cases r1) (auto simp: wp_def bindM_def thenM_def whenM_def ret_def incr split: prod.split res.split)
  qed
qed

theorem rate_limit_decides_witness:
  "wp (isAllowed mem_redis (example_config\<lparr>rateLimitMax := 0\<rparr>) ''c'')
     (\<lambda>r w'. \<forall>res. r = Ok res \<longrightarrow> rl_allowed res = False) (world_of quiet_env empty_db)"
  by (rule wp_mono [OF rate_limit_decides [OF mem_redis_laws]])
    (auto simp: Let_def counter_def world_of_def may_expire_def mem_redis_def ioM_def tick_def quiet_env_def live_def modifyM_def split: option.splits)

end
