(* ===== verification/Api.thy ===== *)
theory Api
  imports Redis_Store
begin

text \<open>
  \<open>src/src/api\<close>, the public side: the schema of an order, the middleware, the error handler, the
  routes of \<open>routes/v1/orders.ts\<close> and the life cycle of a request with the response cache of
  \<open>server.ts\<close>.  Fastify runs the hooks in order until one of them sends a reply; its serialiser, its
  view of an error and the messages of zod are parameters.
\<close>


section \<open>Requests and replies\<close>

record http_req =
  rx_id :: string
  rx_method :: string
  rx_url :: string
  rx_headers :: "string \<rightharpoonup> string"
  rx_body :: "json option"
  rx_ip :: "string option"
  rx_params :: "string \<rightharpoonup> string"
  rx_query :: "string \<rightharpoonup> string"

record reply =
  rp_status :: int
  rp_headers :: "(string \<times> string) list"
  rp_body :: json

record idempotency_meta =
  im_clientId :: string
  im_key :: string
  im_hash :: string

text \<open>A request with the state of its reply: the headers set so far, the reply once it is sent, an
  error once a hook has thrown it.\<close>

record exchange =
  ex_req :: http_req
  ex_headers :: "(string \<times> string) list"
  ex_meta :: "idempotency_meta option"
  ex_sent :: "reply option"
  ex_error :: "error option"

definition open_exchange :: "http_req \<Rightarrow> exchange" where
  "open_exchange rq = \<lparr>ex_req = rq, ex_headers = [], ex_meta = None, ex_sent = None, ex_error = None\<rparr>"

definition send :: "exchange \<Rightarrow> int \<Rightarrow> json \<Rightarrow> exchange" where
  "send ex st body = ex\<lparr>ex_sent := Some \<lparr>rp_status = st, rp_headers = ex_headers ex, rp_body = body\<rparr>\<rparr>"

definition set_header :: "string \<Rightarrow> string \<Rightarrow> exchange \<Rightarrow> exchange" where
  "set_header k v ex = ex\<lparr>ex_headers := ex_headers ex @ [(k, v)]\<rparr>"

definition problem :: "string \<Rightarrow> string \<Rightarrow> int \<Rightarrow> string \<Rightarrow> (string \<times> json) list \<Rightarrow> json" where
  "problem ty title st detail extra =
     JObj ([(''type'', JStr (''https://orderly.example.com/errors/'' @ ty)), (''title'', JStr title),
            (''status'', JNum (Whole st)), (''detail'', JStr detail)] @ extra)"

definition problem_header :: "string \<times> string" where
  "problem_header = (''content-type'', ''application/problem+json'')"

definition send_problem :: "exchange \<Rightarrow> int \<Rightarrow> json \<Rightarrow> exchange" where
  "send_problem ex st body = send (set_header (fst problem_header) (snd problem_header) ex) st body"


section \<open>The schema of an order\<close>

record order_input =
  in_customerId :: string
  in_items :: "order_line list"
  in_currency :: string
  in_paymentToken :: string

definition CreateOrderItemSchema :: "json \<Rightarrow> order_line option" where
  "CreateOrderItemSchema j =
     (case (str_member j ''sku'', json_get j ''quantity'', str_member j ''unitPrice'') of
        (Some s, Some (JNum q), Some p) \<Rightarrow>
          if 1 \<le> length s \<and> length s \<le> 64 \<and> sku_VALID s
             \<and> is_integer q \<and> \<not> le_zero q \<and> whole q \<le> 1000 \<and> price_cents p \<noteq> None
          then Some \<lparr>ol_sku = s, ol_quantity = q, ol_unitPrice = p\<rparr> else None
      | _ \<Rightarrow> None)"

definition CreateOrderSchema :: "json \<Rightarrow> order_input option" where
  "CreateOrderSchema j =
     (case (str_member j ''customerId'', json_get j ''items'',
            (case json_get j ''currency'' of None \<Rightarrow> Some ''USD'' | Some (JStr c) \<Rightarrow> Some c | _ \<Rightarrow> None),
            str_member j ''paymentToken'') of
        (Some cid, Some (JArr is), Some cur, Some tok) \<Rightarrow>
          if 1 \<le> length cid \<and> length cid \<le> 64 \<and> 1 \<le> length is \<and> length is \<le> 50
             \<and> length cur = 3 \<and> 1 \<le> length tok \<and> length tok \<le> 512
          then map_option (\<lambda>lines. \<lparr>in_customerId = cid, in_items = lines, in_currency = cur,
                                    in_paymentToken = tok\<rparr>) (those (map CreateOrderItemSchema is))
          else None
      | _ \<Rightarrow> None)"

text \<open>The parsed value, which replaces the body; unknown members are gone and the currency is there.\<close>

definition line_json :: "order_line \<Rightarrow> json" where
  "line_json l = JObj [(''sku'', JStr (ol_sku l)), (''quantity'', JNum (ol_quantity l)),
                       (''unitPrice'', JStr (ol_unitPrice l))]"

definition input_json :: "order_input \<Rightarrow> json" where
  "input_json i = JObj [(''customerId'', JStr (in_customerId i)), (''items'', JArr (map line_json (in_items i))),
                        (''currency'', JStr (in_currency i)), (''paymentToken'', JStr (in_paymentToken i))]"

type_synonym zod_issues = "json \<Rightarrow> (string \<times> string) list"

definition body_json :: "http_req \<Rightarrow> json" where
  "body_json rq = (case rx_body rq of Some j \<Rightarrow> j | None \<Rightarrow> JNull)"

definition issue_json :: "string \<times> string \<Rightarrow> json" where
  "issue_json i = JObj [(''field'', JStr (fst i)), (''message'', JStr (snd i))]"


section \<open>Middleware\<close>

type_synonym hook = "exchange \<Rightarrow> exchange io"

definition requestContextMiddleware :: hook where
  "requestContextMiddleware ex =
     (case rx_headers (ex_req ex) ''x-trace-id'' of
        Some t \<Rightarrow> bindM nowM (\<lambda>_. ret (set_header ''x-trace-id'' t ex))
      | None \<Rightarrow> bindM uuidM (\<lambda>t. bindM nowM (\<lambda>_. ret (set_header ''x-trace-id'' t ex))))"

definition client_of :: "http_req \<Rightarrow> string" where
  "client_of rq = (case rx_headers rq ''x-client-id'' of
      Some c \<Rightarrow> c | None \<Rightarrow> (case rx_ip rq of Some ip \<Rightarrow> ip | None \<Rightarrow> ''anonymous''))"

definition rateLimitMiddleware :: "redis_client \<Rightarrow> (int \<Rightarrow> string) \<Rightarrow> app_config \<Rightarrow> hook" where
  "rateLimitMiddleware C toISOString cfg ex =
     bindM (isAllowed C cfg (client_of (ex_req ex))) (\<lambda>result.
     let ex1 = set_header ''X-RateLimit-Reset'' (toISOString (rl_resetTime result))
                 (set_header ''X-RateLimit-Remaining'' (int_string (rl_remaining result))
                    (set_header ''X-RateLimit-Limit'' ''100'' ex))
     in if \<not> rl_allowed result
        then bindM nowM (\<lambda>now.
             ret (send_problem (set_header ''Retry-After''
                    (int_string (- (- (rl_resetTime result - now) div 1000))) ex1) 429
                    (problem ''rate-limit'' ''Rate Limit Exceeded'' 429
                       ''Too many requests. Please retry after the indicated time.'' [])))
        else ret ex1)"

text \<open>\<open>createHash('sha256').update(JSON.stringify(request.body ?? {})).digest('hex')\<close>\<close>

definition hashBody :: "(string \<Rightarrow> 8 word list) \<Rightarrow> (rat \<Rightarrow> string) \<Rightarrow> http_req \<Rightarrow> string" where
  "hashBody sha ps rq =
     hex_encode (sha (stringify ps (case rx_body rq of None \<Rightarrow> JObj [] | Some JNull \<Rightarrow> JObj [] | Some j \<Rightarrow> j)))"

definition truthy_header :: "http_req \<Rightarrow> string \<Rightarrow> string option" where
  "truthy_header rq k = (case rx_headers rq k of Some v \<Rightarrow> if v = [] then None else Some v | None \<Rightarrow> None)"

definition idempotencyMiddleware ::
    "redis_client \<Rightarrow> (string \<Rightarrow> json option) \<Rightarrow> (string \<Rightarrow> 8 word list) \<Rightarrow> (rat \<Rightarrow> string) \<Rightarrow> hook" where
  "idempotencyMiddleware C parse sha ps ex =
     (case (truthy_header (ex_req ex) ''idempotency-key'', truthy_header (ex_req ex) ''x-client-id'') of
        (Some key, Some clientId) \<Rightarrow>
          (let requestHash = hashBody sha ps (ex_req ex) in
           bindM (idempotency_get C parse clientId key) (\<lambda>existing.
           case existing of
             Some r \<Rightarrow>
               if ir_requestHash r \<noteq> requestHash
               then ret (send_problem ex 409 (problem ''idempotency-mismatch'' ''Idempotency Key Conflict'' 409
                      (''The Idempotency-Key was already used with a different request body. ''
                       @ ''Use a new key for a different request.'') []))
               else (let ex1 = set_header ''X-Idempotent-Replay'' ''true'' ex
                     in (case parse (ir_response r) of
                           Some body \<Rightarrow> ret (send ex1 (ir_status r) body)
                         | None \<Rightarrow> ret (ex1\<lparr>ex_error := Some (JsError ''Unexpected token in JSON'')\<rparr>)))
           | None \<Rightarrow> ret (ex\<lparr>ex_meta := Some \<lparr>im_clientId = clientId, im_key = key, im_hash = requestHash\<rparr>\<rparr>)))
      | _ \<Rightarrow> ret (send_problem ex 400 (problem ''missing-headers'' ''Missing Required Headers'' 400
               ''Both Idempotency-Key and X-Client-ID headers are required for mutation endpoints.'' [])))"

definition validateBody :: "zod_issues \<Rightarrow> hook" where
  "validateBody issues ex =
     (let body = body_json (ex_req ex) in
      case CreateOrderSchema body of
        Some inp \<Rightarrow> ret (ex\<lparr>ex_req := (ex_req ex)\<lparr>rx_body := Some (input_json inp)\<rparr>\<rparr>)
      | None \<Rightarrow> ret (send_problem ex 422 (problem ''validation-error'' ''Validation Error'' 422
                  ''The request body contains invalid data.''
                  [(''errors'', JArr (map issue_json (issues body)))])))"


section \<open>The error handler\<close>

record fastify_error =
  fe_name :: "string option"
  fe_statusCode :: "int option"
  fe_message :: string

definition errorHandler :: "(error \<Rightarrow> fastify_error) \<Rightarrow> error \<Rightarrow> exchange \<Rightarrow> exchange" where
  "errorHandler err_view e ex =
     (let url = JStr (rx_url (ex_req ex)) in
      case e of
        ValidationError problems \<Rightarrow>
          send_problem ex 422 (problem ''validation-error'' ''Validation Error'' 422
            ''The request body contains invalid data''
            [(''instance'', url), (''errors'', JArr (map issue_json problems))])
      | _ \<Rightarrow>
          (let err = err_view e; msg = fe_message err in
           if fe_statusCode err = Some 429
           then send_problem ex 429 (problem ''rate-limit'' ''Rate Limit Exceeded'' 429
                  (if msg = [] then ''Too many requests'' else msg) [(''instance'', url)])
           else (let statusCode = (case fe_statusCode err of Some c \<Rightarrow> c | None \<Rightarrow> 500);
                     isClientError = (400 \<le> statusCode \<and> statusCode < 500)
                 in send_problem ex statusCode
                      (problem (if isClientError then ''client-error'' else ''internal-error'')
                         (if statusCode = 500 then ''Internal Server Error''
                          else (case fe_name err of Some n \<Rightarrow> n | None \<Rightarrow> ''Request Error''))
                         statusCode (if msg = [] then ''An unexpected error occurred'' else msg)
                         [(''instance'', url)]))))"


section \<open>The order routes\<close>

definition order_json_body :: "(int \<Rightarrow> string) \<Rightarrow> order \<Rightarrow> json" where
  "order_json_body toISOString ord =
     JObj [(''id'', JStr (order_id ord)), (''customerId'', JStr (order_customerId ord)),
           (''status'', JStr (status_name (order_status ord))),
           (''totalAmount'', money_json (money_toJSON (order_totalAmount ord))),
           (''items'', JArr (map (\<lambda>i. JObj [(''id'', JStr (item_id i)), (''sku'', JStr (sku_value (item_sku i))),
                                (''quantity'', JNum (Whole (item_quantity i))),
                                (''unitPrice'', JStr (amount (item_unitPrice i)))]) (order_items ord))),
           (''createdAt'', JStr (toISOString (order_createdAt ord))),
           (''updatedAt'', JStr (toISOString (order_updatedAt ord)))]"

type_synonym order_creator = "order_request \<Rightarrow> (order \<times> string) io"

definition post_order ::
    "zod_issues \<Rightarrow> (int \<Rightarrow> string) \<Rightarrow> order_creator \<Rightarrow> exchange \<Rightarrow> exchange io" where
  "post_order issues toISOString create ex =
     bindM nowM (\<lambda>startTime.
     case CreateOrderSchema (body_json (ex_req ex)) of
       None \<Rightarrow> throw (ValidationError (issues (body_json (ex_req ex))))
     | Some parsed \<Rightarrow>
         bindM (create \<lparr>co_customerId = in_customerId parsed, co_items = in_items parsed,
                        co_currency = in_currency parsed,
                        co_idempotencyKey = rx_headers (ex_req ex) ''idempotency-key'',
                        co_paymentToken = in_paymentToken parsed\<rparr>) (\<lambda>result.
         bindM nowM (\<lambda>t.
         thenM (recordHistogram ''orders.api.create.duration'' (t - startTime) [])
           (ret (send ex 201 (order_json_body toISOString (fst result)))))))"

definition not_found :: "exchange \<Rightarrow> string \<Rightarrow> exchange" where
  "not_found ex detail =
     send_problem ex 404 (problem ''not-found'' ''Not Found'' 404 detail
       [(''instance'', JStr (rx_url (ex_req ex)))])"

definition param :: "http_req \<Rightarrow> string \<Rightarrow> string" where
  "param rq k = (case rx_params rq k of Some v \<Rightarrow> v | None \<Rightarrow> ''undefined'')"

definition get_order :: "(int \<Rightarrow> string) \<Rightarrow> order_repo \<Rightarrow> exchange \<Rightarrow> exchange io" where
  "get_order toISOString orders ex =
     (let oid = param (ex_req ex) ''id'' in
      bindM (service_getOrder orders oid) (\<lambda>ord.
      case ord of
        None \<Rightarrow> ret (not_found ex (''Order '' @ oid @ '' not found''))
      | Some ord \<Rightarrow> ret (send ex 200 (order_json_body toISOString ord))))"

definition time_json :: "(int \<Rightarrow> string) \<Rightarrow> int option \<Rightarrow> json" where
  "time_json toISOString t = (case t of Some t \<Rightarrow> JStr (toISOString t) | None \<Rightarrow> JNull)"

definition string_json :: "string option \<Rightarrow> json" where
  "string_json s = (case s of Some s \<Rightarrow> JStr s | None \<Rightarrow> JNull)"

definition step_status_name :: "step_status \<Rightarrow> string" where
  "step_status_name st = (case st of STEP_PENDING \<Rightarrow> ''PENDING'' | STEP_RUNNING \<Rightarrow> ''RUNNING''
      | STEP_COMPLETED \<Rightarrow> ''COMPLETED'' | STEP_FAILED \<Rightarrow> ''FAILED'')"

definition get_order_saga :: "(int \<Rightarrow> string) \<Rightarrow> saga_repo \<Rightarrow> exchange \<Rightarrow> exchange io" where
  "get_order_saga toISOString sagas ex =
     (let oid = param (ex_req ex) ''id'' in
      bindM (sg_findByOrderId sagas oid) (\<lambda>saga.
      case saga of
        None \<Rightarrow> ret (not_found ex (''No saga found for order '' @ oid))
      | Some s \<Rightarrow>
          bindM (sg_getSteps sagas (saga_id s)) (\<lambda>steps.
          ret (send ex 200 (JObj [
            (''id'', JStr (saga_id s)), (''orderId'', JStr (saga_orderId s)),
            (''status'', JStr (saga_status_name (saga_status s))),
            (''currentStep'', JNum (Whole (saga_currentStep s))),
            (''startedAt'', JStr (toISOString (saga_startedAt s))),
            (''completedAt'', time_json toISOString (saga_completedAt s)),
            (''steps'', JArr (map (\<lambda>st. JObj [
               (''id'', JStr (step_id st)), (''stepName'', JStr (step_name st)),
               (''stepOrder'', JNum (Whole (step_order st))),
               (''status'', JStr (step_status_name (step_status st))),
               (''errorMessage'', string_json (step_error st)),
               (''startedAt'', time_json toISOString (step_startedAt st)),
               (''completedAt'', time_json toISOString (step_completedAt st))]) steps))])))))"


section \<open>The life cycle of a request\<close>

fun run_hooks :: "hook list \<Rightarrow> exchange \<Rightarrow> exchange io" where
  "run_hooks [] ex = ret ex"
| "run_hooks (h # hs) ex =
     bindM (h ex) (\<lambda>ex'. if ex_sent ex' \<noteq> None \<or> ex_error ex' \<noteq> None then ret ex' else run_hooks hs ex')"

text \<open>The handler, unless a hook has answered; an error goes to the error handler.\<close>

definition run_route ::
    "(error \<Rightarrow> fastify_error) \<Rightarrow> hook list \<Rightarrow> (exchange \<Rightarrow> exchange io) \<Rightarrow> exchange \<Rightarrow> exchange io" where
  "run_route err_view hooks handler ex =
     bindM (run_hooks hooks ex) (\<lambda>ex1.
     case ex_error ex1 of
       Some e \<Rightarrow> ret (errorHandler err_view e ex1)
     | None \<Rightarrow> if ex_sent ex1 \<noteq> None then ret ex1
               else catchM (handler ex1) (\<lambda>e. ret (errorHandler err_view e ex1)))"

text \<open>The \<open>onSend\<close> hook of the server; \<open>serialize\<close> is what Fastify does to the value sent.\<close>

definition onSend ::
    "redis_client \<Rightarrow> (rat \<Rightarrow> string) \<Rightarrow> (int \<Rightarrow> string) \<Rightarrow> (int \<Rightarrow> json \<Rightarrow> string) \<Rightarrow> app_config
       \<Rightarrow> exchange \<Rightarrow> unit io" where
  "onSend C ps toISOString serialize cfg ex =
     (case (ex_meta ex, ex_sent ex) of
        (Some meta, Some rp) \<Rightarrow>
          if 200 \<le> rp_status rp \<and> rp_status rp < 300
          then bindM nowM (\<lambda>t.
               catchM (idempotency_set C ps cfg (im_clientId meta) (im_key meta)
                  \<lparr>ir_requestId = rx_id (ex_req ex), ir_status = rp_status rp,
                   ir_response = serialize (rp_status rp) (rp_body rp),
                   ir_requestHash = im_hash meta, ir_createdAt = toISOString t\<rparr>) (\<lambda>err. ret ()))
          else ret ()
      | _ \<Rightarrow> ret ())"

text \<open>
  What the routes of the public server share.  The schema of a route, compiled by Ajv, is checked by
  Fastify before any \<open>preHandler\<close>: \<open>sv_bodySchema\<close> is \<open>zodToJsonSchema(CreateOrderSchema)\<close> on the body,
  which it may coerce, and \<open>sv_paramsSchema\<close> that of a path with an identifier.
\<close>

record server =
  sv_redis :: redis_client
  sv_parse :: "string \<Rightarrow> json option"
  sv_sha :: "string \<Rightarrow> 8 word list"
  sv_ps :: "rat \<Rightarrow> string"
  sv_toISOString :: "int \<Rightarrow> string"
  sv_serialize :: "int \<Rightarrow> json \<Rightarrow> string"
  sv_issues :: zod_issues
  sv_view :: "error \<Rightarrow> fastify_error"
  sv_bodySchema :: "json option \<Rightarrow> error + json option"
  sv_paramsSchema :: "(string \<rightharpoonup> string) \<Rightarrow> error option"
  sv_cfg :: app_config

type_synonym schema = "http_req \<Rightarrow> error + http_req"

definition no_schema :: schema where
  "no_schema rq = Inr rq"

definition body_schema :: "server \<Rightarrow> schema" where
  "body_schema sv rq = (case sv_bodySchema sv (rx_body rq) of Inl e \<Rightarrow> Inl e | Inr b \<Rightarrow> Inr (rq\<lparr>rx_body := b\<rparr>))"

definition params_schema :: "server \<Rightarrow> schema" where
  "params_schema sv rq = (case sv_paramsSchema sv (rx_params rq) of Some e \<Rightarrow> Inl e | None \<Rightarrow> Inr rq)"

definition serve ::
    "server \<Rightarrow> schema \<Rightarrow> hook list \<Rightarrow> (exchange \<Rightarrow> exchange io) \<Rightarrow> http_req \<Rightarrow> exchange io" where
  "serve sv schema hooks handler rq =
     bindM (case schema rq of
              Inl e \<Rightarrow> ret (errorHandler (sv_view sv) e (open_exchange rq))
            | Inr rq' \<Rightarrow> run_route (sv_view sv) (requestContextMiddleware # hooks) handler (open_exchange rq')) (\<lambda>ex.
     thenM (onSend (sv_redis sv) (sv_ps sv) (sv_toISOString sv) (sv_serialize sv) (sv_cfg sv) ex)
       (ret ex))"

definition order_hooks :: "server \<Rightarrow> hook list" where
  "order_hooks sv =
     [rateLimitMiddleware (sv_redis sv) (sv_toISOString sv) (sv_cfg sv),
      idempotencyMiddleware (sv_redis sv) (sv_parse sv) (sv_sha sv) (sv_ps sv),
      validateBody (sv_issues sv)]"

definition serve_post_order :: "server \<Rightarrow> order_creator \<Rightarrow> http_req \<Rightarrow> exchange io" where
  "serve_post_order sv create rq =
     serve sv (body_schema sv) (order_hooks sv) (post_order (sv_issues sv) (sv_toISOString sv) create) rq"

definition serve_get_order :: "server \<Rightarrow> order_repo \<Rightarrow> http_req \<Rightarrow> exchange io" where
  "serve_get_order sv orders rq = serve sv (params_schema sv) [] (get_order (sv_toISOString sv) orders) rq"

definition serve_get_saga :: "server \<Rightarrow> saga_repo \<Rightarrow> http_req \<Rightarrow> exchange io" where
  "serve_get_saga sv sagas rq = serve sv (params_schema sv) [] (get_order_saga (sv_toISOString sv) sagas) rq"


section \<open>What the hooks do\<close>

text \<open>A hook touches nothing but Redis and passes the request on as it came.\<close>

definition answered :: "exchange \<Rightarrow> bool" where
  "answered ex \<longleftrightarrow> ex_sent ex \<noteq> None \<or> ex_error ex \<noteq> None"

definition hook_frame :: "hook \<Rightarrow> bool" where
  "hook_frame h \<longleftrightarrow> (\<forall>ex. yields only_redis (\<lambda>ex'. ex_req ex' = ex_req ex \<and> ex_meta ex' = ex_meta ex) (h ex))"

lemma set_header_sel [simp]:
  "ex_req (set_header k v ex) = ex_req ex" "ex_meta (set_header k v ex) = ex_meta ex"
  "ex_sent (set_header k v ex) = ex_sent ex" "ex_error (set_header k v ex) = ex_error ex"
  by (simp_all add: set_header_def)

lemma send_sel [simp]:
  "ex_req (send ex st b) = ex_req ex" "ex_meta (send ex st b) = ex_meta ex" "ex_error (send ex st b) = ex_error ex"
  "ex_req (send_problem ex st b) = ex_req ex" "ex_meta (send_problem ex st b) = ex_meta ex"
  "ex_error (send_problem ex st b) = ex_error ex"
  "map_option rp_status (ex_sent (send ex st b)) = Some st"
  "map_option rp_status (ex_sent (send_problem ex st b)) = Some st"
  by (simp_all add: send_def send_problem_def)

lemma only_redis_commands:
  assumes "redis_laws C"
  shows "upholds only_redis (rd_get C k)" "upholds only_redis (rd_setEX C k v n)"
    "upholds only_redis (rd_incr C k)" "upholds only_redis (rd_pexpireat C k t)"
  using redis_lawsD [OF assms] by (simp_all add: upholds_def wp_def)

lemma only_redis_store:
  assumes C: "redis_laws C"
  shows "upholds only_redis (idempotency_get C parse c k)" "upholds only_redis (idempotency_set C ps cfg c k r)"
    "upholds only_redis (isAllowed C cfg c)" "upholds only_redis nowM" "upholds only_redis uuidM"
proof -
  show now: "upholds only_redis nowM" "upholds only_redis uuidM"
    by (simp_all add: upholds_def nowM_def uuidM_def only_redis_tick)
  show "upholds only_redis (idempotency_get C parse c k)" "upholds only_redis (idempotency_set C ps cfg c k r)"
    "upholds only_redis (isAllowed C cfg c)"
    unfolding idempotency_get_def idempotency_set_def isAllowed_def Let_def
    by (intro upholds_catchM upholds_bindM upholds_thenM upholds_whenM upholds_option upholds_if upholds_ret upholds_throw
        preord_only_redis only_redis_commands [OF C] now)+
qed

lemma yields_after:
  "upholds only_redis m \<Longrightarrow> (\<And>a. yields only_redis Q (f a)) \<Longrightarrow> yields only_redis Q (bindM m f)"
  by (rule yields_bindM [where P = "\<lambda>_. True"]) (auto intro: upholds_yields)

lemma hook_frame_requestContext: "hook_frame requestContextMiddleware"
  unfolding hook_frame_def requestContextMiddleware_def
  by (auto split: option.split intro!: yields_after yields_ret
      simp: upholds_def nowM_def uuidM_def only_redis_tick)

lemma hook_frame_rateLimit:
  assumes "redis_laws C"
  shows "hook_frame (rateLimitMiddleware C dt cfg)"
  unfolding hook_frame_def rateLimitMiddleware_def Let_def
  by (auto intro!: yields_after yields_ret only_redis_store [OF assms])

lemma idempotency_frame:
  assumes "redis_laws C" and "\<not> answered ex"
  shows "yields only_redis (\<lambda>ex'. ex_req ex' = ex_req ex \<and> (answered ex' \<longrightarrow> ex_meta ex' = ex_meta ex))
    (idempotencyMiddleware C parse sha ps ex)"
  using assms(2) unfolding idempotencyMiddleware_def Let_def
  by (auto intro!: yields_after yields_ret only_redis_store [OF assms(1)] simp: answered_def split: option.split)

lemma yields_run_hooks_Cons:
  assumes "yields only_redis P (h ex)"
    and "\<And>ex'. P ex' \<Longrightarrow> \<not> answered ex' \<Longrightarrow> yields only_redis Q (run_hooks hs ex')"
    and "\<And>ex'. P ex' \<Longrightarrow> answered ex' \<Longrightarrow> Q ex'"
  shows "yields only_redis Q (run_hooks (h # hs) ex)"
  unfolding run_hooks.simps
proof (rule yields_bindM [OF preord_only_redis assms(1)])
  show "yields only_redis Q (if ex_sent a \<noteq> None \<or> ex_error a \<noteq> None then ret a else run_hooks hs a)" if "P a" for a
    using assms(2,3) [OF that] yields_ret [OF preord_only_redis, of Q a] by (simp add: answered_def)
qed

text \<open>An invalid body does not get past the hooks of the route that creates orders.\<close>

definition refused :: "exchange \<Rightarrow> bool" where
  "refused ex \<longleftrightarrow> answered ex \<and> (ex_meta ex = None \<or> ex_error ex = None \<and> map_option rp_status (ex_sent ex) = Some 422)"

lemma validateBody_refuses:
  assumes "CreateOrderSchema (body_json (ex_req ex)) = None"
  shows "validateBody iss ex = ret (send_problem ex 422 (problem ''validation-error'' ''Validation Error'' 422
      ''The request body contains invalid data.'' [(''errors'', JArr (map issue_json (iss (body_json (ex_req ex)))))]))"
  using assms by (simp add: validateBody_def Let_def)

lemma hooks_refuse:
  assumes C: "redis_laws (sv_redis sv)" and bad: "CreateOrderSchema (body_json (rx_rq)) = None"
  shows "yields only_redis refused (run_hooks (requestContextMiddleware # order_hooks sv) (open_exchange rx_rq))"
  unfolding order_hooks_def
proof (rule yields_run_hooks_Cons [OF hook_frame_requestContext [unfolded hook_frame_def, THEN spec]])
  fix ex1
  assume 1: "ex_req ex1 = ex_req (open_exchange rx_rq) \<and> ex_meta ex1 = ex_meta (open_exchange rx_rq)" "\<not> answered ex1"
  show "yields only_redis refused (run_hooks [rateLimitMiddleware (sv_redis sv) (sv_toISOString sv) (sv_cfg sv),
      idempotencyMiddleware (sv_redis sv) (sv_parse sv) (sv_sha sv) (sv_ps sv), validateBody (sv_issues sv)] ex1)"
  proof (rule yields_run_hooks_Cons [OF hook_frame_rateLimit [OF C, unfolded hook_frame_def, THEN spec]])
    fix ex2
    assume 2: "ex_req ex2 = ex_req ex1 \<and> ex_meta ex2 = ex_meta ex1" "\<not> answered ex2"
    show "yields only_redis refused (run_hooks [idempotencyMiddleware (sv_redis sv) (sv_parse sv) (sv_sha sv) (sv_ps sv),
        validateBody (sv_issues sv)] ex2)"
    proof (rule yields_run_hooks_Cons [where P = "\<lambda>ex'. ex_req ex' = ex_req ex2 \<and> (answered ex' \<longrightarrow> ex_meta ex' = ex_meta ex2)"])
      show "yields only_redis (\<lambda>ex'. ex_req ex' = ex_req ex2 \<and> (answered ex' \<longrightarrow> ex_meta ex' = ex_meta ex2))
          (idempotencyMiddleware (sv_redis sv) (sv_parse sv) (sv_sha sv) (sv_ps sv) ex2)"
        by (rule idempotency_frame [OF C 2(2)])
      fix ex3
      assume 3: "ex_req ex3 = ex_req ex2 \<and> (answered ex3 \<longrightarrow> ex_meta ex3 = ex_meta ex2)" "\<not> answered ex3"
      have "CreateOrderSchema (body_json (ex_req ex3)) = None" using 1 2 3 bad by (simp add: open_exchange_def)
      then show "yields only_redis refused (run_hooks [validateBody (sv_issues sv)] ex3)"
        using 3(2) by (auto simp: validateBody_refuses send_problem_def send_def refused_def answered_def bindM_def
            yields_def wp_def ret_def preord_refl)
    qed (use 1 2 in \<open>auto simp: refused_def open_exchange_def\<close>)
  qed (use 1 in \<open>auto simp: refused_def open_exchange_def\<close>)
qed (auto simp: refused_def open_exchange_def)

lemma errorHandler_sel [simp]:
  "ex_req (errorHandler v e ex) = ex_req ex" "ex_meta (errorHandler v e ex) = ex_meta ex"
  "\<exists>rp. ex_sent (errorHandler v e ex) = Some rp"
  by (auto simp: errorHandler_def Let_def send_problem_def send_def split: error.split)

lemma run_route_refused:
  assumes "yields only_redis refused (run_hooks hs ex)"
  shows "yields only_redis (\<lambda>ex'. \<exists>rp. ex_sent ex' = Some rp \<and> (ex_meta ex' = None \<or> rp_status rp = 422)) (run_route v hs handler ex)"
  unfolding run_route_def
proof (rule yields_bindM [OF preord_only_redis assms])
  fix ex1
  assume "refused ex1"
  then show "yields only_redis (\<lambda>ex'. \<exists>rp. ex_sent ex' = Some rp \<and> (ex_meta ex' = None \<or> rp_status rp = 422))
      (case ex_error ex1 of Some e \<Rightarrow> ret (errorHandler v e ex1)
       | None \<Rightarrow> if ex_sent ex1 \<noteq> None then ret ex1 else catchM (handler ex1) (\<lambda>e. ret (errorHandler v e ex1)))"
    by (auto simp: refused_def answered_def split: option.split intro!: yields_ret)
qed



lemma only_redis_onSend: "redis_laws C \<Longrightarrow> upholds only_redis (onSend C ps dt ser cfg ex)"
  unfolding onSend_def
  by (auto split: option.split intro!: upholds_bindM upholds_catchM upholds_ret only_redis_store)

lemma those_map_Some: "those (map f xs) = Some ys \<Longrightarrow> list_all2 (\<lambda>x y. f x = Some y) xs ys"
  by (induction xs arbitrary: ys) (auto split: option.splits)

lemma schema_Some:
  assumes "CreateOrderSchema j = Some inp"
  shows "length (in_currency inp) = 3" "in_items inp \<noteq> []" "length (in_items inp) \<le> 50"
    "\<And>l. l \<in> set (in_items inp) \<Longrightarrow> \<exists>x. CreateOrderItemSchema x = Some l"
proof -
  obtain cid vs cur tok lines where inp: "1 \<le> length vs" "length vs \<le> 50" "length cur = 3"
    "those (map CreateOrderItemSchema vs) = Some lines"
    "inp = \<lparr>in_customerId = cid, in_items = lines, in_currency = cur, in_paymentToken = tok\<rparr>"
    using assms unfolding CreateOrderSchema_def
    by (auto split: option.splits json.splits if_splits; metis length_Cons list.size(3) numeral_3_eq_3)
  have "list_all2 (\<lambda>x l. CreateOrderItemSchema x = Some l) vs lines"
    using inp(4) by (rule those_map_Some)
  then have "length lines = length vs" "\<And>l. l \<in> set lines \<Longrightarrow> \<exists>x. CreateOrderItemSchema x = Some l"
    by (auto dest: list_all2_lengthD simp: list_all2_conv_all_nth in_set_conv_nth)
  then show "length (in_currency inp) = 3" "in_items inp \<noteq> []" "length (in_items inp) \<le> 50"
    "\<And>l. l \<in> set (in_items inp) \<Longrightarrow> \<exists>x. CreateOrderItemSchema x = Some l"
    using inp by auto
qed

lemma sum_list_le: "(\<And>x. x \<in> set xs \<Longrightarrow> f x \<le> k) \<Longrightarrow> sum_list (map f xs) \<le> length xs * (k :: nat)"
  by (induction xs) (fastforce intro: add_mono)+

lemma line_Some:
  assumes "CreateOrderItemSchema x = Some l"
  shows "1 \<le> length (ol_sku l)" "length (ol_sku l) \<le> 64" "sku_VALID (ol_sku l)"
    "is_integer (ol_quantity l)" "\<not> le_zero (ol_quantity l)" "whole (ol_quantity l) \<le> 1000"
    "price_cents (ol_unitPrice l) \<noteq> None"
  using assms unfolding CreateOrderItemSchema_def by (auto split: option.splits json.splits if_splits)

lemma line_makes_item:
  assumes L: "decimal_laws L rep" and l: "CreateOrderItemSchema x = Some l" and c: "length c = 3"
  shows "\<exists>i. createOrderItem L iid oid (ol_sku l) (ol_quantity l) (ol_unitPrice l) c = Inr i"
proof -
  obtain n where n: "price_cents (ol_unitPrice l) = Some n" using line_Some [OF l] by auto
  have "new_sku (ol_sku l) = Inr (SKU (ol_sku l))" using line_Some [OF l] by (simp add: new_sku_Inr_iff sku_VALID_def)
  then show ?thesis
    using line_Some [OF l] new_money_price [OF L n c] by (simp add: createOrderItem_def)
qed

text \<open>The server of the witnesses: a Redis in memory, no schema stage, an empty view of errors.\<close>

definition example_server :: server where
  "example_server =
     \<lparr>sv_redis = mem_redis, sv_parse = (\<lambda>_. None), sv_sha = (\<lambda>_. replicate 32 0), sv_ps = (\<lambda>_. []),
      sv_toISOString = int_string, sv_serialize = (\<lambda>_ _. []), sv_issues = (\<lambda>_. []),
      sv_view = (\<lambda>_. \<lparr>fe_name = None, fe_statusCode = None, fe_message = []\<rparr>), sv_bodySchema = Inr,
      sv_paramsSchema = (\<lambda>_. None), sv_cfg = example_config\<rparr>"


section \<open>The properties\<close>

text \<open>
  C20. An invalid order reaches nothing: a request whose body, as the schema stage of Fastify passes it
  on, does not satisfy \<open>CreateOrderSchema\<close> changes nothing but Redis (the service is not called), is
  always answered, and with 422 once it is past the rate limiter and the idempotency middleware.
\<close>

theorem invalid_order_refused:
  assumes C: "redis_laws (sv_redis sv)"
    and bad: "\<And>b. sv_bodySchema sv (rx_body rq) = Inr b \<Longrightarrow> CreateOrderSchema (case b of Some j \<Rightarrow> j | None \<Rightarrow> JNull) = None"
  shows "wp (serve_post_order sv create rq) (\<lambda>r w'. only_redis w w' \<and> (\<forall>ex. r = Ok ex \<longrightarrow>
      (\<exists>rp. ex_sent ex = Some rp \<and> (ex_meta ex = None \<or> rp_status rp = 422)))) w"
proof -
  let ?Q = "\<lambda>ex. \<exists>rp. ex_sent ex = Some rp \<and> (ex_meta ex = None \<or> rp_status rp = 422)"
  have "yields only_redis ?Q (case body_schema sv rq of Inl e \<Rightarrow> ret (errorHandler (sv_view sv) e (open_exchange rq))
      | Inr rq' \<Rightarrow> run_route (sv_view sv) (requestContextMiddleware # order_hooks sv)
          (post_order (sv_issues sv) (sv_toISOString sv) create) (open_exchange rq'))"
  proof (cases "body_schema sv rq")
    case (Inl e)
    then show ?thesis
      using errorHandler_sel(2,3) [of "sv_view sv" e "open_exchange rq"] by (auto intro!: yields_ret simp: open_exchange_def)
  next
    case (Inr rq')
    then obtain b where b: "sv_bodySchema sv (rx_body rq) = Inr b" "rq' = rq\<lparr>rx_body := b\<rparr>"
      by (auto simp: body_schema_def split: sum.splits)
    then have "CreateOrderSchema (body_json rq') = None" using bad by (simp add: body_json_def)
    then show ?thesis unfolding Inr sum.case by (intro run_route_refused hooks_refuse C)
  qed
  then have "yields only_redis ?Q (serve_post_order sv create rq)"
    unfolding serve_post_order_def serve_def
    by (rule yields_bindM [OF preord_only_redis])
      (auto intro!: yields_bindM [OF preord_only_redis upholds_yields [OF only_redis_onSend [OF C]]] yields_ret simp: thenM_def)
  then show ?thesis by (rule yieldsD)
qed

theorem invalid_order_refused_witness:
  "wp (serve_post_order example_server (service_createOrder cents_lib (pg_order_repo cents_lib) pg_outbox_repo
         (saga_enqueue list_bullmq example_config) pg_tx_manager)
        \<lparr>rx_id = ''r1'', rx_method = ''POST'', rx_url = ''/'', rx_headers = Map.empty, rx_body = Some (JStr ''x''),
         rx_ip = None, rx_params = Map.empty, rx_query = Map.empty\<rparr>)
     (\<lambda>r w'. w_db w' = empty_db) (world_of quiet_env empty_db)"
proof (rule wp_mono [OF invalid_order_refused])
  show "redis_laws (sv_redis example_server)" by (simp add: example_server_def mem_redis_laws)
  have "CreateOrderSchema (JStr ''x'') = None" by code_simp
  then show "CreateOrderSchema (case b of Some j \<Rightarrow> j | None \<Rightarrow> JNull) = None"
    if "sv_bodySchema example_server (rx_body \<lparr>rx_id = ''r1'', rx_method = ''POST'', rx_url = ''/'', rx_headers = Map.empty,
        rx_body = Some (JStr ''x''), rx_ip = None, rx_params = Map.empty, rx_query = Map.empty\<rparr>) = Inr b" for b
    using that by (auto simp: example_server_def)
qed (auto simp: world_of_def dest: only_redis_sel)

text \<open>
  C31. The schema of a request implies what the domain demands: when \<open>CreateOrderSchema\<close> accepts a body,
  every line of it makes an order item, and the items make an order as long as no price has more than
  22 digits, so that a total of 28 digits holds the sum.
\<close>

theorem schema_implies_domain:
  assumes L: "decimal_laws L rep" and ok: "CreateOrderSchema j = Some inp"
  shows "(\<forall>l \<in> set (in_items inp). \<exists>i. createOrderItem L iid oid (ol_sku l) (ol_quantity l) (ol_unitPrice l) (in_currency inp) = Inr i)
    \<and> (\<forall>items. items_from L oid (in_currency inp) (in_items inp) items \<longrightarrow>
          (\<forall>l \<in> set (in_items inp). \<forall>n. price_cents (ol_unitPrice l) = Some n \<longrightarrow> n < 10 ^ 22) \<longrightarrow>
          (\<exists>ord. createOrder L oid (in_customerId inp) items (in_currency inp) key t1 t2 = Inr ord))"
proof (intro conjI ballI allI impI)
  have len: "length (in_currency inp) = 3" and n50: "length (in_items inp) \<le> 50" "in_items inp \<noteq> []"
    and line: "\<And>l. l \<in> set (in_items inp) \<Longrightarrow> \<exists>x. CreateOrderItemSchema x = Some l"
    using schema_Some [OF ok] by auto
  show "\<exists>i. createOrderItem L iid oid (ol_sku l) (ol_quantity l) (ol_unitPrice l) (in_currency inp) = Inr i"
    if "l \<in> set (in_items inp)" for l
    using line_makes_item [OF L _ len] line [OF that] by blast
  fix items
  assume items: "items_from L oid (in_currency inp) (in_items inp) items"
    and price: "\<forall>l \<in> set (in_items inp). \<forall>n. price_cents (ol_unitPrice l) = Some n \<longrightarrow> n < 10 ^ 22"
  have one: "priced_in (toUpperCase (in_currency inp)) i \<and> item_cents i \<le> 10 ^ 22 * 1000"
    if l: "l \<in> set (in_items inp)"
      and i: "createOrderItem L (item_id i) oid (ol_sku l) (ol_quantity l) (ol_unitPrice l) (in_currency inp) = Inr i" for l i
  proof -
    obtain x where x: "CreateOrderItemSchema x = Some l" using line [OF l] by blast
    obtain n where n: "price_cents (ol_unitPrice l) = Some n" using line_Some [OF x] by auto
    have "item_unitPrice i = cents n (toUpperCase (in_currency inp))" "item_quantity i \<le> 1000"
      using createOrderItem_Inr [OF i] new_money_price [OF L n len] line_Some(6) [OF x] by (auto simp: whole_def)
    moreover have "n \<le> 10 ^ 22" using price l n by force
    ultimately have "item_cents i \<le> 10 ^ 22 * 1000"
      using mult_le_mono [of n "10 ^ 22" "nat (item_quantity i)" 1000] by (simp add: item_cents_def)
    then show ?thesis using createOrderItem_priced [OF L n i] by simp
  qed
  have all: "list_all2 (\<lambda>l i. priced_in (toUpperCase (in_currency inp)) i \<and> item_cents i \<le> 10 ^ 22 * 1000) (in_items inp) items"
    using items unfolding items_from_def
    by (rule list.rel_mono_strong) (use one in blast)
  then have "\<forall>i \<in> set items. priced_in (toUpperCase (in_currency inp)) i \<and> item_cents i \<le> 10 ^ 22 * 1000"
    "length items = length (in_items inp)"
    by (auto simp: list_all2_conv_all_nth in_set_conv_nth)
  moreover from this have "total_cents items \<le> length items * (10 ^ 22 * 1000)"
    unfolding total_cents_def by (intro sum_list_le) auto
  ultimately show "\<exists>ord. createOrder L oid (in_customerId inp) items (in_currency inp) key t1 t2 = Inr ord"
    using createOrder_total [OF L len, of items] n50 by (force simp: list_all_iff)
qed

theorem schema_implies_domain_witness:
  "\<exists>inp i. CreateOrderSchema (JObj [(''customerId'', JStr ''c''), (''items'', JArr [JObj [(''sku'', JStr ''A''),
      (''quantity'', JNum (Whole 2)), (''unitPrice'', JStr ''19.99'')]]), (''paymentToken'', JStr ''tok'')]) = Some inp
     \<and> createOrderItem cents_lib ''i1'' ''o1'' ''A'' (Whole 2) ''19.99'' (in_currency inp) = Inr i"
proof -
  let ?inp = "\<lparr>in_customerId = ''c'', in_items = [\<lparr>ol_sku = ''A'', ol_quantity = Whole 2, ol_unitPrice = ''19.99''\<rparr>],
      in_currency = ''USD'', in_paymentToken = ''tok''\<rparr>"
  have "CreateOrderSchema (JObj [(''customerId'', JStr ''c''), (''items'', JArr [JObj [(''sku'', JStr ''A''),
      (''quantity'', JNum (Whole 2)), (''unitPrice'', JStr ''19.99'')]]), (''paymentToken'', JStr ''tok'')]) = Some ?inp"
    by code_simp
  with schema_implies_domain [OF cents_lib_laws this, of "''i1''" "''o1''"] show ?thesis
    by (intro exI [of _ ?inp]) auto
qed

text \<open>
  C13. Idempotent replay: when the store holds an answer for the client and the key, the same body is
  answered with it, marked as a replay, and another body with 409; the request goes on to the handler
  only when the store did not give the answer (an error of Redis, or an expired key).
\<close>

theorem idempotent_replay:
  assumes C: "redis_laws C" and ex: "ex_meta ex = None"
    and hdr: "rx_headers (ex_req ex) ''idempotency-key'' = Some key" "rx_headers (ex_req ex) ''x-client-id'' = Some client"
      "key \<noteq> []" "client \<noteq> []"
    and stored: "w_redis w (idempotency_key client key) = Some (stringify ps (record_json rec), t)"
    and parse: "parse (stringify ps (record_json rec)) = Some (record_json rec)" "parse (ir_response rec) = Some body"
  shows "wp (idempotencyMiddleware C parse sha ps ex) (\<lambda>r w'. only_redis w w' \<and> (\<forall>e. r \<noteq> Throw e) \<and> (\<forall>ex'. r = Ok ex' \<longrightarrow>
     (if ex_meta ex' \<noteq> None then \<exists>w1 e. rd_get C (idempotency_key client key) w \<in> {(Ok None, w1), (Throw e, w1)}
      else if ir_requestHash rec = hashBody sha ps (ex_req ex)
      then ex_sent ex' = Some \<lparr>rp_status = ir_status rec, rp_headers = ex_headers ex @ [(''X-Idempotent-Replay'', ''true'')],
                               rp_body = body\<rparr>
      else map_option rp_status (ex_sent ex') = Some 409))) w"
proof -
  let ?k = "idempotency_key client key"
  obtain r1 w1 where get: "rd_get C ?k w = (r1, w1)" by fastforce
  have law: "only_redis w w1" "\<And>v. r1 = Ok (Some v) \<Longrightarrow> v = stringify ps (record_json rec)"
    using wpI [OF redis_lawsD(1) [OF C] get] stored by auto
  have ne: "stringify ps (record_json rec) \<noteq> []" by (simp add: record_json_def)
  have th: "truthy_header (ex_req ex) ''idempotency-key'' = Some key" "truthy_header (ex_req ex) ''x-client-id'' = Some client"
    using hdr by (simp_all add: truthy_header_def)
  have "idempotency_get C parse client key w = (case r1 of Ok None \<Rightarrow> (Ok None, w1) | Ok (Some v) \<Rightarrow> (Ok (Some rec), w1)
      | Throw e \<Rightarrow> (Ok None, w1) | Crashed \<Rightarrow> (Crashed, w1))"
  proof (cases "\<exists>v. r1 = Ok (Some v)")
    case True
    then have "r1 = Ok (Some (stringify ps (record_json rec)))" using law(2) by blast
    then show ?thesis by (simp add: idempotency_get_def catchM_def bindM_def get ret_def ne parse(1))
  next
    case False
    then show ?thesis
      by (cases r1) (simp_all add: idempotency_get_def catchM_def bindM_def get ret_def split: option.split)
  qed
  note got = this
  show ?thesis
  proof (cases "r1 = Crashed \<or> (\<exists>v. r1 = Ok (Some v))")
    case True
    then show ?thesis
      unfolding idempotencyMiddleware_def th option.case prod.case Let_def
      using ex law(1) parse(2) got
      by (elim disjE exE) (simp_all add: wp_def bindM_def ret_def send_def set_header_def send_problem_def)
  next
    case False
    then have "idempotency_get C parse client key w = (Ok None, w1)" "\<exists>e. r1 = Ok None \<or> r1 = Throw e"
      using got by (auto split: res.splits option.splits)
    then show ?thesis
      unfolding idempotencyMiddleware_def th option.case prod.case Let_def
      using law(1) get by (auto simp: wp_def bindM_def ret_def)
  qed
qed

theorem idempotent_replay_witness:
  "\<exists>parse w. wp (idempotencyMiddleware mem_redis parse (\<lambda>_. []) (\<lambda>_. [])
        (open_exchange \<lparr>rx_id = ''r1'', rx_method = ''POST'', rx_url = ''/'',
           rx_headers = [''idempotency-key'' \<mapsto> ''k1'', ''x-client-id'' \<mapsto> ''c1''], rx_body = None, rx_ip = None,
           rx_params = Map.empty, rx_query = Map.empty\<rparr>))
     (\<lambda>r w'. \<forall>ex'. r = Ok ex' \<longrightarrow> ex_meta ex' = None \<longrightarrow> map_option rp_status (ex_sent ex') = Some 201) w"
proof -
  let ?rec = "\<lparr>ir_requestId = ''r0'', ir_status = 201, ir_response = ''x'', ir_requestHash = [], ir_createdAt = []\<rparr>"
  let ?rq = "\<lparr>rx_id = ''r1'', rx_method = ''POST'', rx_url = ''/'',
           rx_headers = [''idempotency-key'' \<mapsto> ''k1'', ''x-client-id'' \<mapsto> ''c1''], rx_body = None, rx_ip = None,
           rx_params = Map.empty, rx_query = Map.empty\<rparr>"
  let ?parse = "(\<lambda>_. None)(stringify (\<lambda>_. []) (record_json ?rec) \<mapsto> record_json ?rec, ''x'' \<mapsto> JNull)"
  let ?w = "(world_of quiet_env empty_db)\<lparr>w_redis := [idempotency_key ''c1'' ''k1'' \<mapsto> (stringify (\<lambda>_. []) (record_json ?rec), None)]\<rparr>"
  have "stringify (\<lambda>_. []) (record_json ?rec) \<noteq> ''x''" by (simp add: record_json_def)
  moreover have "hashBody (\<lambda>_. []) (\<lambda>_. []) ?rq = []" by (simp add: hashBody_def hex_encode_def)
  ultimately have "wp (idempotencyMiddleware mem_redis ?parse (\<lambda>_. []) (\<lambda>_. []) (open_exchange ?rq))
     (\<lambda>r w'. \<forall>ex'. r = Ok ex' \<longrightarrow> ex_meta ex' = None \<longrightarrow> map_option rp_status (ex_sent ex') = Some 201) ?w"
    by (intro wp_mono [OF idempotent_replay [OF mem_redis_laws, where key = "''k1''" and client = "''c1''" and rec = ?rec and body = JNull]])
      (auto simp: open_exchange_def)
  then show ?thesis by blast
qed

text \<open>
  C34. Only answers of the handlers are remembered, and only successful ones: the \<open>onSend\<close> hook writes
  at most the key of the request's client and idempotency key, nothing when the status is not 2xx or
  the request has not passed the idempotency middleware, and it never throws.
\<close>

theorem only_success_remembered:
  assumes C: "redis_laws C"
  shows "wp (onSend C ps dt ser cfg ex) (\<lambda>r w'. only_redis w w' \<and> (\<forall>e. r \<noteq> Throw e)
     \<and> (\<forall>k. w_redis w' k \<noteq> w_redis w k \<longrightarrow> (\<exists>m rp. ex_meta ex = Some m \<and> ex_sent ex = Some rp
          \<and> 200 \<le> rp_status rp \<and> rp_status rp < 300 \<and> k = idempotency_key (im_clientId m) (im_key m)))) w"
proof (cases "\<exists>m rp. ex_meta ex = Some m \<and> ex_sent ex = Some rp \<and> 200 \<le> rp_status rp \<and> rp_status rp < 300")
  case True
  then obtain m rp where mr: "ex_meta ex = Some m" "ex_sent ex = Some rp" "200 \<le> rp_status rp" "rp_status rp < 300"
    by blast
  let ?k = "idempotency_key (im_clientId m) (im_key m)"
  have set: "wp (rd_setEX C ?k v n) (\<lambda>r w'. only_redis w w' \<and> (\<forall>k'. k' \<noteq> ?k \<longrightarrow> w_redis w' k' = w_redis w k')) (tick w)" for v n
    using only_redis_tick preord_trans [OF preord_only_redis only_redis_tick]
    by (rule_tac wp_mono [OF redis_lawsD(2) [OF C]]) auto
  show ?thesis
    unfolding onSend_def mr prod.case option.case if_P [OF conjI [OF mr(3,4)]] wp_bindM wp_nowM res.case wp_catchM
      idempotency_set_def
    by (rule wp_mono [OF set]) (auto simp: wp_ret mr split: res.split)
next
  case False
  then have "onSend C ps dt ser cfg ex = ret ()"
    by (auto simp: onSend_def split: option.split)
  then show ?thesis by (simp add: wp_ret preord_refl)
qed

theorem only_success_remembered_witness:
  "wp (onSend mem_redis (\<lambda>_. []) int_string (\<lambda>_ _. []) example_config
        ((open_exchange \<lparr>rx_id = ''r1'', rx_method = ''POST'', rx_url = ''/'', rx_headers = Map.empty, rx_body = None,
           rx_ip = None, rx_params = Map.empty, rx_query = Map.empty\<rparr>)\<lparr>ex_meta := Some \<lparr>im_clientId = ''c1'', im_key = ''k1'', im_hash = []\<rparr>,
             ex_sent := Some \<lparr>rp_status = 500, rp_headers = [], rp_body = JNull\<rparr>\<rparr>))
     (\<lambda>r w'. w_redis w' ''k'' = None) (world_of quiet_env empty_db)"
  by (rule wp_mono [OF only_success_remembered [OF mem_redis_laws]])
    (simp add: world_of_def, metis option.exhaust surj_pair)

end
