(* ===== verification/Admin.thy ===== *)
theory Admin
  imports Api
begin

text \<open>
  The admin server: \<open>src/src/api/middleware/admin-auth.ts\<close>, the routes on failed jobs
  (\<open>src/src/api/routes/admin/dlq.ts\<close>) and on sagas (\<open>src/src/api/routes/admin/sagas.ts\<close>).
\<close>


section \<open>The admin key\<close>

text \<open>\<open>Buffer.from(s, 'utf8')\<close>, for the code units below 256 the model's strings are made of.\<close>

definition utf8_char :: "char \<Rightarrow> nat list" where
  "utf8_char c = (let n = of_char c in if n < 128 then [n] else [192 + n div 64, 128 + n mod 64])"

definition utf8 :: "string \<Rightarrow> nat list" where
  "utf8 s = concat (map utf8_char s)"

text \<open>\<open>timingSafeEqual\<close> throws on buffers of different lengths, which the code compares first.\<close>

definition same_key :: "string \<Rightarrow> string \<Rightarrow> bool" where
  "same_key expected_key provided =
     (let expected = utf8 expected_key; actual = utf8 provided
      in length expected = length actual \<and> expected = actual)"

definition verifyAdminKey :: "app_config \<Rightarrow> exchange \<Rightarrow> bool \<times> exchange" where
  "verifyAdminKey cfg ex =
     (case truthy_header (ex_req ex) ''x-api-key'' of
        None \<Rightarrow> (False, send_problem ex 401 (problem ''unauthorized'' ''Unauthorized'' 401
                   ''X-API-Key header is required for admin endpoints.'' []))
      | Some provided \<Rightarrow>
          if \<not> same_key (adminApiKey cfg) provided
          then (False, send_problem ex 403 (problem ''forbidden'' ''Forbidden'' 403 ''Invalid admin API key.'' []))
          else (True, ex))"

text \<open>\<open>if (!verifyAdminKey(request, reply)) return;\<close>\<close>

definition admin_only :: "app_config \<Rightarrow> (exchange \<Rightarrow> exchange io) \<Rightarrow> exchange \<Rightarrow> exchange io" where
  "admin_only cfg handler ex =
     (case verifyAdminKey cfg ex of (ok, ex1) \<Rightarrow> if \<not> ok then ret ex1 else handler ex1)"


section \<open>Failed jobs\<close>

definition MANAGED_QUEUES :: "string list" where
  "MANAGED_QUEUES = [''payment-processing'', ''inventory-release'', ''webhook-delivery'']"

text \<open>\<open>new Queue(name, { connection, prefix })\<close>: the defaults of BullMQ for the rest.\<close>

definition admin_queue :: "app_config \<Rightarrow> string \<Rightarrow> queue_handle" where
  "admin_queue cfg name =
     \<lparr>qh_name = name, qh_prefix = queuePrefix cfg, qh_attempts = 1, qh_backoffDelay = 0,
      qh_removeOnComplete = None, qh_removeOnFail = False\<rparr>"

definition target_queues :: "http_req \<Rightarrow> string list" where
  "target_queues rq = (case rx_query rq ''queue'' of
      Some q \<Rightarrow> if q = [] then MANAGED_QUEUES else [q] | None \<Rightarrow> MANAGED_QUEUES)"

text \<open>\<open>Math.min(q, k)\<close> and \<open>q - 1\<close> on what \<open>parseInt\<close> returns: an integer or \<open>NaN\<close>.\<close>

definition js_min :: "js_number \<Rightarrow> int \<Rightarrow> js_number" where
  "js_min q k = (case q of Whole n \<Rightarrow> Whole (min n k) | _ \<Rightarrow> NaN)"

definition js_pred :: "js_number \<Rightarrow> js_number" where
  "js_pred q = (case q of Whole n \<Rightarrow> Whole (n - 1) | _ \<Rightarrow> NaN)"

definition query_or :: "http_req \<Rightarrow> string \<Rightarrow> string \<Rightarrow> string" where
  "query_or rq k d = (case rx_query rq k of Some v \<Rightarrow> v | None \<Rightarrow> d)"

text \<open>A time that is \<open>0\<close> is falsy.\<close>

definition job_time :: "(int \<Rightarrow> string) \<Rightarrow> int option \<Rightarrow> json" where
  "job_time toISOString t =
     (case t of Some t \<Rightarrow> if t = 0 then JNull else JStr (toISOString t) | None \<Rightarrow> JNull)"

definition failed_job_json :: "(int \<Rightarrow> string) \<Rightarrow> string \<Rightarrow> job \<Rightarrow> json" where
  "failed_job_json toISOString queueName j =
     JObj ([(''jobId'', JStr (job_id j)), (''queue'', JStr queueName), (''name'', JStr (job_name j)),
            (''data'', job_data j)]
           @ (case job_failedReason j of Some r \<Rightarrow> [(''failedReason'', JStr r)] | None \<Rightarrow> [])
           @ [(''attemptsMade'', JNum (Whole (int (job_attemptsMade j)))),
              (''timestamp'', JStr (toISOString (job_timestamp j))),
              (''processedOn'', job_time toISOString (job_processedOn j)),
              (''finishedOn'', job_time toISOString (job_finishedOn j))])"

fun list_failed ::
    "bullmq \<Rightarrow> (int \<Rightarrow> string) \<Rightarrow> app_config \<Rightarrow> js_number \<Rightarrow> string list \<Rightarrow> json list \<Rightarrow> json list io" where
  "list_failed B toISOString cfg limit [] jobs = ret jobs"
| "list_failed B toISOString cfg limit (queueName # qs) jobs =
     (let queue = admin_queue cfg queueName in
      bindM (bq_getFailed B queue (Whole 0) (js_pred limit)) (\<lambda>failed.
      thenM (bq_close B queue)
        (list_failed B toISOString cfg limit qs (jobs @ map (failed_job_json toISOString queueName) failed))))"

definition dlq_list :: "bullmq \<Rightarrow> (int \<Rightarrow> string) \<Rightarrow> app_config \<Rightarrow> exchange \<Rightarrow> exchange io" where
  "dlq_list B toISOString cfg = admin_only cfg (\<lambda>ex.
     let limit = js_min (parseInt (query_or (ex_req ex) ''limit'' ''50'')) 200 in
     bindM (list_failed B toISOString cfg limit (target_queues (ex_req ex)) []) (\<lambda>jobs.
     ret (send ex 200 (JObj [(''total'', JNum (Whole (int (length jobs)))), (''jobs'', JArr jobs)]))))"

text \<open>
  The loop of both operations on a job: the first queue that has it; \<open>act\<close> is \<open>job.retry('failed')\<close>
  or \<open>job.remove()\<close>.
\<close>

fun on_job ::
    "bullmq \<Rightarrow> app_config \<Rightarrow> (queue_handle \<Rightarrow> string \<Rightarrow> unit io) \<Rightarrow> string \<Rightarrow> string list \<Rightarrow> string option io" where
  "on_job B cfg act jobId [] = ret None"
| "on_job B cfg act jobId (queueName # qs) =
     (let queue = admin_queue cfg queueName in
      bindM (bq_getJob B queue jobId) (\<lambda>j.
      case j of
        Some _ \<Rightarrow> thenM (act queue jobId) (thenM (bq_close B queue) (ret (Some queueName)))
      | None \<Rightarrow> thenM (bq_close B queue) (on_job B cfg act jobId qs)))"

definition job_not_found :: "exchange \<Rightarrow> string \<Rightarrow> exchange" where
  "job_not_found ex jobId = not_found ex (''Job '' @ jobId @ '' not found in any managed queue'')"

definition message_json :: "string \<Rightarrow> json" where
  "message_json m = JObj [(''message'', JStr m)]"

definition dlq_retry :: "bullmq \<Rightarrow> app_config \<Rightarrow> exchange \<Rightarrow> exchange io" where
  "dlq_retry B cfg = admin_only cfg (\<lambda>ex.
     let jobId = param (ex_req ex) ''jobId'' in
     bindM (on_job B cfg (bq_retry B) jobId (target_queues (ex_req ex))) (\<lambda>res.
     case res of
       Some queueName \<Rightarrow>
         ret (send ex 200 (message_json (''Job '' @ jobId @ '' re-queued in '' @ queueName)))
     | None \<Rightarrow> ret (job_not_found ex jobId)))"

definition dlq_remove :: "bullmq \<Rightarrow> app_config \<Rightarrow> exchange \<Rightarrow> exchange io" where
  "dlq_remove B cfg = admin_only cfg (\<lambda>ex.
     let jobId = param (ex_req ex) ''jobId'' in
     bindM (on_job B cfg (bq_remove B) jobId (target_queues (ex_req ex))) (\<lambda>res.
     case res of
       Some queueName \<Rightarrow>
         ret (send ex 200 (message_json (''Job '' @ jobId @ '' removed from '' @ queueName)))
     | None \<Rightarrow> ret (job_not_found ex jobId)))"


section \<open>Sagas\<close>

definition stuck_saga_json :: "(int \<Rightarrow> string) \<Rightarrow> saga_instance \<Rightarrow> int \<Rightarrow> json" where
  "stuck_saga_json toISOString s now =
     JObj [(''id'', JStr (saga_id s)), (''orderId'', JStr (saga_orderId s)),
           (''status'', JStr (saga_status_name (saga_status s))),
           (''currentStep'', JNum (Whole (saga_currentStep s))),
           (''startedAt'', JStr (toISOString (saga_startedAt s))),
           (''completedAt'', time_json toISOString (saga_completedAt s)),
           (''stuckForMs'', JNum (Whole (now - saga_startedAt s)))]"

text \<open>\<open>sagas.map(...)\<close>; the clock is read for every element.\<close>

fun stuck_sagas :: "(int \<Rightarrow> string) \<Rightarrow> saga_instance list \<Rightarrow> json list io" where
  "stuck_sagas toISOString [] = ret []"
| "stuck_sagas toISOString (s # ss) =
     bindM nowM (\<lambda>now. bindM (stuck_sagas toISOString ss) (\<lambda>js.
     ret (stuck_saga_json toISOString s now # js)))"

definition sagas_list :: "saga_repo \<Rightarrow> (int \<Rightarrow> string) \<Rightarrow> app_config \<Rightarrow> exchange \<Rightarrow> exchange io" where
  "sagas_list sagas toISOString cfg = admin_only cfg (\<lambda>ex.
     let olderThan = parseInt (query_or (ex_req ex) ''olderThanMinutes'' ''10'') in
     bindM (sg_findRunningSagas sagas olderThan) (\<lambda>ss.
     bindM (stuck_sagas toISOString ss) (\<lambda>js.
     ret (send ex 200 (JObj [(''total'', JNum (Whole (int (length ss)))), (''sagas'', JArr js)])))))"

definition compensation_status_name :: "compensation_status \<Rightarrow> string" where
  "compensation_status_name st = (case st of COMP_PENDING \<Rightarrow> ''PENDING'' | COMP_RUNNING \<Rightarrow> ''RUNNING''
      | COMP_COMPLETED \<Rightarrow> ''COMPLETED'' | COMP_FAILED \<Rightarrow> ''FAILED'')"

definition step_detail_json :: "(int \<Rightarrow> string) \<Rightarrow> saga_step_rec \<Rightarrow> json" where
  "step_detail_json toISOString st =
     JObj [(''id'', JStr (step_id st)), (''stepName'', JStr (step_name st)),
           (''stepOrder'', JNum (Whole (step_order st))),
           (''status'', JStr (step_status_name (step_status st))),
           (''inputPayload'', step_input st), (''outputPayload'', step_output st),
           (''errorMessage'', string_json (step_error st)),
           (''startedAt'', time_json toISOString (step_startedAt st)),
           (''completedAt'', time_json toISOString (step_completedAt st)),
           (''compensationStatus'', JStr (compensation_status_name (step_compensation st))),
           (''compensationError'', string_json (step_compensationError st))]"

definition saga_not_found :: "exchange \<Rightarrow> string \<Rightarrow> exchange" where
  "saga_not_found ex sid = not_found ex (''Saga '' @ sid @ '' not found'')"

definition sagas_detail :: "saga_repo \<Rightarrow> (int \<Rightarrow> string) \<Rightarrow> app_config \<Rightarrow> exchange \<Rightarrow> exchange io" where
  "sagas_detail sagas toISOString cfg = admin_only cfg (\<lambda>ex.
     let sid = param (ex_req ex) ''id'' in
     bindM (sg_findById sagas sid) (\<lambda>saga.
     case saga of
       None \<Rightarrow> ret (saga_not_found ex sid)
     | Some s \<Rightarrow>
         bindM (sg_getSteps sagas (saga_id s)) (\<lambda>steps.
         ret (send ex 200 (JObj [
           (''id'', JStr (saga_id s)), (''orderId'', JStr (saga_orderId s)), (''type'', JStr (saga_type s)),
           (''status'', JStr (saga_status_name (saga_status s))),
           (''currentStep'', JNum (Whole (saga_currentStep s))),
           (''startedAt'', JStr (toISOString (saga_startedAt s))),
           (''completedAt'', time_json toISOString (saga_completedAt s)),
           (''metadata'', JObj (saga_metadata s)),
           (''steps'', JArr (map (step_detail_json toISOString) steps))])))))"

text \<open>
  The context the route rebuilds from the metadata of the saga; the members have the types the code
  casts them to.
\<close>

definition meta_string :: "(string \<times> json) list \<Rightarrow> string \<Rightarrow> string" where
  "meta_string meta k = (case map_of meta k of Some (JStr s) \<Rightarrow> s | _ \<Rightarrow> [])"

definition context_of_saga :: "saga_instance \<Rightarrow> saga_context" where
  "context_of_saga saga =
     (let meta = saga_metadata saga in
      \<lparr>cx_orderId = saga_orderId saga,
       cx_customerId = meta_string meta ''customerId'',
       cx_items = (case map_of meta ''items'' of
           Some (JArr is) \<Rightarrow> (case those (map read_item is) of Some items \<Rightarrow> items | None \<Rightarrow> [])
         | _ \<Rightarrow> []),
       cx_totalAmount = (case Option.bind (map_of meta ''totalAmount'') read_money of
           Some a \<Rightarrow> a | None \<Rightarrow> \<lparr>aj_amount = ''0.00'', aj_currency = ''USD''\<rparr>),
       cx_paymentToken = meta_string meta ''paymentToken''\<rparr>)"

text \<open>
  The compensation is started and not awaited; its rejection is logged.  It runs here before the
  reply is sent.
\<close>

definition sagas_compensate ::
    "'d decimal_lib \<Rightarrow> orchestrator \<Rightarrow> app_config \<Rightarrow> exchange \<Rightarrow> exchange io" where
  "sagas_compensate L oc cfg = admin_only cfg (\<lambda>ex.
     let sid = param (ex_req ex) ''id'' in
     bindM (sg_findById (oc_sagas oc) sid) (\<lambda>saga.
     case saga of
       None \<Rightarrow> ret (saga_not_found ex sid)
     | Some s \<Rightarrow>
         if saga_status s \<noteq> SAGA_RUNNING
         then ret (send_problem ex 409 (problem ''invalid-state'' ''Invalid State'' 409
                (''Cannot compensate saga in status '' @ saga_status_name (saga_status s)
                 @ ''. Only RUNNING sagas can be manually compensated.'')
                [(''instance'', JStr (rx_url (ex_req ex)))]))
         else thenM (catchM (thenM (compensate L oc (saga_id s) (context_of_saga s) s) (ret ())) (\<lambda>err. ret ()))
                (ret (send ex 200 (JObj [
                   (''message'', JStr (''Compensation triggered for saga '' @ saga_id s)),
                   (''orderId'', JStr (saga_orderId s))])))))"

text \<open>The admin server has no hooks.\<close>

definition serve_admin ::
    "(error \<Rightarrow> fastify_error) \<Rightarrow> (exchange \<Rightarrow> exchange io) \<Rightarrow> http_req \<Rightarrow> exchange io" where
  "serve_admin err_view handler rq = run_route err_view [] handler (open_exchange rq)"


section \<open>Who gets in\<close>

lemma utf8_char_inject:
  assumes "utf8_char c @ s = utf8_char d @ t"
  shows "c = d \<and> s = t"
proof -
  have "((of_char c :: nat) = of_char d
         \<or> (of_char c :: nat) div 64 = of_char d div 64 \<and> (of_char c :: nat) mod 64 = of_char d mod 64) \<and> s = t"
    using assms unfolding utf8_char_def Let_def by (auto split: if_splits)
  then have "(of_char c :: nat) = of_char d \<and> s = t"
    using mult_div_mod_eq [of 64 "of_char c :: nat"] mult_div_mod_eq [of 64 "of_char d :: nat"] by metis
  then show ?thesis by simp
qed

lemma utf8_inject [simp]: "utf8 s = utf8 t \<longleftrightarrow> s = t"
proof
  have ne: "utf8_char c \<noteq> []" for c by (simp add: utf8_char_def Let_def)
  show "utf8 s = utf8 t \<Longrightarrow> s = t"
  proof (induction s arbitrary: t)
    case Nil
    then show ?case using ne by (cases t) (auto simp: utf8_def)
  next
    case (Cons c s)
    then obtain d t' where t: "t = d # t'" using ne by (cases t) (auto simp: utf8_def)
    with Cons.prems have "utf8_char c @ utf8 s = utf8_char d @ utf8 t'" by (simp add: utf8_def)
    then have "c = d \<and> utf8 s = utf8 t'" by (rule utf8_char_inject)
    with Cons.IH t show ?case by simp
  qed
qed simp

lemma same_key_iff: "same_key expected provided \<longleftrightarrow> provided = expected"
  unfolding same_key_def Let_def by (metis utf8_inject)

lemma verifyAdminKey_iff:
  "fst (verifyAdminKey cfg ex) \<longleftrightarrow>
     rx_headers (ex_req ex) ''x-api-key'' = Some (adminApiKey cfg) \<and> adminApiKey cfg \<noteq> []"
  by (auto simp: verifyAdminKey_def truthy_header_def same_key_iff split: option.splits)

text \<open>A request without the key changes nothing and gets a 401 or a 403.\<close>

lemma admin_only_refuses:
  assumes "\<not> fst (verifyAdminKey cfg ex)" and "ex_sent ex = None"
  shows "\<exists>rp. admin_only cfg handler ex w = (Ok (snd (verifyAdminKey cfg ex)), w)
      \<and> ex_sent (snd (verifyAdminKey cfg ex)) = Some rp \<and> rp_status rp \<in> {401, 403}"
  using assms
  by (auto simp: admin_only_def verifyAdminKey_def send_problem_def send_def set_header_def ret_def
      split: option.splits prod.splits if_splits)

lemma serve_admin_refuses:
  assumes "\<not> fst (verifyAdminKey cfg (open_exchange rq))"
  shows "\<exists>ex rp. serve_admin v (admin_only cfg handler) rq w = (Ok ex, w) \<and> ex_sent ex = Some rp
     \<and> rp_status rp \<in> {401, 403}"
  using admin_only_refuses [OF assms, of handler w]
  by (auto simp: verifyAdminKey_iff serve_admin_def run_route_def bindM_def ret_def catchM_def open_exchange_def)


section \<open>The properties\<close>

text \<open>
  A request to the admin server is served only with the configured key: without it, or with
  another one, it is answered 401 or 403 and nothing in the world changes; with it the handler runs.
\<close>

theorem admin_key_required:
  "if rx_headers rq ''x-api-key'' = Some (adminApiKey cfg) \<and> adminApiKey cfg \<noteq> []
   then serve_admin v (admin_only cfg handler) rq w = serve_admin v handler rq w
   else \<exists>ex rp. serve_admin v (admin_only cfg handler) rq w = (Ok ex, w) \<and> ex_sent ex = Some rp
       \<and> rp_status rp \<in> {401, 403}"
proof (cases "fst (verifyAdminKey cfg (open_exchange rq))")
  case True
  then have "admin_only cfg handler (open_exchange rq) = handler (open_exchange rq)"
    by (auto simp: admin_only_def verifyAdminKey_def split: option.splits if_splits)
  then have "serve_admin v (admin_only cfg handler) rq w = serve_admin v handler rq w"
    by (simp add: serve_admin_def run_route_def bindM_def ret_def open_exchange_def)
  then show ?thesis using True by (simp add: verifyAdminKey_iff open_exchange_def)
next
  case False
  then show ?thesis
    using serve_admin_refuses [OF False, of v handler w] by (auto simp: verifyAdminKey_iff open_exchange_def)
qed

text \<open>
  C36. The manual compensation of a saga that this program has written works on an empty context: no
  items to release, a refund of 0.00 USD, no customer and no token, whatever the saga has done.
\<close>

theorem manual_compensation_context:
  assumes "saga_step\<^sup>*\<^sup>* (createSagaInstance sid oid t) s"
  shows "context_of_saga s = \<lparr>cx_orderId = oid, cx_customerId = [], cx_items = [],
      cx_totalAmount = \<lparr>aj_amount = ''0.00'', aj_currency = ''USD''\<rparr>, cx_paymentToken = []\<rparr>"
proof -
  have "saga_metadata s = [] \<and> saga_orderId s = oid"
    using assms by induction (auto simp: createSagaInstance_def dest: saga_step_frame)
  then show ?thesis by (simp add: context_of_saga_def meta_string_def)
qed

theorem manual_compensation_context_witness:
  "\<exists>s. saga_status s = SAGA_RUNNING \<and> cx_items (context_of_saga s) = []"
proof -
  let ?s = "createSagaInstance ''s1'' ''o1'' 0"
  have "saga_step ?s (?s\<lparr>saga_status := SAGA_RUNNING\<rparr>)"
    by (intro saga_step.start) (simp add: startSaga_def createSagaInstance_def)
  then have "cx_items (context_of_saga (?s\<lparr>saga_status := SAGA_RUNNING\<rparr>)) = []"
    using manual_compensation_context [OF r_into_rtranclp] by (metis saga_context.select_convs(3))
  then show ?thesis by (intro exI [of _ "?s\<lparr>saga_status := SAGA_RUNNING\<rparr>"]) simp
qed

end
