(* ===== verification/Health.thy ===== *)
theory Health
  imports Admin
begin

text \<open>
  \<open>src/src/api/routes/health.ts\<close>: the liveness probe, the deep check and the readiness probe.  The heap
  figures of the process are an argument; the ratio is a double, rounded by \<open>fl\<close>.
\<close>

definition QUEUE_WARN_DEPTH :: nat where
  "QUEUE_WARN_DEPTH = 5000"

definition QUEUE_CRITICAL_DEPTH :: nat where
  "QUEUE_CRITICAL_DEPTH = 10000"

definition health :: "(int \<Rightarrow> string) \<Rightarrow> exchange \<Rightarrow> exchange io" where
  "health toISOString ex =
     bindM nowM (\<lambda>t. ret (send ex 200 (JObj [(''status'', JStr ''ok''), (''timestamp'', JStr (toISOString t))])))"

definition check_json :: "string \<Rightarrow> int \<Rightarrow> string option \<Rightarrow> json" where
  "check_json status latency detail =
     JObj ([(''status'', JStr status), (''latencyMs'', JNum (Whole latency))]
           @ (case detail of Some d \<Rightarrow> [(''detail'', JStr d)] | None \<Rightarrow> []))"

definition select_one :: "unit stmt" where
  "select_one d = Inr ((), d)"

text \<open>A \<open>try\<close> around one interaction, timed: its outcome and the time it took.\<close>

definition timed :: "unit io \<Rightarrow> ((error + unit) \<times> int) io" where
  "timed m = bindM nowM (\<lambda>t0. bindM (tryM m) (\<lambda>out. bindM nowM (\<lambda>t1. ret (out, t1 - t0))))"

text \<open>The depth of the managed queues: waiting and delayed jobs.\<close>

fun queue_depth :: "bullmq \<Rightarrow> app_config \<Rightarrow> string list \<Rightarrow> nat \<Rightarrow> nat io" where
  "queue_depth B cfg [] totalDepth = ret totalDepth"
| "queue_depth B cfg (queueName # qs) totalDepth =
     (let queue = admin_queue cfg queueName in
      bindM (bq_waitingCount B queue) (\<lambda>waiting.
      bindM (bq_delayedCount B queue) (\<lambda>delayed.
      thenM (bq_close B queue) (queue_depth B cfg qs (totalDepth + (waiting + delayed))))))"

definition queue_status :: "nat \<Rightarrow> string" where
  "queue_status totalDepth =
     (if totalDepth > QUEUE_CRITICAL_DEPTH then ''critical''
      else if totalDepth > QUEUE_WARN_DEPTH then ''warning'' else ''ok'')"

definition depth_detail :: "nat \<Rightarrow> string" where
  "depth_detail totalDepth =
     ''Total pending jobs: '' @ digits_of totalDepth @ '' (warn>'' @ digits_of QUEUE_WARN_DEPTH
     @ '', critical>'' @ digits_of QUEUE_CRITICAL_DEPTH @ '')''"

definition memory_json :: "(rat \<Rightarrow> rat) \<Rightarrow> nat \<Rightarrow> nat \<Rightarrow> json" where
  "memory_json fl heapUsed heapTotal =
     (let heapUsedMb = js_round (of_nat heapUsed / 1024 / 1024);
          heapTotalMb = js_round (of_nat heapTotal / 1024 / 1024);
          heapRatio = fl (of_int heapUsedMb / of_int (if heapTotalMb = 0 then 1 else heapTotalMb))
      in check_json (if heapRatio > fl (9 / 10) then ''warning'' else ''ok'') 0
           (Some (int_string heapUsedMb @ ''MB / '' @ int_string heapTotalMb @ ''MB (''
                  @ int_string (js_round (fl (heapRatio * 100))) @ ''%)'')))"

text \<open>The reply, from the outcomes of the three checks with their times.\<close>

definition deep_reply ::
    "(int \<Rightarrow> string) \<Rightarrow> (rat \<Rightarrow> rat) \<Rightarrow> nat \<times> nat \<Rightarrow> exchange \<Rightarrow> (error + unit) \<times> int
       \<Rightarrow> (error + unit) \<times> int \<Rightarrow> error + nat \<Rightarrow> int \<Rightarrow> exchange" where
  "deep_reply toISOString fl heap ex pg rd depth t =
     (let critical = (case depth of Inr n \<Rightarrow> n > QUEUE_CRITICAL_DEPTH | Inl e \<Rightarrow> False);
          httpStatus = (if critical \<or> isl (fst pg) then 503 else 200);
          ex1 = (if critical then set_header ''Retry-After'' ''30'' ex else ex);
          checks =
            [(''postgres'', (case fst pg of Inr _ \<Rightarrow> check_json ''ok'' (snd pg) None
                             | Inl e \<Rightarrow> check_json ''error'' (snd pg) (Some (error_message e)))),
             (''redis'', (case fst rd of Inr _ \<Rightarrow> check_json ''ok'' (snd rd) None
                          | Inl e \<Rightarrow> check_json ''degraded'' (snd rd) (Some (error_message e)))),
             (''queue'', (case depth of Inr n \<Rightarrow> check_json (queue_status n) 0 (Some (depth_detail n))
                          | Inl e \<Rightarrow> check_json ''unknown'' 0 (Some (error_message e)))),
             (''memory'', memory_json fl (fst heap) (snd heap))]
      in send ex1 httpStatus (JObj [
           (''status'', JStr (if httpStatus \<ge> 500 then ''error'' else ''ok'')),
           (''timestamp'', JStr (toISOString t)),
           (''checks'', JObj checks)]))"

definition health_deep ::
    "bullmq \<Rightarrow> redis_client \<Rightarrow> (int \<Rightarrow> string) \<Rightarrow> (rat \<Rightarrow> rat) \<Rightarrow> nat \<times> nat \<Rightarrow> app_config
       \<Rightarrow> exchange \<Rightarrow> exchange io" where
  "health_deep B C toISOString fl heap cfg ex =
     bindM (timed (sqlM Pool select_one)) (\<lambda>pg.
     bindM (timed (rd_ping C)) (\<lambda>rd.
     bindM (tryM (queue_depth B cfg MANAGED_QUEUES 0)) (\<lambda>depth.
     bindM nowM (\<lambda>t. ret (deep_reply toISOString fl heap ex pg rd depth t)))))"

text \<open>
  The readiness probe injects a request for \<open>/health/deep\<close> into the server itself and copies the
  status, the headers and the body of the answer.
\<close>

definition deep_request :: http_req where
  "deep_request = \<lparr>rx_id = ''req'', rx_method = ''GET'', rx_url = ''/health/deep'', rx_headers = Map.empty,
     rx_body = None, rx_ip = Some ''127.0.0.1'', rx_params = Map.empty, rx_query = Map.empty\<rparr>"

definition health_ready ::
    "server \<Rightarrow> bullmq \<Rightarrow> (rat \<Rightarrow> rat) \<Rightarrow> nat \<times> nat \<Rightarrow> exchange \<Rightarrow> exchange io" where
  "health_ready sv B fl heap ex =
     bindM (serve sv no_schema [] (health_deep B (sv_redis sv) (sv_toISOString sv) fl heap (sv_cfg sv)) deep_request) (\<lambda>deep.
     case ex_sent deep of
       Some rp \<Rightarrow> ret (send (ex\<lparr>ex_headers := ex_headers ex @ rp_headers rp\<rparr>) (rp_status rp) (rp_body rp))
     | None \<Rightarrow> ret ex)"


section \<open>What the deep check answers\<close>

text \<open>
  The counts of BullMQ: a pending job is waiting or delayed.
\<close>

definition pending :: "app_config \<Rightarrow> string \<Rightarrow> world \<Rightarrow> nat" where
  "pending cfg q w = length (filter (\<lambda>j. \<not> job_failed j) (jobs_of (admin_queue cfg q) w))"

definition counts_laws :: "bullmq \<Rightarrow> (job list \<Rightarrow> nat) \<Rightarrow> (job list \<Rightarrow> nat) \<Rightarrow> bool" where
  "counts_laws B waits delays \<longleftrightarrow>
     (\<forall>h w. wp (bq_waitingCount B h) (\<lambda>r w'. w_queues w' = w_queues w \<and> (\<forall>n. r = Ok n \<longrightarrow> n = waits (jobs_of h w))) w
       \<and> wp (bq_delayedCount B h) (\<lambda>r w'. w_queues w' = w_queues w \<and> (\<forall>n. r = Ok n \<longrightarrow> n = delays (jobs_of h w))) w
       \<and> wp (bq_close B h) (\<lambda>r w'. w_queues w' = w_queues w) w)
     \<and> (\<forall>js. waits js + delays js = length (filter (\<lambda>j. \<not> job_failed j) js))"

lemma counts_lawsD:
  assumes "counts_laws B waits delays"
  shows "wp (bq_waitingCount B h) (\<lambda>r w'. w_queues w' = w_queues w \<and> (\<forall>n. r = Ok n \<longrightarrow> n = waits (jobs_of h w))) w"
    and "wp (bq_delayedCount B h) (\<lambda>r w'. w_queues w' = w_queues w \<and> (\<forall>n. r = Ok n \<longrightarrow> n = delays (jobs_of h w))) w"
    and "wp (bq_close B h) (\<lambda>r w'. w_queues w' = w_queues w) w"
    and "waits js + delays js = length (filter (\<lambda>j. \<not> job_failed j) js)"
  using assms unfolding counts_laws_def by blast+

lemma list_bullmq_counts:
  "counts_laws list_bullmq (\<lambda>js. length (filter (\<lambda>j. \<not> job_failed j) js)) (\<lambda>_. 0)"
  unfolding counts_laws_def list_bullmq_def
  by (auto simp: wp_ioM wp_getsM wp_ret split: fault.split)

lemma pending_cong: "w_queues w' = w_queues w \<Longrightarrow> pending cfg q w' = pending cfg q w"
  by (simp add: pending_def jobs_of_def)

lemma queue_depth_wp:
  assumes B: "counts_laws B waits delays"
  shows "wp (queue_depth B cfg qs acc) (\<lambda>r w'. \<forall>n. r = Ok n \<longrightarrow> n = acc + (\<Sum>q\<leftarrow>qs. pending cfg q w)) w"
proof (induction qs arbitrary: acc w)
  case Nil
  then show ?case by (simp add: wp_ret)
next
  case (Cons q qs)
  let ?h = "admin_queue cfg q"
  have rest: "wp (thenM (bq_close B ?h) (queue_depth B cfg qs (acc + (n + m))))
      (\<lambda>r w'. \<forall>k. r = Ok k \<longrightarrow> k = acc + (\<Sum>q\<leftarrow>q # qs. pending cfg q w)) w2"
    if "w_queues w2 = w_queues w" "n = waits (jobs_of ?h w)" "m = delays (jobs_of ?h w)" for n m w2
    unfolding wp_thenM
  proof (rule wp_mono [OF counts_lawsD(3) [OF B]], goal_cases)
    case (1 r w3)
    have "n + m = pending cfg q w" using counts_lawsD(4) [OF B] that by (simp add: pending_def)
    moreover have "pending cfg q' w3 = pending cfg q' w" for q' using 1 that by (intro pending_cong) simp
    ultimately show ?case
      using Cons.IH [of "acc + (n + m)" w3] by (cases r) (auto elim!: wp_mono)
  qed
  show ?case
    unfolding queue_depth.simps Let_def wp_bindM
  proof (rule wp_mono [OF counts_lawsD(1) [OF B]], goal_cases)
    case (1 r w1)
    show ?case
    proof (cases r)
      case (Ok n)
      show ?thesis
        unfolding Ok res.case
      proof (rule wp_mono [OF counts_lawsD(2) [OF B]], goal_cases)
        case (1 r2 w2)
        with \<open>w_queues w1 = _ \<and> _\<close> Ok show ?case
          using rest [of w2 n] by (cases r2) (auto simp: jobs_of_def)
      qed
    qed simp_all
  qed
qed

lemma wp_timed [wp_rules]:
  "wp (timed m) P w =
     wp m (\<lambda>r w'. case r of
         Ok a \<Rightarrow> P (Ok (Inr a, e_clock (w_env w') (w_tick w') - e_clock (w_env w) (w_tick w))) (tick w')
       | Throw e \<Rightarrow> P (Ok (Inl e, e_clock (w_env w') (w_tick w') - e_clock (w_env w) (w_tick w))) (tick w')
       | Crashed \<Rightarrow> P Crashed w') (tick w)"
  unfolding timed_def by (simp add: wp_rules cong: res.case_cong)

text \<open>Whether the query of the check, the second interaction of the handler, finds the database.\<close>

definition db_down :: "world \<Rightarrow> bool" where
  "db_down w = (case e_fault (w_env w) (Suc (w_tick w)) of Lost _ \<Rightarrow> True | Unacked _ \<Rightarrow> True | _ \<Rightarrow> False)"

definition total_pending :: "app_config \<Rightarrow> world \<Rightarrow> nat" where
  "total_pending cfg w = (\<Sum>q\<leftarrow>MANAGED_QUEUES. pending cfg q w)"

lemma total_pending_cong: "w_queues w' = w_queues w \<Longrightarrow> total_pending cfg w' = total_pending cfg w"
  unfolding total_pending_def by (simp add: pending_cong [of w' w] cong: map_cong)

definition queue_unknown :: "reply \<Rightarrow> bool" where
  "queue_unknown rp \<longleftrightarrow> (\<exists>checks d. json_get (rp_body rp) ''checks'' = Some (JObj checks)
     \<and> map_of checks ''queue'' = Some (check_json ''unknown'' 0 (Some d)))"

definition deep_answer :: "app_config \<Rightarrow> exchange \<Rightarrow> world \<Rightarrow> exchange \<Rightarrow> bool" where
  "deep_answer cfg ex w ex' \<longleftrightarrow> (\<exists>rp. ex_sent ex' = Some rp
     \<and> (rp_headers rp = ex_headers ex @ (if total_pending cfg w > 10000 then [(''Retry-After'', ''30'')] else [])
          \<and> rp_status rp = (if db_down w \<or> total_pending cfg w > 10000 then 503 else 200)
        \<or> rp_headers rp = ex_headers ex \<and> rp_status rp = (if db_down w then 503 else 200) \<and> queue_unknown rp))"

lemma deep_reply_answer:
  assumes "isl (fst pg) = db_down w" and "\<forall>n. depth = Inr n \<longrightarrow> n = total_pending cfg w"
  shows "deep_answer cfg ex w (deep_reply dt fl heap ex pg rd depth t)"
proof (cases depth)
  case (Inl e)
  then show ?thesis
    unfolding deep_answer_def deep_reply_def Let_def
    by (simp add: send_def assms(1)) (auto simp: queue_unknown_def)
next
  case (Inr n)
  have n: "n = total_pending cfg w" using assms(2) Inr by simp
  show ?thesis
    unfolding Inr n deep_answer_def deep_reply_def Let_def
    by (simp add: send_def set_header_def assms(1) QUEUE_CRITICAL_DEPTH_def)
qed

lemma health_deep_wp:
  assumes B: "counts_laws B waits delays"
    and C: "\<And>w. wp (rd_ping C) (\<lambda>_ w'. w_queues w' = w_queues w) w"
  shows "wp (health_deep B C dt fl heap cfg ex) (\<lambda>r w'. case r of
      Ok ex' \<Rightarrow> deep_answer cfg ex w ex' | Throw e \<Rightarrow> False | Crashed \<Rightarrow> True) w"
    (is "wp _ ?P w")
proof -
  let ?k = "\<lambda>pg rd depth. bindM nowM (\<lambda>t. ret (deep_reply dt fl heap ex pg rd depth t))"
  have answer: "wp (?k pg rd depth) ?P w3"
    if "isl (fst pg) = db_down w" "\<forall>n. depth = Inr n \<longrightarrow> n = total_pending cfg w" for pg rd depth w3
    by (simp add: wp_bindM wp_nowM wp_ret deep_reply_answer [OF that])
  have queues: "wp (bindM (tryM (queue_depth B cfg MANAGED_QUEUES 0)) (?k pg rd)) ?P w2"
    if d: "isl (fst pg) = db_down w" and q: "w_queues w2 = w_queues w" for pg rd w2
    unfolding wp_bindM [of "tryM _"] wp_tryM
  proof (rule wp_mono [OF queue_depth_wp [OF B]], goal_cases)
    case (1 r w3)
    with answer [OF d] show ?case
      using total_pending_cong [OF q] by (cases r) (simp_all add: total_pending_def)
  qed
  have redis: "wp (bindM (timed (rd_ping C)) (\<lambda>rd. bindM (tryM (queue_depth B cfg MANAGED_QUEUES 0)) (?k pg rd))) ?P w1"
    if d: "isl (fst pg) = db_down w" and q: "w_queues w1 = w_queues w" for pg w1
    unfolding wp_bindM [of "timed _"] wp_timed
  proof (rule wp_mono [OF C], goal_cases)
    case (1 r w2)
    with queues [OF d] q show ?case by (cases r) simp_all
  qed
  have db: "wp (timed (sqlM Pool select_one)) (\<lambda>r w1. case r of
      Ok pg \<Rightarrow> isl (fst pg) = db_down w \<and> w_queues w1 = w_queues w | Throw e \<Rightarrow> False | Crashed \<Rightarrow> True) w"
    unfolding wp_timed sqlM_def wp_ioM
    by (simp add: wp_def select_one_def put_view_tick db_down_def split: fault.split)
  show ?thesis
    unfolding health_deep_def wp_bindM [of "timed (sqlM _ _)"]
  proof (rule wp_mono [OF db], goal_cases)
    case (1 r w1)
    with redis show ?case by (cases r) simp_all
  qed
qed


section \<open>The properties\<close>



end
