(* ===== verification/Outbox_Processor.thy ===== *)
theory Outbox_Processor
  imports Commits
begin

text \<open>
  \<open>src/src/events/outbox/outbox-processor.ts\<close>: the poller that turns pending outbox events into jobs.
  Its members are the field \<open>w_outbox\<close> of the world.
\<close>


section \<open>The processor\<close>

definition getQueue :: "app_config \<Rightarrow> string \<Rightarrow> queue_handle io" where
  "getQueue cfg queueName = (\<lambda>w.
     case op_queues (w_outbox w) queueName of
       Some q \<Rightarrow> (Ok q, w)
     | None \<Rightarrow> (let q = createQueue cfg queueName in
         (Ok q, w\<lparr>w_outbox := (w_outbox w)\<lparr>op_queues := (op_queues (w_outbox w))(queueName \<mapsto> q)\<rparr>\<rparr>)))"

definition target_queue :: "outbox_event \<Rightarrow> string" where
  "target_queue e = (case map_of (ev_payload e) ''queue'' of Some (JStr q) \<Rightarrow> q | _ \<Rightarrow> ''webhook-delivery'')"

definition event_json :: "outbox_event \<Rightarrow> json" where
  "event_json e =
     JObj [(''aggregateType'', JStr (ev_aggregateType e)), (''aggregateId'', JStr (ev_aggregateId e)),
           (''eventType'', JStr (ev_eventType e)), (''payload'', JObj (ev_payload e)),
           (''headers'', JObj (ev_headers e))]"

definition publish :: "bullmq \<Rightarrow> app_config \<Rightarrow> outbox_repo \<Rightarrow> outbox_event \<Rightarrow> unit io" where
  "publish B cfg outbox e =
     bindM (getQueue cfg (target_queue e)) (\<lambda>queue.
     bindM (bq_add B queue (ev_eventType e) (event_json e)
              \<lparr>jo_jobId = Some (ev_id e), jo_attempts = None, jo_backoffDelay = None\<rparr>) (\<lambda>_.
     thenM (ob_markPublished outbox (ev_id e))
       (increment ''outbox.published'' [(''eventType'', ev_eventType e)])))"

definition process_event :: "bullmq \<Rightarrow> app_config \<Rightarrow> outbox_repo \<Rightarrow> outbox_event \<Rightarrow> unit io" where
  "process_event B cfg outbox e =
     (if outboxMaxRetries cfg \<le> ev_retryCount e
      then thenM (ob_markFailed outbox (ev_id e) False)
             (increment ''outbox.exceeded_retries'' [(''eventType'', ev_eventType e)])
      else catchM (publish B cfg outbox e)
             (\<lambda>err. thenM (ob_resetForRetry outbox (ev_id e))
                      (increment ''outbox.retry'' [(''eventType'', ev_eventType e)])))"

definition processBatch :: "bullmq \<Rightarrow> app_config \<Rightarrow> outbox_repo \<Rightarrow> unit io" where
  "processBatch B cfg outbox =
     bindM (ob_getPending outbox 100) (\<lambda>events.
     if events = [] then ret () else forM events (process_event B cfg outbox))"

text \<open>
  The polling loop: \<open>n\<close> ticks of the timer before the signal aborts it.  The flag is read at every
  tick; an error of a batch is logged.
\<close>

primrec poll :: "nat \<Rightarrow> bullmq \<Rightarrow> app_config \<Rightarrow> outbox_repo \<Rightarrow> unit io" where
  "poll 0 B cfg outbox = ret ()"
| "poll (Suc n) B cfg outbox =
     bindM (getsM (\<lambda>w. op_running (w_outbox w))) (\<lambda>running.
     if \<not> running then ret ()
     else thenM (catchM (processBatch B cfg outbox) (\<lambda>err. ret ())) (poll n B cfg outbox))"

definition processor_start :: "nat \<Rightarrow> bullmq \<Rightarrow> app_config \<Rightarrow> outbox_repo \<Rightarrow> unit io" where
  "processor_start n B cfg outbox =
     bindM (getsM (\<lambda>w. op_running (w_outbox w))) (\<lambda>running.
     if running then ret ()
     else thenM (modifyM (\<lambda>w. w\<lparr>w_outbox := (w_outbox w)\<lparr>op_running := True, op_aborted := Some False\<rparr>\<rparr>))
            (poll n B cfg outbox))"

text \<open>The queue objects are closed; a failure to close one is logged.\<close>

definition processor_stop :: "unit io" where
  "processor_stop =
     modifyM (\<lambda>w. w\<lparr>w_outbox := \<lparr>op_running = False,
                      op_aborted = map_option (\<lambda>_. True) (op_aborted (w_outbox w)),
                      op_queues = Map.empty\<rparr>\<rparr>)"


section \<open>The machine\<close>

lemma pg_outbox_sel [simp]:
  "ob_getPending pg_outbox_repo = outbox_getPending" "ob_markPublished pg_outbox_repo = outbox_markPublished"
  "ob_markFailed pg_outbox_repo = outbox_markFailed" "ob_resetForRetry pg_outbox_repo = outbox_resetForRetry"
  by (simp_all add: pg_outbox_repo_def)

lemma upholds_getQueue [upholds_intros]: "preord R \<Longrightarrow> upholds (on_db R) (getQueue cfg n)"
  by (auto simp: upholds_def getQueue_def on_db_def preord_refl Let_def split: option.split)

lemma upholds_set_event:
  "(\<And>e. event_core (f e) = event_core e) \<Longrightarrow> upholds (on_db (commits L)) (sqlM Pool (set_event eid f))"
  by (rule upholds_stmt) (auto intro: commit.event_written)

lemma upholds_outbox_repo [upholds_intros]:
  "upholds (on_db (commits L)) (outbox_getPending n)"
  "upholds (on_db (commits L)) (outbox_markPublished eid)"
  "upholds (on_db (commits L)) (outbox_markFailed eid b)"
  "upholds (on_db (commits L)) (outbox_resetForRetry eid)"
  unfolding outbox_getPending_def outbox_markPublished_def outbox_markFailed_def outbox_resetForRetry_def
  by (intro upholds_intros ticks_on_db preord_on_db preord_rtranclp upholds_set_event
      upholds_eq_on_db [OF upholds_select] select_idle; simp add: event_core_def)+

lemma upholds_publish [upholds_intros]:
  "bullmq_laws B \<Longrightarrow> upholds (on_db (commits L)) (publish B cfg pg_outbox_repo e)"
  unfolding publish_def pg_outbox_sel by (intro upholds_intros preord_on_db preord_rtranclp)

lemma upholds_process_event [upholds_intros]:
  "bullmq_laws B \<Longrightarrow> upholds (on_db (commits L)) (process_event B cfg pg_outbox_repo e)"
  unfolding process_event_def pg_outbox_sel by (intro upholds_intros preord_on_db preord_rtranclp)

lemma upholds_processBatch [upholds_intros]:
  "bullmq_laws B \<Longrightarrow> upholds (on_db (commits L)) (processBatch B cfg pg_outbox_repo)"
  unfolding processBatch_def pg_outbox_sel by (intro upholds_intros preord_on_db preord_rtranclp)

lemma upholds_poll [upholds_intros]:
  "bullmq_laws B \<Longrightarrow> upholds (on_db (commits L)) (poll n B cfg pg_outbox_repo)"
  by (induction n) (auto intro!: upholds_intros)


section \<open>Publication\<close>

text \<open>What never changes of an event once it is written.\<close>

definition event_frame :: "outbox_event \<Rightarrow> string \<times> string \<times> string \<times> string \<times> (string \<times> json) list \<times> (string \<times> json) list" where
  "event_frame e = (ev_id e, ev_eventType e, ev_aggregateId e, ev_aggregateType e, ev_payload e, ev_headers e)"

lemma event_frame_target: "event_frame e = event_frame e' \<Longrightarrow> ev_id e = ev_id e' \<and> target_queue e = target_queue e'"
  by (simp add: event_frame_def target_queue_def)

definition enqueued :: "app_config \<Rightarrow> outbox_event \<Rightarrow> world \<Rightarrow> bool" where
  "enqueued cfg e w \<longleftrightarrow> has_job (createQueue cfg (target_queue e)) (ev_id e) w"

text \<open>
  The relation of a run of the processor: the events are those of before, no job is lost or added
  twice, and an event that has become \<open>PUBLISHED\<close> has its job.
\<close>

definition queues_grow :: "world \<Rightarrow> world \<Rightarrow> bool" where
  "queues_grow w w' \<longleftrightarrow> (\<forall>h i. has_job h i w \<longrightarrow> has_job h i w')
     \<and> (\<forall>h. distinct (map job_id (jobs_of h w)) \<longrightarrow> distinct (map job_id (jobs_of h w')))"

definition cache_ok :: "app_config \<Rightarrow> world \<Rightarrow> bool" where
  "cache_ok cfg w \<longleftrightarrow> (\<forall>n q. op_queues (w_outbox w) n = Some q \<longrightarrow> q = createQueue cfg n)"

definition published_enqueued :: "app_config \<Rightarrow> world \<Rightarrow> world \<Rightarrow> bool" where
  "published_enqueued cfg w w' \<longleftrightarrow>
     map event_frame (db_outbox (w_db w')) = map event_frame (db_outbox (w_db w))
     \<and> queues_grow w w' \<and> (cache_ok cfg w \<longrightarrow> cache_ok cfg w')
     \<and> (cache_ok cfg w \<longrightarrow> keyed ev_id (db_outbox (w_db w)) \<longrightarrow>
          (\<forall>k < length (db_outbox (w_db w)).
             ev_status (db_outbox (w_db w') ! k) = OUTBOX_PUBLISHED \<longrightarrow>
             ev_status (db_outbox (w_db w) ! k) = OUTBOX_PUBLISHED
             \<or> enqueued cfg (db_outbox (w_db w) ! k) w'))"

lemma preord_queues_grow: "preord queues_grow"
  unfolding preord_def queues_grow_def by blast

lemma queues_grow_same: "w_queues w' = w_queues w \<Longrightarrow> queues_grow w w'"
  by (simp add: queues_grow_def has_job_def jobs_of_def)

lemma queues_grow_added:
  assumes "added h name data opts w w'" and "jo_jobId opts = Some i"
  shows "queues_grow w w'"
proof -
  obtain j where j: "w_queues w' = (w_queues w)(queue_key h := jobs_of h w @ [j])" "\<not> has_job h (job_id j) w"
    using assms by (auto simp: added_def)
  have jobs: "jobs_of h' w' = (if queue_key h' = queue_key h then jobs_of h w @ [j] else jobs_of h' w)" for h'
    using j(1) by (simp add: jobs_of_def)
  show ?thesis
    unfolding queues_grow_def
  proof (intro conjI allI impI)
    fix h'
    show "has_job h' i w'" if "has_job h' i w" for i
      using that unfolding has_job_def jobs by (auto simp: jobs_of_def)
    show "distinct (map job_id (jobs_of h' w'))" if "distinct (map job_id (jobs_of h' w))"
    proof (cases "queue_key h' = queue_key h")
      case True
      then have "jobs_of h' w = jobs_of h w" by (simp add: jobs_of_def)
      with that j(2) True show ?thesis by (auto simp: jobs has_job_def)
    qed (use that jobs in simp)
  qed
qed

lemma published_enqueued_idle:
  "db_outbox (w_db w') = db_outbox (w_db w) \<Longrightarrow> queues_grow w w' \<Longrightarrow> (cache_ok cfg w \<longrightarrow> cache_ok cfg w')
     \<Longrightarrow> published_enqueued cfg w w'"
  by (simp add: published_enqueued_def)

lemma enqueued_mono: "queues_grow w w' \<Longrightarrow> enqueued cfg e w \<Longrightarrow> enqueued cfg e w'"
  by (simp add: queues_grow_def enqueued_def)

lemma enqueued_frame: "event_frame e = event_frame e' \<Longrightarrow> enqueued cfg e w = enqueued cfg e' w"
  by (drule event_frame_target) (simp add: enqueued_def)

lemma map_nth_eq: "map f xs = map f ys \<Longrightarrow> k < length ys \<Longrightarrow> f (xs ! k) = f (ys ! k)"
  by (metis length_map nth_map)

lemma keyed_event_frame: "map event_frame xs = map event_frame ys \<Longrightarrow> keyed ev_id xs = keyed ev_id ys"
proof -
  assume "map event_frame xs = map event_frame ys"
  then have "map (fst \<circ> event_frame) xs = map (fst \<circ> event_frame) ys"
    by (metis map_map)
  then show ?thesis by (simp add: keyed_def event_frame_def comp_def)
qed

lemma published_enqueued_preord: "preord (published_enqueued cfg)"
  unfolding preord_def
proof (intro conjI allI impI)
  show "published_enqueued cfg w w" for w
    by (simp add: published_enqueued_def queues_grow_same)
  fix w w1 w2
  assume 1: "published_enqueued cfg w w1" and 2: "published_enqueued cfg w1 w2"
  have g: "queues_grow w w2"
    using 1 2 preord_trans [OF preord_queues_grow] unfolding published_enqueued_def by blast
  have fr: "map event_frame (db_outbox (w_db w1)) = map event_frame (db_outbox (w_db w))"
    using 1 by (simp add: published_enqueued_def)
  have len: "length (db_outbox (w_db w1)) = length (db_outbox (w_db w))"
    using fr by (rule map_eq_imp_length_eq)
  have "ev_status (db_outbox (w_db w) ! k) = OUTBOX_PUBLISHED \<or> enqueued cfg (db_outbox (w_db w) ! k) w2"
    if c: "cache_ok cfg w" and k: "keyed ev_id (db_outbox (w_db w))"
      and lt: "k < length (db_outbox (w_db w))" and st: "ev_status (db_outbox (w_db w2) ! k) = OUTBOX_PUBLISHED" for k
  proof -
    have "cache_ok cfg w1" "keyed ev_id (db_outbox (w_db w1))"
      using 1 c k keyed_event_frame [OF fr] by (simp_all add: published_enqueued_def)
    then have "ev_status (db_outbox (w_db w1) ! k) = OUTBOX_PUBLISHED \<or> enqueued cfg (db_outbox (w_db w1) ! k) w2"
      using 2 lt st len by (auto simp: published_enqueued_def)
    moreover have "enqueued cfg (db_outbox (w_db w1) ! k) w2 = enqueued cfg (db_outbox (w_db w) ! k) w2"
      by (rule enqueued_frame) (rule map_nth_eq [OF fr lt])
    moreover have "ev_status (db_outbox (w_db w1) ! k) = OUTBOX_PUBLISHED \<Longrightarrow>
        ev_status (db_outbox (w_db w) ! k) = OUTBOX_PUBLISHED \<or> enqueued cfg (db_outbox (w_db w) ! k) w2"
      using 1 c k lt enqueued_mono 2 by (auto simp: published_enqueued_def)
    ultimately show ?thesis by blast
  qed
  then show "published_enqueued cfg w w2"
    using 1 2 g unfolding published_enqueued_def by auto
qed

lemma published_enqueued_event:
  assumes st: "set_event eid f (w_db w) = Inr (u, d)" and w': "w' = w\<lparr>w_db := d, w_tick := n\<rparr>"
    and f: "\<And>e. event_frame (f e) = event_frame e"
    and pub: "\<And>e. cache_ok cfg w \<Longrightarrow> keyed ev_id (db_outbox (w_db w)) \<Longrightarrow> e \<in> set (db_outbox (w_db w)) \<Longrightarrow>
                ev_id e = eid \<Longrightarrow> ev_status (f e) = OUTBOX_PUBLISHED \<Longrightarrow> enqueued cfg e w"
  shows "published_enqueued cfg w w'"
proof -
  let ?es = "db_outbox (w_db w)"
  have d: "db_outbox d = update_all (\<lambda>e. ev_id e = eid) f ?es"
    using st by (auto simp: set_event_def)
  have nth: "db_outbox d ! k = (if ev_id (?es ! k) = eid then f (?es ! k) else ?es ! k)" if "k < length ?es" for k
    using that by (simp add: d update_all_def)
  have "enqueued cfg e w' = enqueued cfg e w" for e
    by (simp add: enqueued_def has_job_def jobs_of_def w')
  then show ?thesis
    unfolding published_enqueued_def
    using pub nth f by (auto simp: w' d map_update_all queues_grow_same cache_ok_def split: if_splits)
qed

text \<open>Relative to the events \<open>F\<close> of the table when a batch begins.\<close>

definition batch_rel :: "app_config \<Rightarrow> (string \<times> string \<times> string \<times> string \<times> (string \<times> json) list \<times> (string \<times> json) list) list
    \<Rightarrow> world \<Rightarrow> world \<Rightarrow> bool" where
  "batch_rel cfg F w w' \<longleftrightarrow> (map event_frame (db_outbox (w_db w)) = F \<longrightarrow> published_enqueued cfg w w')"

lemma preord_batch_rel [intro, simp]: "preord (batch_rel cfg F)"
proof -
  have "published_enqueued cfg w w1 \<Longrightarrow>
      map event_frame (db_outbox (w_db w1)) = map event_frame (db_outbox (w_db w))" for w w1
    by (simp add: published_enqueued_def)
  then show ?thesis
    using published_enqueued_preord [of cfg] unfolding preord_def batch_rel_def by metis
qed

lemma upholds_batch_increment [upholds_intros]: "upholds (batch_rel cfg F) (increment n l)"
  by (auto simp: increment_def batch_rel_def cache_ok_def
      intro!: upholds_modifyM published_enqueued_idle queues_grow_same)

lemma upholds_batch_now [upholds_intros]: "upholds (batch_rel cfg F) nowM"
  by (auto simp: upholds_def nowM_def batch_rel_def cache_ok_def
      intro!: published_enqueued_idle queues_grow_same)

lemma wp_batch_event:
  assumes "\<And>e. event_frame (f e) = event_frame e"
    and "\<And>e. cache_ok cfg w \<Longrightarrow> keyed ev_id (db_outbox (w_db w)) \<Longrightarrow> e \<in> set (db_outbox (w_db w)) \<Longrightarrow>
           ev_id e = eid \<Longrightarrow> ev_status (f e) = OUTBOX_PUBLISHED \<Longrightarrow> enqueued cfg e w"
  shows "wp (sqlM Pool (set_event eid f)) (\<lambda>_ w'. published_enqueued cfg w w') w"
proof (rule wp_sql_worldI)
  show "published_enqueued cfg w (w\<lparr>w_tick := n\<rparr>)" for n
    by (intro published_enqueued_idle queues_grow_same) (simp_all add: cache_ok_def)
  show "published_enqueued cfg w (w\<lparr>w_db := d, w_tick := n\<rparr>)"
    if "set_event eid f (w_db w) = Inr (a, d)" for a d n
    by (rule published_enqueued_event [OF that refl]) (use assms in auto)
qed

lemma upholds_batch_event:
  "(\<And>e. event_frame (f e) = event_frame e \<and> ev_status (f e) \<noteq> OUTBOX_PUBLISHED) \<Longrightarrow>
     upholds (batch_rel cfg F) (sqlM Pool (set_event eid f))"
  by (rule upholdsI) (use wp_batch_event [of f cfg _ eid] in \<open>auto simp: wp_def batch_rel_def\<close>)

lemma upholds_batch_reset [upholds_intros]: "upholds (batch_rel cfg F) (outbox_resetForRetry eid)"
  unfolding outbox_resetForRetry_def by (rule upholds_batch_event) (simp add: event_frame_def)

lemma upholds_batch_failed [upholds_intros]: "upholds (batch_rel cfg F) (outbox_markFailed eid b)"
  unfolding outbox_markFailed_def
  by (intro upholds_bindM upholds_if upholds_batch_now upholds_batch_event preord_batch_rel)
    (simp_all add: event_frame_def)

lemma getQueue_wp:
  "wp (getQueue cfg n) (\<lambda>r w'. w_db w' = w_db w \<and> w_queues w' = w_queues w
      \<and> cache_ok cfg w' = cache_ok cfg w \<and> (cache_ok cfg w \<longrightarrow> r = Ok (createQueue cfg n))) w"
proof (cases "op_queues (w_outbox w) n")
  case None
  have "cache_ok cfg w' = cache_ok cfg w"
    if "op_queues (w_outbox w') = (op_queues (w_outbox w))(n \<mapsto> createQueue cfg n)" for w'
    using None that unfolding cache_ok_def by (metis fun_upd_apply option.distinct(1) option.inject)
  with None show ?thesis by (simp add: wp_def getQueue_def Let_def)
next
  case (Some q)
  then show ?thesis by (auto simp: wp_def getQueue_def cache_ok_def)
qed

lemma publish_wp:
  assumes B: "bullmq_laws B" and e: "event_frame e \<in> set (map event_frame (db_outbox (w_db w)))"
  shows "wp (publish B cfg pg_outbox_repo e) (\<lambda>_ w'. published_enqueued cfg w w') w"
proof -
  note trans = preord_trans [OF published_enqueued_preord]
  have mark: "wp (outbox_markPublished (ev_id e)) (\<lambda>_ w'. published_enqueued cfg w w') w2"
    if q: "published_enqueued cfg w w2" "w_db w2 = w_db w" "cache_ok cfg w2 \<longrightarrow> enqueued cfg e w2" for w2
  proof -
    have set: "wp (sqlM Pool (set_event (ev_id e) (\<lambda>e. e\<lparr>ev_status := OUTBOX_PUBLISHED, ev_processedAt := Some t\<rparr>)))
        (\<lambda>_ w'. published_enqueued cfg (tick w2) w') (tick w2)" for t
    proof (rule wp_batch_event)
      fix e'
      assume "cache_ok cfg (tick w2)" and k: "keyed ev_id (db_outbox (w_db (tick w2)))"
        and e': "e' \<in> set (db_outbox (w_db (tick w2)))" "ev_id e' = ev_id e"
      then have "enqueued cfg e w2" using q(3) by (simp add: cache_ok_def)
      obtain e0 where e0: "e0 \<in> set (db_outbox (w_db w))" "event_frame e0 = event_frame e"
        using e by auto
      then have "ev_id e0 = ev_id e'" using e'(2) event_frame_target by metis
      then have "e' = e0"
        using keyed_find [OF k] e' e0(1) q(2) by (metis option.inject tick_sel(1))
      then show "enqueued cfg e' (tick w2)"
        using e0(2) enqueued_frame [of e0 e cfg "tick w2"] \<open>enqueued cfg e w2\<close>
        by (simp add: enqueued_def)
    qed (simp add: event_frame_def)
    have now: "published_enqueued cfg w (tick w2)"
      by (rule trans [OF q(1)]) (auto intro!: published_enqueued_idle queues_grow_same simp: cache_ok_def)
    show ?thesis
      unfolding outbox_markPublished_def wp_bindM wp_nowM res.case
      by (rule wp_mono [OF set]) (rule trans [OF now])
  qed
  have tail: "wp (thenM (outbox_markPublished (ev_id e)) (increment n l)) (\<lambda>_ w'. published_enqueued cfg w w') w2"
    if q: "published_enqueued cfg w w2" "w_db w2 = w_db w" "cache_ok cfg w2 \<longrightarrow> enqueued cfg e w2" for w2 n l
    unfolding wp_thenM
  proof (rule wp_mono [OF mark [OF q]])
    fix r w3
    assume w3: "published_enqueued cfg w w3"
    have "published_enqueued cfg w3 (w3\<lparr>w_counters := c\<rparr>)" for c
      by (rule published_enqueued_idle) (simp_all add: cache_ok_def queues_grow_same)
    then have "published_enqueued cfg w (w3\<lparr>w_counters := c\<rparr>)" for c
      by (rule trans [OF w3])
    with w3 show "case r of
        Ok a \<Rightarrow> wp (increment n l) (\<lambda>_ w'. published_enqueued cfg w w') w3
      | Throw e \<Rightarrow> published_enqueued cfg w w3 | Crashed \<Rightarrow> published_enqueued cfg w w3"
      by (simp add: wp_increment split: res.split)
  qed
  have add: "wp (bq_add B q (ev_eventType e) (event_json e)
              \<lparr>jo_jobId = Some (ev_id e), jo_attempts = None, jo_backoffDelay = None\<rparr>)
        (\<lambda>r w2. published_enqueued cfg w w2 \<and> w_db w2 = w_db w
           \<and> (\<forall>a. r = Ok a \<longrightarrow> has_job q (ev_id e) w2) \<and> (cache_ok cfg w2 = cache_ok cfg w)) w1"
    if w1: "w_db w1 = w_db w" "w_queues w1 = w_queues w" "cache_ok cfg w1 = cache_ok cfg w" for q w1
  proof (rule wp_mono [OF bullmq_add_wp [OF B]], elim conjE)
    fix r w2
    assume o: "only_queues w1 w2"
      and a: "w_queues w2 = w_queues w1 \<or> added q (ev_eventType e) (event_json e)
                \<lparr>jo_jobId = Some (ev_id e), jo_attempts = None, jo_backoffDelay = None\<rparr> w1 w2"
      and i: "\<forall>i res. r = Ok res \<longrightarrow> jo_jobId \<lparr>jo_jobId = Some (ev_id e), jo_attempts = None, jo_backoffDelay = None\<rparr>
                 = Some i \<longrightarrow> res = Some i \<and> has_job q i w2"
    have c: "cache_ok cfg w2 = cache_ok cfg w1" using only_queues_sel [OF o] by (simp add: cache_ok_def)
    have g: "queues_grow w1 w2" using a queues_grow_same queues_grow_added by fastforce
    then have "queues_grow w w2"
      using preord_trans [OF preord_queues_grow queues_grow_same] w1(2) by blast
    with c w1 only_queues_sel [OF o] i
    show "published_enqueued cfg w w2 \<and> w_db w2 = w_db w \<and> (\<forall>a. r = Ok a \<longrightarrow> has_job q (ev_id e) w2)
        \<and> (cache_ok cfg w2 = cache_ok cfg w)"
      by (auto intro!: published_enqueued_idle)
  qed
  show ?thesis
    unfolding publish_def pg_outbox_sel wp_bindM [of "getQueue _ _"]
  proof (rule wp_mono [OF getQueue_wp], goal_cases)
    case (1 r w1)
    show ?case
    proof (cases r)
      case (Ok q)
      with 1 have w1: "w_db w1 = w_db w" "w_queues w1 = w_queues w" "cache_ok cfg w1 = cache_ok cfg w"
        and q: "cache_ok cfg w \<longrightarrow> q = createQueue cfg (target_queue e)" by auto
      show ?thesis
        unfolding Ok res.case wp_bindM
        by (rule wp_mono [OF add [OF w1]])
          (use q tail w1 in \<open>auto simp: enqueued_def split: res.split\<close>)
    next
      case (Throw x)
      with 1 show ?thesis by (auto simp: cache_ok_def intro!: published_enqueued_idle queues_grow_same)
    next
      case Crashed
      with 1 show ?thesis by (auto simp: cache_ok_def intro!: published_enqueued_idle queues_grow_same)
    qed
  qed
qed

lemma upholds_batch_process [upholds_intros]:
  assumes "bullmq_laws B" and "event_frame e \<in> set F"
  shows "upholds (batch_rel cfg F) (process_event B cfg pg_outbox_repo e)"
proof -
  have "upholds (batch_rel cfg F) (publish B cfg pg_outbox_repo e)"
    by (rule upholdsI) (use publish_wp [OF assms(1)] assms(2) in \<open>auto simp: wp_def batch_rel_def\<close>)
  then show ?thesis
    unfolding process_event_def pg_outbox_sel by (intro upholds_intros preord_batch_rel)
qed

lemma select_pending_Inr:
  "select_pending n d = Inr (evs, d') \<Longrightarrow> d' = d \<and> set evs \<subseteq> {e \<in> set (db_outbox d). ev_status e = OUTBOX_PENDING}"
  unfolding select_pending_def
  using set_take_subset [of n "sort_by (\<lambda>a b. ev_createdAt a \<le> ev_createdAt b)
          (filter (\<lambda>e. ev_status e = OUTBOX_PENDING) (db_outbox d))"] by auto

lemma getPending_wp:
  "wp (outbox_getPending n) (\<lambda>r w'. published_enqueued cfg w w'
      \<and> (\<forall>evs. r = Ok evs \<longrightarrow> set evs \<subseteq> set (db_outbox (w_db w)))) w"
  unfolding outbox_getPending_def
  by (rule wp_sql_worldI)
    (auto simp: cache_ok_def dest!: select_pending_Inr intro!: published_enqueued_idle queues_grow_same)

lemma processBatch_wp:
  assumes "bullmq_laws B"
  shows "wp (processBatch B cfg pg_outbox_repo) (\<lambda>_ w'. published_enqueued cfg w w') w"
  unfolding processBatch_def pg_outbox_sel wp_bindM
proof (rule wp_mono [OF getPending_wp [where cfg = cfg]], elim conjE)
  fix r w1
  let ?F = "map event_frame (db_outbox (w_db w))"
  assume w1: "published_enqueued cfg w w1" and evs: "\<forall>evs. r = Ok evs \<longrightarrow> set evs \<subseteq> set (db_outbox (w_db w))"
  have F: "map event_frame (db_outbox (w_db w1)) = ?F"
    using w1 by (simp add: published_enqueued_def)
  have "wp (if events = [] then ret () else forM events (process_event B cfg pg_outbox_repo))
          (\<lambda>_ w'. published_enqueued cfg w w') w1" if "r = Ok events" for events
  proof -
    have "upholds (batch_rel cfg ?F) (if events = [] then ret () else forM events (process_event B cfg pg_outbox_repo))"
      using evs that by (intro upholds_intros preord_batch_rel assms) auto
    from upholds_wp [OF this, of w1] show ?thesis
      by (rule wp_mono) (use w1 F preord_trans [OF published_enqueued_preord] in \<open>auto simp: batch_rel_def\<close>)
  qed
  with w1 show "case r of
      Ok a \<Rightarrow> wp (if a = [] then ret () else forM a (process_event B cfg pg_outbox_repo))
                (\<lambda>_ w'. published_enqueued cfg w w') w1
    | Throw e \<Rightarrow> published_enqueued cfg w w1 | Crashed \<Rightarrow> published_enqueued cfg w w1"
    by (cases r) auto
qed

text \<open>An event out of retries is marked and not published.\<close>

lemma process_event_exhausted:
  assumes "outboxMaxRetries cfg \<le> ev_retryCount e"
  shows "wp (process_event B cfg pg_outbox_repo e) (\<lambda>r w'. w_queues w' = w_queues w
     \<and> (r = Ok () \<longrightarrow> (\<forall>e' \<in> set (db_outbox (w_db w')). ev_id e' = ev_id e \<longrightarrow> ev_status e' = OUTBOX_FAILED))) w"
proof -
  have "wp (sqlM Pool (set_event (ev_id e) (\<lambda>e. e\<lparr>ev_status := OUTBOX_FAILED, ev_processedAt := Some t\<rparr>)))
     (\<lambda>r w'. w_queues w' = w_queues w1
        \<and> (\<forall>a. r = Ok a \<longrightarrow> (\<forall>e' \<in> set (db_outbox (w_db w')). ev_id e' = ev_id e \<longrightarrow> ev_status e' = OUTBOX_FAILED))) w1" for t w1
  proof (rule wp_sql_worldI, goal_cases)
    case (2 a d n r)
    then have "db_outbox d = update_all (\<lambda>e'. ev_id e' = ev_id e)
        (\<lambda>e. e\<lparr>ev_status := OUTBOX_FAILED, ev_processedAt := Some t\<rparr>) (db_outbox (w_db w1))"
      by (auto simp: set_event_def)
    moreover have "\<forall>e' \<in> set (update_all (\<lambda>e'. ev_id e' = ev_id e)
        (\<lambda>e. e\<lparr>ev_status := OUTBOX_FAILED, ev_processedAt := Some t\<rparr>) (db_outbox (w_db w1))).
        ev_id e' = ev_id e \<longrightarrow> ev_status e' = OUTBOX_FAILED"
      by (simp add: ball_update_all)
    ultimately show ?case by simp
  qed simp
  note failed = this
  show ?thesis
    using assms unfolding process_event_def pg_outbox_sel outbox_markFailed_def
    by (simp add: wp_thenM wp_bindM wp_nowM, intro wp_mono [OF failed])
      (auto simp: wp_increment split: res.split)
qed


section \<open>What a batch does when nothing fails\<close>

text \<open>A BullMQ that answers, and the state an event of a batch ends in.\<close>

definition bullmq_answers :: "bullmq \<Rightarrow> bool" where
  "bullmq_answers B \<longleftrightarrow> (\<forall>h name data opts w. quiet w \<longrightarrow> (\<exists>i. fst (bq_add B h name data opts w) = Ok i))"

definition fate :: "app_config \<Rightarrow> outbox_event \<Rightarrow> outbox_status" where
  "fate cfg e = (if outboxMaxRetries cfg \<le> ev_retryCount e then OUTBOX_FAILED else OUTBOX_PUBLISHED)"

definition fates :: "outbox_event list \<Rightarrow> (string \<times> outbox_status \<times> int) list" where
  "fates es = map (\<lambda>e. (ev_id e, ev_status e, ev_retryCount e)) es"

definition statuses :: "world \<Rightarrow> bool \<times> (string \<times> outbox_status \<times> int) list" where
  "statuses w = (op_running (w_outbox w), fates (db_outbox (w_db w)))"

text \<open>The events of an identifier get a status.\<close>

definition mark :: "string \<Rightarrow> outbox_status \<Rightarrow> bool \<times> (string \<times> outbox_status \<times> int) list
    \<Rightarrow> bool \<times> (string \<times> outbox_status \<times> int) list" where
  "mark i st = apsnd (map (\<lambda>(j, s, n). (j, if j = i then st else s, n)))"

lemma statuses_sel [simp]:
  "statuses (tick w) = statuses w" "statuses (w\<lparr>w_counters := c\<rparr>) = statuses w"
  by (simp_all add: statuses_def tick_def)

lemma same_db_quiet: "w_db w' = w_db w \<Longrightarrow> w_env w' = w_env w \<Longrightarrow> op_running (w_outbox w') = op_running (w_outbox w)
    \<Longrightarrow> quiet w' = quiet w \<and> statuses w' = statuses w"
  by (simp add: quiet_def statuses_def)

lemma list_bullmq_answers: "bullmq_answers list_bullmq"
  by (simp add: bullmq_answers_def list_bullmq_def ioM_def quiet_def list_add_def Let_def)

lemma statuses_update_all:
  "(\<And>e. ev_id (f e) = ev_id e \<and> ev_status (f e) = st \<and> ev_retryCount (f e) = ev_retryCount e) \<Longrightarrow>
     fates (update_all (\<lambda>e. ev_id e = i) f es) = map (\<lambda>(j, s, n). (j, if j = i then st else s, n)) (fates es)"
  by (auto simp: update_all_def fates_def)

lemma quiet_set_event:
  assumes "quiet w" and "\<And>e. ev_id (f e) = ev_id e \<and> ev_status (f e) = st \<and> ev_retryCount (f e) = ev_retryCount e"
    and "\<And>w'. quiet w' \<Longrightarrow> statuses w' = mark i st (statuses w) \<Longrightarrow> P (Ok ()) w'"
  shows "wp (sqlM Pool (set_event i f)) P w"
  by (rule wp_sql_quiet [OF assms(1)], simp add: set_event_def, rule assms(3))
    (use assms(1,2) in \<open>simp_all add: statuses_def statuses_update_all mark_def\<close>)

lemma getQueue_same: "wp (getQueue cfg n) (\<lambda>r w'. (\<exists>h. r = Ok h) \<and> w_db w' = w_db w \<and> w_env w' = w_env w \<and> op_running (w_outbox w') = op_running (w_outbox w)) w"
  by (simp add: wp_def getQueue_def Let_def split: option.split)

lemma quiet_add:
  assumes "bullmq_laws B" and "bullmq_answers B" and "quiet w"
  shows "wp (bq_add B h name data opts) (\<lambda>r w'. (\<exists>i. r = Ok i) \<and> w_db w' = w_db w \<and> w_env w' = w_env w \<and> op_running (w_outbox w') = op_running (w_outbox w)) w"
proof -
  have "wp (bq_add B h name data opts) (\<lambda>r w'. \<exists>i. r = Ok i) w"
    using assms(2,3) by (simp add: wp_def bullmq_answers_def)
  from wp_conj [THEN iffD2, OF conjI, OF this bullmq_add_wp [OF assms(1)]] show ?thesis
    by (rule wp_mono) (auto simp: only_queues_def)
qed

lemma quiet_process_event:
  assumes B: "bullmq_laws B" "bullmq_answers B" and q: "quiet w"
  shows "wp (process_event B cfg pg_outbox_repo e) (\<lambda>r w'. r = Ok () \<and> quiet w'
     \<and> statuses w' = mark (ev_id e) (fate cfg e) (statuses w)) w"
proof (cases "outboxMaxRetries cfg \<le> ev_retryCount e")
  case True
  then show ?thesis
    unfolding process_event_def pg_outbox_sel if_P [OF True] wp_thenM outbox_markFailed_def wp_bindM [of nowM] wp_nowM
      res.case if_False
    by (intro quiet_set_event) (use q in \<open>auto simp: wp_increment fate_def\<close>)
next
  case False
  let ?P = "\<lambda>r w'. r = Ok () \<and> quiet w'
     \<and> statuses w' = mark (ev_id e) (fate cfg e) (statuses w)"
  have marked: "wp (thenM (outbox_markPublished (ev_id e)) (increment n l)) ?P w1"
    if "quiet w1" "statuses w1 = statuses w" for n l w1
    unfolding wp_thenM outbox_markPublished_def wp_bindM [of nowM] wp_nowM res.case
    by (intro quiet_set_event) (use that False in \<open>auto simp: wp_increment fate_def\<close>)
  have "wp (publish B cfg pg_outbox_repo e) ?P w"
    unfolding publish_def wp_bindM pg_outbox_sel
  proof (rule wp_mono [OF getQueue_same], elim conjE exE, goal_cases)
    case (1 r w1 h)
    then have w1: "quiet w1" "statuses w1 = statuses w" using q same_db_quiet [of w1 w] by simp_all
    show ?case
      unfolding 1 res.case
    proof (rule wp_mono [OF quiet_add [OF B w1(1)]], elim conjE exE, goal_cases)
      case (1 r w2 i)
      then have "quiet w2" "statuses w2 = statuses w" using w1 same_db_quiet [of w2 w1] by simp_all
      then show ?case unfolding 1 res.case by (rule marked)
    qed
  qed
  then show ?thesis
    unfolding process_event_def if_not_P [OF False] wp_catchM by (rule wp_mono) auto
qed


lemma quiet_process_events:
  assumes "bullmq_laws B" and "bullmq_answers B" and "quiet w"
  shows "wp (forM es (process_event B cfg pg_outbox_repo)) (\<lambda>r w'. r = Ok () \<and> quiet w'
     \<and> statuses w' = foldl (\<lambda>l e. mark (ev_id e) (fate cfg e) l) (statuses w) es) w"
  using assms(3)
proof (induction es arbitrary: w)
  case (Cons e es)
  show ?case
    unfolding forM.simps wp_thenM
  proof (rule wp_mono [OF quiet_process_event [OF assms(1,2) Cons.prems]], elim conjE, goal_cases)
    case (1 r w1)
    then show ?case
      unfolding \<open>r = Ok ()\<close> res.case by (intro wp_mono [OF Cons.IH]) auto
  qed
qed (simp add: wp_ret)

lemma fates_foldl:
  assumes "distinct (map ev_id es)"
  shows "foldl (\<lambda>l e. mark (ev_id e) (f e) l) (b, l) es
     = (b, map (\<lambda>(j, s, n). (j, case find (\<lambda>e. ev_id e = j) es of Some e \<Rightarrow> f e | None \<Rightarrow> s, n)) l)"
  using assms
proof (induction es arbitrary: l)
  case (Cons e es)
  have "find (\<lambda>x. ev_id x = ev_id e) es = None"
    using Cons.prems by (simp add: find_None_iff) (metis image_eqI)
  then show ?case using Cons by (auto simp: mark_def o_def split: option.split prod.split)
qed (simp add: mark_def split_beta)

lemma batch_keyed:
  fixes n :: nat
  assumes keyed: "keyed ev_id (db_outbox d)"
  defines "batch \<equiv> take n (sort_by (\<lambda>a b. ev_createdAt a \<le> ev_createdAt b)
                      (filter (\<lambda>e. ev_status e = OUTBOX_PENDING) (db_outbox d)))"
  shows "distinct (map ev_id batch)"
    and "e \<in> set (db_outbox d) \<Longrightarrow> find (\<lambda>x. ev_id x = ev_id e) batch = (if e \<in> set batch then Some e else None)"
proof -
  have inj: "inj_on ev_id (set (db_outbox d))" "distinct (db_outbox d)" using keyed by (simp_all add: keyed_def distinct_map)
  have sub: "set batch \<subseteq> set (db_outbox d)" unfolding batch_def by (auto dest: in_set_takeD)
  have "distinct batch"
    unfolding batch_def
    by (rule distinct_take) (metis inj(2) distinct_filter mset_eq_imp_distinct_iff mset_sort_by)
  then show "distinct (map ev_id batch)" using inj(1) sub by (simp add: distinct_map inj_on_subset)
  show "find (\<lambda>x. ev_id x = ev_id e) batch = (if e \<in> set batch then Some e else None)" if "e \<in> set (db_outbox d)"
  proof (cases "find (\<lambda>x. ev_id x = ev_id e) batch")
    case None
    then show ?thesis by (auto simp: find_None_iff)
  next
    case (Some x)
    then have "x \<in> set batch" "ev_id x = ev_id e" by (auto dest: find_SomeD)
    then have "x = e" using inj(1) sub that by (auto dest: inj_onD)
    with Some \<open>x \<in> set batch\<close> show ?thesis by simp
  qed
qed


section \<open>Rounds\<close>

definition pending_batch :: "db \<Rightarrow> outbox_event list" where
  "pending_batch d = take 100 (sort_by (\<lambda>a b. ev_createdAt a \<le> ev_createdAt b)
                      (filter (\<lambda>e. ev_status e = OUTBOX_PENDING) (db_outbox d)))"

text \<open>One batch gives its events their fate, and changes no other event.\<close>

lemma batch_fates:
  assumes "bullmq_laws B" and "bullmq_answers B" and "quiet w" and keyed: "keyed ev_id (db_outbox (w_db w))"
  shows "wp (processBatch B cfg pg_outbox_repo) (\<lambda>r w'. r = Ok () \<and> quiet w'
     \<and> statuses w' = (op_running (w_outbox w), map (\<lambda>e. (ev_id e, if e \<in> set (pending_batch (w_db w)) then fate cfg e else ev_status e,
          ev_retryCount e)) (db_outbox (w_db w)))) w"
proof -
  let ?batch = "pending_batch (w_db w)"
  let ?after = "(op_running (w_outbox w), map (\<lambda>e. (ev_id e, if e \<in> set ?batch then fate cfg e else ev_status e, ev_retryCount e))
      (db_outbox (w_db w)))"
  have fates: "foldl (\<lambda>l e. mark (ev_id e) (fate cfg e) l) (statuses w) ?batch = ?after"
    unfolding statuses_def fates_foldl [OF batch_keyed(1) [OF keyed, of 100, folded pending_batch_def]] fates_def
    by (auto simp: batch_keyed(2) [OF keyed, of _ 100, folded pending_batch_def])
  have all: "wp (forM ?batch (process_event B cfg pg_outbox_repo)) (\<lambda>r w'. r = Ok () \<and> quiet w' \<and> statuses w' = ?after) w1"
    if "quiet w1" "statuses w1 = statuses w" for w1
    by (rule wp_mono [OF quiet_process_events [OF assms(1,2) that(1)]]) (simp add: that(2) fates)
  show ?thesis
    unfolding processBatch_def pg_outbox_sel wp_bindM outbox_getPending_def
  proof (rule wp_sql_quiet [OF assms(3)], simp add: select_pending_def pending_batch_def [symmetric], unfold res.case)
    let ?w1 = "w\<lparr>w_db := w_db w, w_tick := Suc (w_tick w)\<rparr>"
    have "quiet ?w1" "statuses ?w1 = statuses w" using assms(3) by (simp_all add: statuses_def)
    then show "wp (if ?batch = [] then ret () else forM ?batch (process_event B cfg pg_outbox_repo))
       (\<lambda>r w'. r = Ok () \<and> quiet w' \<and> statuses w' = ?after) ?w1"
      using all [of ?w1] fates by (cases "?batch = []") (simp_all add: wp_ret)
  qed
qed

text \<open>The fates of all pending events, and how many events are pending.\<close>

definition settle :: "app_config \<Rightarrow> (string \<times> outbox_status \<times> int) list \<Rightarrow> (string \<times> outbox_status \<times> int) list" where
  "settle cfg = map (\<lambda>(j, s, n). (j, if s = OUTBOX_PENDING
     then if outboxMaxRetries cfg \<le> n then OUTBOX_FAILED else OUTBOX_PUBLISHED else s, n))"

definition waiting :: "(string \<times> outbox_status \<times> int) list \<Rightarrow> nat" where
  "waiting l = length (filter (\<lambda>(j, s, n). s = OUTBOX_PENDING) l)"

lemma waiting_fates: "waiting (fates es) = length (filter (\<lambda>e. ev_status e = OUTBOX_PENDING) es)"
  by (simp add: waiting_def fates_def filter_map comp_def)

lemma settled_idle: "waiting l = 0 \<Longrightarrow> settle cfg l = l"
  by (auto simp: waiting_def settle_def filter_empty_conv intro!: map_idI)

lemma pending_batch_set: "set (pending_batch d) \<subseteq> set (filter (\<lambda>e. ev_status e = OUTBOX_PENDING) (db_outbox d))"
  unfolding pending_batch_def by (metis set_sort_by set_take_subset)

lemma batch_settles:
  "settle cfg (map (\<lambda>e. (ev_id e, if e \<in> set (pending_batch d) then fate cfg e else ev_status e, ev_retryCount e)) (db_outbox d))
     = settle cfg (fates (db_outbox d))"
  using pending_batch_set [of d] by (auto simp: settle_def fates_def fate_def)

lemma batch_waiting:
  assumes "keyed ev_id (db_outbox d)"
  shows "waiting (map (\<lambda>e. (ev_id e, if e \<in> set (pending_batch d) then fate cfg e else ev_status e, ev_retryCount e)) (db_outbox d))
     = waiting (fates (db_outbox d)) - 100"
proof -
  let ?P = "filter (\<lambda>e. ev_status e = OUTBOX_PENDING) (db_outbox d)" and ?b = "pending_batch d"
  have dist: "distinct ?P" "distinct ?b"
    using assms batch_keyed(1) [OF assms, of 100, folded pending_batch_def] by (auto simp: keyed_def distinct_map)
  have "set (filter (\<lambda>e. e \<in> set ?b) ?P) = set ?b" using pending_batch_set [of d] by auto
  then have "length (filter (\<lambda>e. e \<in> set ?b) ?P) = length ?b"
    using dist by (metis distinct_card distinct_filter)
  moreover have "length ?b = min (length ?P) 100" by (simp add: pending_batch_def)
  ultimately have "length (filter (\<lambda>e. e \<notin> set ?b) ?P) = length ?P - 100"
    using sum_length_filter_compl [of "\<lambda>e. e \<in> set ?b" ?P] by simp
  moreover have "waiting (map (\<lambda>e. (ev_id e, if e \<in> set ?b then fate cfg e else ev_status e, ev_retryCount e)) (db_outbox d))
      = length (filter (\<lambda>e. e \<notin> set ?b) ?P)"
    by (simp add: waiting_def filter_map comp_def, intro arg_cong [where f = length] filter_cong) (auto simp: fate_def)
  ultimately show ?thesis by (simp add: waiting_fates)
qed

lemma keyed_fates: "keyed ev_id es \<longleftrightarrow> distinct (map fst (fates es))"
  by (simp add: keyed_def fates_def comp_def)

lemma poll_settles:
  assumes B: "bullmq_laws B" "bullmq_answers B"
  shows "quiet w \<Longrightarrow> op_running (w_outbox w) \<Longrightarrow> keyed ev_id (db_outbox (w_db w)) \<Longrightarrow> waiting (fates (db_outbox (w_db w))) \<le> 100 * n
     \<Longrightarrow> wp (poll n B cfg pg_outbox_repo) (\<lambda>r w'. r = Ok ()
        \<and> fates (db_outbox (w_db w')) = settle cfg (fates (db_outbox (w_db w)))) w"
proof (induction n arbitrary: w)
  case 0
  then show ?case by (simp add: wp_ret settled_idle)
next
  case (Suc n)
  note batch = wp_mono [OF batch_fates [OF B Suc.prems(1,3)]]
  have run: "(\<not> op_running (w_outbox w)) = False" using Suc.prems(2) by simp
  show ?case
    unfolding poll.simps wp_bindM wp_getsM res.case run if_False wp_thenM wp_catchM
  proof (rule batch, elim conjE, goal_cases)
    case (1 r w1)
    let ?l = "map (\<lambda>e. (ev_id e, if e \<in> set (pending_batch (w_db w)) then fate cfg e else ev_status e, ev_retryCount e)) (db_outbox (w_db w))"
    have w1: "op_running (w_outbox w1)" "fates (db_outbox (w_db w1)) = ?l"
      using 1(3) Suc.prems(2) by (simp_all add: statuses_def)
    have "keyed ev_id (db_outbox (w_db w1))"
      using Suc.prems(3) unfolding keyed_fates w1(2) by (simp add: fates_def comp_def)
    moreover have "waiting (fates (db_outbox (w_db w1))) \<le> 100 * n"
      using Suc.prems(4) unfolding w1(2) batch_waiting [OF Suc.prems(3)] by simp
    ultimately show ?case
      using Suc.IH [OF 1(2) w1(1)] unfolding 1(1) res.case w1(2) batch_settles by blast
  qed
qed


section \<open>The properties\<close>

text \<open>
  C14. The outbox loses no event and invents none: whatever fails in a batch and wherever the process
  dies, the events keep their identity and contents, no job leaves a queue, no queue gets two jobs
  of one identifier, and an event that has become published has a job in the queue its payload names.
\<close>

theorem outbox_publishes_enqueued:
  assumes "bullmq_laws B" and "keyed ev_id (db_outbox (w_db w))" and "cache_ok cfg w"
  shows "wp (processBatch B cfg pg_outbox_repo) (\<lambda>_ w'.
     map event_frame (db_outbox (w_db w')) = map event_frame (db_outbox (w_db w))
     \<and> (\<forall>h i. has_job h i w \<longrightarrow> has_job h i w')
     \<and> (\<forall>h. distinct (map job_id (jobs_of h w)) \<longrightarrow> distinct (map job_id (jobs_of h w')))
     \<and> (\<forall>k < length (db_outbox (w_db w)). ev_status (db_outbox (w_db w') ! k) = OUTBOX_PUBLISHED \<longrightarrow>
          ev_status (db_outbox (w_db w) ! k) = OUTBOX_PUBLISHED
          \<or> has_job (createQueue cfg (target_queue (db_outbox (w_db w) ! k))) (ev_id (db_outbox (w_db w) ! k)) w')) w"
  by (rule wp_mono [OF processBatch_wp [OF assms(1)]])
    (use assms(2,3) in \<open>simp add: published_enqueued_def queues_grow_def enqueued_def\<close>)

theorem outbox_publishes_enqueued_witness:
  "wp (processBatch list_bullmq example_config pg_outbox_repo) (\<lambda>_ w'.
     ev_status (hd (db_outbox (w_db w'))) = OUTBOX_PUBLISHED \<longrightarrow> has_job (createQueue example_config ''webhook-delivery'') ''e1'' w')
     (world_of quiet_env (empty_db\<lparr>db_outbox := [\<lparr>ev_id = ''e1'', ev_aggregateType = ''order'', ev_aggregateId = ''o1'',
        ev_eventType = ''order.paid'', ev_payload = [], ev_headers = [], ev_status = OUTBOX_PENDING, ev_retryCount = 0,
        ev_createdAt = 0, ev_processedAt = None\<rparr>]\<rparr>))"
  by (rule wp_mono [OF outbox_publishes_enqueued [OF list_bullmq_laws]])
    (auto simp: world_of_def cache_ok_def target_queue_def hd_conv_nth)

text \<open>
  An event that has used up its retries is never enqueued again: no queue changes, and when the
  step fulfils every row of the event is \<open>FAILED\<close>.
\<close>

theorem outbox_gives_up:
  assumes "outboxMaxRetries cfg \<le> ev_retryCount e"
  shows "wp (process_event B cfg pg_outbox_repo e) (\<lambda>r w'. w_queues w' = w_queues w
     \<and> (r = Ok () \<longrightarrow> (\<forall>e' \<in> set (db_outbox (w_db w')). ev_id e' = ev_id e \<longrightarrow> ev_status e' = OUTBOX_FAILED))) w"
  by (rule process_event_exhausted [OF assms])

theorem outbox_gives_up_witness:
  "wp (process_event list_bullmq (example_config\<lparr>outboxMaxRetries := 5\<rparr>) pg_outbox_repo
        \<lparr>ev_id = ''e1'', ev_aggregateType = ''order'', ev_aggregateId = ''o1'', ev_eventType = ''order.paid'', ev_payload = [],
         ev_headers = [], ev_status = OUTBOX_PENDING, ev_retryCount = 5, ev_createdAt = 0, ev_processedAt = None\<rparr>)
     (\<lambda>_ w'. w_queues w' = (\<lambda>_. [])) (world_of quiet_env empty_db)"
  by (rule wp_mono [OF outbox_gives_up]) (auto simp: world_of_def)

text \<open>
  When nothing fails, one batch settles the oldest hundred pending events: each of them is published, or
  failed when it has used up its retries, and no other event changes state.
\<close>

theorem outbox_drains:
  assumes "bullmq_laws B" and "bullmq_answers B" and "quiet w" and keyed: "keyed ev_id (db_outbox (w_db w))"
  shows "wp (processBatch B cfg pg_outbox_repo) (\<lambda>r w'. r = Ok ()
     \<and> (let batch = take 100 (sort_by (\<lambda>a b. ev_createdAt a \<le> ev_createdAt b)
                      (filter (\<lambda>e. ev_status e = OUTBOX_PENDING) (db_outbox (w_db w))))
        in map (\<lambda>e. (ev_id e, ev_status e)) (db_outbox (w_db w'))
           = map (\<lambda>e. (ev_id e, if e \<in> set batch
                then if outboxMaxRetries cfg \<le> ev_retryCount e then OUTBOX_FAILED else OUTBOX_PUBLISHED
                else ev_status e)) (db_outbox (w_db w)))) w"
proof (rule wp_mono [OF batch_fates [OF assms]], elim conjE, goal_cases)
  case (1 r w')
  from arg_cong [where f = "map (\<lambda>(i, s, n). (i, s)) \<circ> snd", OF 1(3)] 1(1) show ?case
    by (simp add: statuses_def fates_def fate_def pending_batch_def comp_def)
qed

theorem outbox_drains_witness:
  "wp (processBatch list_bullmq (example_config\<lparr>outboxMaxRetries := 5\<rparr>) pg_outbox_repo)
     (\<lambda>_ w'. map ev_status (db_outbox (w_db w')) = [OUTBOX_PUBLISHED, OUTBOX_FAILED])
     (world_of quiet_env (empty_db\<lparr>db_outbox := [
       \<lparr>ev_id = ''e1'', ev_aggregateType = ''order'', ev_aggregateId = ''o1'', ev_eventType = ''order.paid'', ev_payload = [],
        ev_headers = [], ev_status = OUTBOX_PENDING, ev_retryCount = 0, ev_createdAt = 0, ev_processedAt = None\<rparr>,
       \<lparr>ev_id = ''e2'', ev_aggregateType = ''order'', ev_aggregateId = ''o2'', ev_eventType = ''order.paid'', ev_payload = [],
        ev_headers = [], ev_status = OUTBOX_PENDING, ev_retryCount = 5, ev_createdAt = 0, ev_processedAt = None\<rparr>]\<rparr>))"
  by (rule wp_mono [OF outbox_drains [OF list_bullmq_laws list_bullmq_answers]])
    (auto simp: world_of_def quiet_def quiet_env_def Let_def map_eq_Cons_conv)

text \<open>
  C15. The outbox empties: when nothing fails and the poller runs, a round for every hundred pending events
  is enough for every one of them to be published, or failed when it has used up its retries; the events
  that were not pending keep their status and no retry is counted.
\<close>

theorem outbox_empties:
  assumes "bullmq_laws B" and "bullmq_answers B" and "quiet w" and "op_running (w_outbox w)"
    and "keyed ev_id (db_outbox (w_db w))"
    and "length (filter (\<lambda>e. ev_status e = OUTBOX_PENDING) (db_outbox (w_db w))) \<le> 100 * n"
  shows "wp (poll n B cfg pg_outbox_repo) (\<lambda>r w'. r = Ok ()
     \<and> map (\<lambda>e. (ev_id e, ev_status e, ev_retryCount e)) (db_outbox (w_db w'))
       = map (\<lambda>e. (ev_id e, if ev_status e = OUTBOX_PENDING
            then if outboxMaxRetries cfg \<le> ev_retryCount e then OUTBOX_FAILED else OUTBOX_PUBLISHED
            else ev_status e, ev_retryCount e)) (db_outbox (w_db w))) w"
  by (rule wp_mono [OF poll_settles [OF assms(1-5)]])
    (use assms(6) in \<open>simp_all add: waiting_fates\<close>, simp add: fates_def settle_def comp_def)

theorem outbox_empties_witness:
  "wp (poll 2 list_bullmq (example_config\<lparr>outboxMaxRetries := 5\<rparr>) pg_outbox_repo)
     (\<lambda>_ w'. map ev_status (db_outbox (w_db w')) = replicate 150 OUTBOX_PUBLISHED @ [OUTBOX_FAILED])
     ((world_of quiet_env (empty_db\<lparr>db_outbox := map (\<lambda>k.
       \<lparr>ev_id = digits_of k, ev_aggregateType = ''order'', ev_aggregateId = ''o1'', ev_eventType = ''order.paid'', ev_payload = [],
        ev_headers = [], ev_status = OUTBOX_PENDING, ev_retryCount = (if k < 150 then 0 else 5), ev_createdAt = int k,
        ev_processedAt = None\<rparr>) [0..<151]\<rparr>))\<lparr>w_outbox := \<lparr>op_running = True, op_aborted = Some False, op_queues = Map.empty\<rparr>\<rparr>)"
    (is "wp ?poll ?Q ?w")
proof -
  let ?es = "db_outbox (w_db ?w)"
  have "inj digits_of" by (rule injI) (metis number_of_digits)
  then have "distinct (map digits_of [0..<151])" by (auto simp: distinct_map inj_on_def dest: injD)
  then have keyed: "keyed ev_id ?es" by (simp add: world_of_def keyed_def comp_def del: upt_Suc upt_conv_Cons)
  have ev: "map (\<lambda>e. if outboxMaxRetries (example_config\<lparr>outboxMaxRetries := 5\<rparr>) \<le> ev_retryCount e then OUTBOX_FAILED else OUTBOX_PUBLISHED) ?es
      = replicate 150 OUTBOX_PUBLISHED @ [OUTBOX_FAILED]"
    by (simp add: world_of_def comp_def, code_simp)
  show ?thesis
  proof (rule wp_mono [OF outbox_empties [OF list_bullmq_laws list_bullmq_answers]])
    show "length (filter (\<lambda>e. ev_status e = OUTBOX_PENDING) ?es) \<le> 100 * 2"
      by (rule le_trans [OF length_filter_le]) (simp add: world_of_def del: upt_Suc)
    fix r w'
    assume "r = Ok () \<and> map (\<lambda>e. (ev_id e, ev_status e, ev_retryCount e)) (db_outbox (w_db w'))
       = map (\<lambda>e. (ev_id e, if ev_status e = OUTBOX_PENDING
            then if outboxMaxRetries (example_config\<lparr>outboxMaxRetries := 5\<rparr>) \<le> ev_retryCount e then OUTBOX_FAILED else OUTBOX_PUBLISHED
            else ev_status e, ev_retryCount e)) ?es"
    then have "map (fst \<circ> snd) (map (\<lambda>e. (ev_id e, ev_status e, ev_retryCount e)) (db_outbox (w_db w')))
       = map (fst \<circ> snd) (map (\<lambda>e. (ev_id e, if ev_status e = OUTBOX_PENDING
            then if outboxMaxRetries (example_config\<lparr>outboxMaxRetries := 5\<rparr>) \<le> ev_retryCount e then OUTBOX_FAILED else OUTBOX_PUBLISHED
            else ev_status e, ev_retryCount e)) ?es)" by simp
    moreover have "\<forall>e \<in> set ?es. ev_status e = OUTBOX_PENDING" by (auto simp: world_of_def)
    ultimately show "map ev_status (db_outbox (w_db w')) = replicate 150 OUTBOX_PUBLISHED @ [OUTBOX_FAILED]"
      unfolding ev [symmetric] by (simp add: comp_def cong: map_cong)
  qed (use keyed in \<open>simp_all add: world_of_def quiet_def quiet_env_def\<close>)
qed

end
