(* ===== verification/Invariants.thy ===== *)
theory Invariants
  imports Commits
begin

text \<open>
  The invariants of the machine of \<open>Commits\<close>: the transactional outbox (no status of an order without
  the event that announces it), the integrity of the tables, the bounds of the stock and the exactness
  of the stored totals.
\<close>


section \<open>What a commit touches\<close>

lemma set_saga_Inr:
  "set_saga s d = Inr (u, d') \<Longrightarrow>
     d' = d\<lparr>db_sagas := update_all (\<lambda>r. saga_id r = saga_id s)
               (\<lambda>r. r\<lparr>saga_status := saga_status s, saga_currentStep := saga_currentStep s,
                     saga_completedAt := saga_completedAt s, saga_metadata := saga_metadata s\<rparr>)
               (db_sagas d)\<rparr>"
  unfolding set_saga_def require_Inr_iff by simp

lemma insert_saga_Inr:
  "insert_saga s d = Inr (u, d') \<Longrightarrow>
     d' = d\<lparr>db_sagas := db_sagas d @ [s]\<rparr> \<and> saga_id s \<notin> saga_id ` set (db_sagas d)
     \<and> saga_orderId s \<in> or_id ` set (db_orders d)"
  unfolding insert_saga_def require_Inr_iff by simp

lemma insert_step_Inr:
  "insert_step s d = Inr (u, d') \<Longrightarrow>
     d' = d\<lparr>db_steps := db_steps d @ [s]\<rparr> \<and> step_id s \<notin> step_id ` set (db_steps d)
     \<and> step_sagaId s \<in> saga_id ` set (db_sagas d)"
  unfolding insert_step_def require_Inr_iff by simp

lemma set_step_Inr:
  "set_step s d = Inr (u, d') \<Longrightarrow>
     \<exists>f. d' = d\<lparr>db_steps := update_all (\<lambda>r. step_id r = step_id s) f (db_steps d)\<rparr>
       \<and> (\<forall>r. step_id (f r) = step_id r \<and> step_sagaId (f r) = step_sagaId r)"
  unfolding set_step_def by auto

lemma update_inventory_Inr:
  "update_inventory s p f d = Inr (b, d') \<Longrightarrow>
     d' = d \<or> (\<exists>r. db_inventory d s = Some r \<and> d' = d\<lparr>db_inventory := (db_inventory d)(s \<mapsto> f r)\<rparr>
                  \<and> 0 \<le> inv_available (f r) \<and> 0 \<le> inv_reserved (f r))"
  by (auto simp: update_inventory_def split: option.splits if_splits sum.splits
      dest!: checked_inventory_Inr)

lemma seed_stmt_Inr:
  "seed_stmt s q d = Inr (u, d') \<Longrightarrow>
     d' = d \<or> (\<exists>r. d' = d\<lparr>db_inventory := (db_inventory d)(s \<mapsto> r)\<rparr>
                  \<and> 0 \<le> inv_available r \<and> 0 \<le> inv_reserved r)"
  unfolding seed_stmt_def
  by (auto simp: require_Inr_iff split: option.splits sum.splits
      dest!: checked_inventory_Inr update_inventory_Inr simp del: require.simps)

lemma stock_stmts_Inr:
  "reserve_stmt s q d = Inr (b, d') \<or> release_stmt s q d = Inr (b, d') \<or> seed_stmt s q d = Inr (u, d') \<Longrightarrow>
     d' = d \<or> (\<exists>r. d' = d\<lparr>db_inventory := (db_inventory d)(s \<mapsto> r)\<rparr>
                  \<and> 0 \<le> inv_available r \<and> 0 \<le> inv_reserved r)"
  by (auto simp: reserve_stmt_def release_stmt_def split: if_splits
      dest!: update_inventory_Inr seed_stmt_Inr)

text \<open>The commits by the tables they write; the other tables keep their rows.\<close>

lemma commit_cases:
  assumes "commit L d d'"
  obtains
    (order) rq ord where "order_from L rq ord" "recorded_with rq ord d d'"
  | (status) oid st ne where "status_recorded oid st ne d d'"
      "ne_aggregateId ne = oid"
      "(st, ne_eventType ne) \<in> {(PAID, ''order.paid''), (CANCELLED, ''order.failed'')}"
  | (stock) s r where "d' = d\<lparr>db_inventory := (db_inventory d)(s \<mapsto> r)\<rparr>"
      "0 \<le> inv_available r" "0 \<le> inv_reserved r"
  | (saga_new) s where "d' = d\<lparr>db_sagas := db_sagas d @ [s]\<rparr>" "saga_status s = SAGA_PENDING"
      "saga_id s \<notin> saga_id ` set (db_sagas d)" "saga_orderId s \<in> or_id ` set (db_orders d)"
  | (saga) p f where "d' = d\<lparr>db_sagas := update_all p f (db_sagas d)\<rparr>"
      "\<And>r. saga_id (f r) = saga_id r \<and> saga_orderId (f r) = saga_orderId r"
  | (step_new) s where "d' = d\<lparr>db_steps := db_steps d @ [s]\<rparr>"
      "step_id s \<notin> step_id ` set (db_steps d)" "step_sagaId s \<in> saga_id ` set (db_sagas d)"
  | (step) p f where "d' = d\<lparr>db_steps := update_all p f (db_steps d)\<rparr>"
      "\<And>r. step_id (f r) = step_id r \<and> step_sagaId (f r) = step_sagaId r"
  | (event) p f where "d' = d\<lparr>db_outbox := update_all p f (db_outbox d)\<rparr>"
      "\<And>e. event_core (f e) = event_core e"
  | (webhooks) ss ds where "d' = d\<lparr>db_subscriptions := ss, db_deliveries := ds\<rparr>"
  | (idle) "d' = d"
  using assms
proof cases
  case (order_created request ord)
  then show ?thesis by (rule that(1))
next
  case (order_paid c tid)
  then show ?thesis by (rule that(2)) (simp_all add: paid_event_def status_event_def)
next
  case (order_failed c)
  then show ?thesis by (rule that(2)) (simp_all add: failed_event_def status_event_def)
next
  case (reserved s q b)
  then show ?thesis using stock_stmts_Inr that(3,10) by metis
next
  case (released s q b)
  then show ?thesis using stock_stmts_Inr that(3,10) by metis
next
  case (seeded s q u)
  then show ?thesis using stock_stmts_Inr that(3,10) by metis
next
  case (saga_created s u)
  then show ?thesis using insert_saga_Inr that(4) by metis
next
  case (saga_written s u)
  then show ?thesis by (intro that(5) [OF set_saga_Inr]) simp_all
next
  case (step_created s u)
  then show ?thesis using insert_step_Inr that(6) by metis
next
  case (step_written s u)
  then show ?thesis using set_step_Inr that(7) by metis
next
  case (event_written eid f u)
  then show ?thesis by (intro that(8) [of "\<lambda>e. ev_id e = eid" f]) (auto simp: set_event_def)
next
  case (subscribed sb u)
  then show ?thesis
    by (intro that(9) [where ss = "db_subscriptions d'" and ds = "db_deliveries d"]) (auto simp: insert_subscription_def require_Inr_iff simp del: require.simps)
next
  case (delivery_recorded r)
  then show ?thesis by (intro that(9) [where ss = "db_subscriptions d" and ds = "db_deliveries d'"]) simp
qed


section \<open>The transactional outbox\<close>

definition announced :: "db \<Rightarrow> string \<Rightarrow> string \<Rightarrow> bool" where
  "announced d ty oid \<longleftrightarrow> (\<exists>e \<in> set (db_outbox d). ev_eventType e = ty \<and> ev_aggregateId e = oid)"

text \<open>What the events of an order in a status are.\<close>

definition row_announced :: "db \<Rightarrow> order_row \<Rightarrow> bool" where
  "row_announced d r \<longleftrightarrow>
     announced d ''order.created'' (or_id r)
     \<and> (or_status r = PENDING
        \<or> or_status r = PAID \<and> announced d ''order.paid'' (or_id r)
        \<or> or_status r = CANCELLED \<and> announced d ''order.failed'' (or_id r))"

definition outbox_complete :: "db \<Rightarrow> bool" where
  "outbox_complete d \<longleftrightarrow> (\<forall>r \<in> set (db_orders d). row_announced d r)"

lemma announced_append [simp]:
  "announced (d\<lparr>db_orders := os, db_outbox := db_outbox d @ [e]\<rparr>) ty oid
     \<longleftrightarrow> announced d ty oid \<or> ev_eventType e = ty \<and> ev_aggregateId e = oid"
  "announced (d\<lparr>db_orders := os, db_items := is, db_outbox := db_outbox d @ [e]\<rparr>) ty oid
     \<longleftrightarrow> announced d ty oid \<or> ev_eventType e = ty \<and> ev_aggregateId e = oid"
  by (auto simp: announced_def)

lemma announced_frame [simp]:
  "announced (d\<lparr>db_inventory := i\<rparr>) ty oid = announced d ty oid"
  "announced (d\<lparr>db_sagas := s\<rparr>) ty oid = announced d ty oid"
  "announced (d\<lparr>db_steps := t\<rparr>) ty oid = announced d ty oid"
  "announced (d\<lparr>db_subscriptions := u, db_deliveries := v\<rparr>) ty oid = announced d ty oid"
  by (simp_all add: announced_def)

lemma announced_update [simp]:
  assumes "\<And>e. event_core (f e) = event_core e"
  shows "announced (d\<lparr>db_outbox := update_all p f (db_outbox d)\<rparr>) ty oid = announced d ty oid"
proof -
  have "ev_eventType (f e) = ev_eventType e" "ev_aggregateId (f e) = ev_aggregateId e" for e
    using assms [of e] by (simp_all add: event_core_def)
  then show ?thesis unfolding announced_def by (simp add: bex_update_all)
qed

lemma row_announced_frame:
  "(\<And>ty. announced d ty (or_id r) = announced d' ty (or_id r)) \<Longrightarrow> row_announced d r = row_announced d' r"
  by (simp add: row_announced_def)

lemma commit_outbox_complete:
  assumes "commit L d d'" and inv: "outbox_complete d"
  shows "outbox_complete d'"
  using assms(1)
proof (cases rule: commit_cases)
  case (order rq ord)
  then obtain eid t where d': "d' = d\<lparr>db_orders := db_orders d @ [order_row_of ord],
            db_items := db_items d @ map item_row_of (order_items ord),
            db_outbox := db_outbox d @ [event_row_of (created_event rq ord) eid t]\<rparr>"
    by (auto simp: recorded_with_def dest!: order_recorded_eq)
  have "order_status ord = PENDING"
    using order(1) by (auto simp: order_from_def dest: createOrder_Inr(4))
  with inv show ?thesis
    unfolding outbox_complete_def d' by (auto simp: row_announced_def)
next
  case (status oid st ne)
  from status(1) obtain t eid t' where d': "d' = d\<lparr>db_orders := update_all (\<lambda>r. or_id r = oid)
                              (\<lambda>r. r\<lparr>or_status := st, or_updated_at := t\<rparr>) (db_orders d),
            db_outbox := db_outbox d @ [event_row_of ne eid t']\<rparr>"
    by (rule status_recorded_eq)
  show ?thesis
    unfolding outbox_complete_def
  proof
    fix r' assume "r' \<in> set (db_orders d')"
    then obtain r where r: "r \<in> set (db_orders d)"
        "r' = (if or_id r = oid then r\<lparr>or_status := st, or_updated_at := t\<rparr> else r)"
      by (auto simp: d' set_update_all)
    have "row_announced d r" using inv r(1) by (simp add: outbox_complete_def)
    then show "row_announced d' r'"
      using status(2,3) r(2) unfolding d' row_announced_def by (auto split: if_splits)
  qed
qed (use inv in \<open>auto simp: outbox_complete_def cong: row_announced_frame\<close>)



section \<open>The integrity of the tables\<close>

definition distinct_keys :: "db \<Rightarrow> bool" where
  "distinct_keys d \<longleftrightarrow> keyed or_id (db_orders d) \<and> keyed oi_id (db_items d)
     \<and> keyed ev_id (db_outbox d) \<and> keyed saga_id (db_sagas d) \<and> keyed step_id (db_steps d)"

text \<open>No two orders carry the same idempotency key.\<close>

definition keys_unique :: "db \<Rightarrow> bool" where
  "keys_unique d \<longleftrightarrow> distinct (filter (\<lambda>k. k \<noteq> None) (map or_idempotency_key (db_orders d)))"

definition references :: "db \<Rightarrow> bool" where
  "references d \<longleftrightarrow> oi_order_id ` set (db_items d) \<subseteq> or_id ` set (db_orders d)
     \<and> saga_orderId ` set (db_sagas d) \<subseteq> or_id ` set (db_orders d)
     \<and> step_sagaId ` set (db_steps d) \<subseteq> saga_id ` set (db_sagas d)"

definition integrity :: "db \<Rightarrow> bool" where
  "integrity d \<longleftrightarrow> distinct_keys d \<and> keys_unique d \<and> references d"

lemma order_recorded_checks:
  assumes "order_recorded ord ev d d'"
  shows "order_idempotencyKey ord = None
           \<or> order_idempotencyKey ord \<notin> or_idempotency_key ` set (db_orders d)"
    and "keyed oi_id (db_items d) \<Longrightarrow> keyed oi_id (db_items d @ map item_row_of (order_items ord))"
    and "oi_order_id ` set (map item_row_of (order_items ord))
           \<subseteq> insert (order_id ord) (or_id ` set (db_orders d))"
    and "numeric_12_2 (amount (order_totalAmount ord))"
proof -
  from assms obtain d1 d2 where o: "insert_order (order_row_of ord) d = Inr ((), d1)"
    and i: "if order_items ord = [] then d2 = d1
            else insert_items (map item_row_of (order_items ord)) d1 = Inr ((), d2)"
    unfolding order_recorded_def by blast
  note o' = insert_order_Inr [OF o]
  show "order_idempotencyKey ord = None
           \<or> order_idempotencyKey ord \<notin> or_idempotency_key ` set (db_orders d)"
    using o' by simp
  show "numeric_12_2 (amount (order_totalAmount ord))"
    using o unfolding insert_order_def require_Inr_iff by simp
  have i': "keyed oi_id (db_items d @ map item_row_of (order_items ord))
      \<and> oi_order_id ` set (map item_row_of (order_items ord)) \<subseteq> insert (order_id ord) (or_id ` set (db_orders d))"
    if "order_items ord \<noteq> []"
    using insert_items_Inr [of "map item_row_of (order_items ord)" d1 "()" d2] i o' that
    by (simp only: if_False) simp
  show "keyed oi_id (db_items d) \<Longrightarrow> keyed oi_id (db_items d @ map item_row_of (order_items ord))"
    using i' by (cases "order_items ord = []") simp_all
  show "oi_order_id ` set (map item_row_of (order_items ord))
           \<subseteq> insert (order_id ord) (or_id ` set (db_orders d))"
    using i' by (cases "order_items ord = []") simp_all
qed

lemma distinct_filter_snoc:
  "distinct (filter P (xs @ [x])) \<longleftrightarrow> distinct (filter P xs) \<and> (P x \<longrightarrow> x \<notin> set xs)"
  by auto

lemma commit_integrity:
  assumes "commit L d d'" and inv: "integrity d"
  shows "integrity d'"
  using assms(1)
proof (cases rule: commit_cases)
  case (order rq ord)
  then obtain eid t where rec: "order_recorded ord (event_row_of (created_event rq ord) eid t) d d'"
    by (auto simp: recorded_with_def)
  note eq = order_recorded_eq [OF rec] and checks = order_recorded_checks [OF rec]
  have k: "order_idempotencyKey ord \<noteq> None \<longrightarrow> order_idempotencyKey ord \<notin> set (map or_idempotency_key (db_orders d))"
    using checks(1) by auto
  have "keys_unique d'"
    using inv k eq unfolding integrity_def keys_unique_def
    by (simp only: db.simps eq map_append list.map order_row_of_sel distinct_filter_snoc) simp
  moreover have "distinct_keys d'"
    using inv checks(2) eq unfolding integrity_def distinct_keys_def by (auto simp: keyed_append)
  moreover have "references d'"
    using inv checks(3) eq unfolding integrity_def references_def by auto
  ultimately show ?thesis by (simp add: integrity_def)
next
  case (status oid st ne)
  from status(1) obtain t eid t' where "eid \<notin> ev_id ` set (db_outbox d)"
    and d': "d' = d\<lparr>db_orders := update_all (\<lambda>r. or_id r = oid)
                              (\<lambda>r. r\<lparr>or_status := st, or_updated_at := t\<rparr>) (db_orders d),
            db_outbox := db_outbox d @ [event_row_of ne eid t']\<rparr>"
    by (rule status_recorded_eq)
  with inv show ?thesis
    by (auto simp: integrity_def distinct_keys_def keys_unique_def references_def keyed_append
        keyed_update_all map_update_all image_update_all)
next
  case (saga p f)
  with inv show ?thesis
    by (auto simp: integrity_def distinct_keys_def keys_unique_def references_def
        keyed_update_all image_update_all)
next
  case (step p f)
  with inv show ?thesis
    by (auto simp: integrity_def distinct_keys_def keys_unique_def references_def
        keyed_update_all image_update_all)
next
  case (event p f)
  have "\<And>e. ev_id (f e) = ev_id e" using event(2) by (simp add: event_core_def)
  with event inv show ?thesis
    by (auto simp: integrity_def distinct_keys_def keys_unique_def references_def keyed_update_all)
qed (use inv in \<open>auto simp: integrity_def distinct_keys_def keys_unique_def references_def keyed_append\<close>)


section \<open>The bounds of the stock\<close>

definition stock_bounded :: "db \<Rightarrow> bool" where
  "stock_bounded d \<longleftrightarrow>
     (\<forall>s r. db_inventory d s = Some r \<longrightarrow> 0 \<le> inv_available r \<and> 0 \<le> inv_reserved r)"

lemma commit_stock_bounded:
  assumes "commit L d d'" and inv: "stock_bounded d"
  shows "stock_bounded d'"
  using assms(1)
proof (cases rule: commit_cases)
  case (order rq ord)
  with inv show ?thesis by (auto simp: recorded_with_def stock_bounded_def dest!: order_recorded_eq)
next
  case (status oid st ne)
  with inv show ?thesis by (auto simp: stock_bounded_def elim!: status_recorded_eq)
qed (use inv in \<open>auto simp: stock_bounded_def\<close>)


section \<open>The invariants of the machine\<close>

interpretation outbox: commit_invariant L outbox_complete for L
  by unfold_locales (rule commit_outbox_complete)

interpretation tables: commit_invariant L integrity for L
  by unfold_locales (rule commit_integrity)

interpretation stock: commit_invariant L stock_bounded for L
  by unfold_locales (rule commit_stock_bounded)

end
