(* ===== verification/Saga_Outcome.thy ===== *)
theory Saga_Outcome
  imports Invariants Triples
begin

text \<open>
  What a run of the saga orchestrator leaves behind when it fulfils: triples of partial correctness for
  its operations, and the outcome of \<open>startSaga\<close> and \<open>compensate\<close> of
  \<open>src/src/domain/services/saga-orchestrator.ts\<close> on the repositories of PostgreSQL.
\<close>


section \<open>Frames\<close>

text \<open>The tables of the sagas are the only ones the bookkeeping of a saga touches.\<close>

definition saga_tables :: "db \<Rightarrow> db \<Rightarrow> bool" where
  "saga_tables d d' \<longleftrightarrow> db_orders d' = db_orders d \<and> db_outbox d' = db_outbox d"

lemma preord_saga_tables [simp]: "preord saga_tables"
  by (simp add: preord_def saga_tables_def)

lemma upholds_saga_tables:
  "upholds (on_db saga_tables) (saga_update s)" "upholds (on_db saga_tables) (beginStep pg_saga_repo sid n k j)"
  "upholds (on_db saga_tables) (endStep pg_saga_repo st)" "upholds (on_db saga_tables) nowM"
  "upholds (on_db saga_tables) (increment m l)"
proof -
  have "stmt_in saga_tables (set_saga s)" "stmt_in saga_tables (insert_step st)" "stmt_in saga_tables (set_step st)" for st
    by (auto simp: stmt_in_def saga_tables_def dest!: set_saga_Inr insert_step_Inr set_step_Inr)
  note sql = this [THEN upholds_sqlM_Pool [OF preord_saga_tables]]
  show now: "upholds (on_db saga_tables) nowM" "upholds (on_db saga_tables) (increment m l)"
    by (intro upholds_intros ticks_on_db preord_saga_tables)+
  show "upholds (on_db saga_tables) (saga_update s)" "upholds (on_db saga_tables) (beginStep pg_saga_repo sid n k j)"
    "upholds (on_db saga_tables) (endStep pg_saga_repo st)"
    unfolding beginStep_def endStep_def pg_saga_sel Let_def saga_update_def saga_createStep_def saga_updateStep_def
    by (intro upholds_intros preord_on_db ticks_on_db preord_saga_tables sql)+
qed

text \<open>A saga, once written, stays.\<close>

definition known :: "string \<Rightarrow> world \<Rightarrow> bool" where
  "known sid w \<longleftrightarrow> sid \<in> saga_id ` set (db_sagas (w_db w))"

lemma commit_known: "commit L d d' \<Longrightarrow> sid \<in> saga_id ` set (db_sagas d) \<Longrightarrow> sid \<in> saga_id ` set (db_sagas d')"
proof (erule commit_cases)
  fix rq ord
  assume "recorded_with rq ord d d'" "sid \<in> saga_id ` set (db_sagas d)"
  then show ?thesis by (auto simp: recorded_with_def dest!: order_recorded_eq)
next
  fix oid st ne
  assume "status_recorded oid st ne d d'" "sid \<in> saga_id ` set (db_sagas d)"
  then show ?thesis by (elim status_recorded_eq) auto
next
  fix p f
  assume "d' = d\<lparr>db_sagas := update_all p f (db_sagas d)\<rparr>" "\<And>r. saga_id (f r) = saga_id r \<and> saga_orderId (f r) = saga_orderId r"
    "sid \<in> saga_id ` set (db_sagas d)"
  then show ?thesis by (simp add: image_update_all)
qed auto

interpretation known: commit_invariant L "\<lambda>d. sid \<in> saga_id ` set (db_sagas d)" for L sid
  by unfold_locales (rule commit_known)

lemma triple_known: "upholds (on_db (commits L)) m \<Longrightarrow> triple (known sid) m (\<lambda>_. known sid)"
  by (erule triple_frame) (auto simp: on_db_def known_def intro: known.commits_keep)

text \<open>The order is paid, and that is announced.\<close>

definition paid :: "string \<Rightarrow> world \<Rightarrow> bool" where
  "paid oid w \<longleftrightarrow> (\<forall>r \<in> set (db_orders (w_db w)). or_id r = oid \<longrightarrow> or_status r = PAID)
     \<and> announced (w_db w) ''order.paid'' oid"

lemma triple_paid: "upholds (on_db saga_tables) m \<Longrightarrow> triple (paid oid) m (\<lambda>_. paid oid)"
  by (erule triple_frame) (simp add: on_db_def saga_tables_def paid_def announced_def)


section \<open>The outcome of a saga\<close>

text \<open>A saga \<open>s\<close> that has ended, with the state its row has in the database.\<close>

definition ended :: "saga_status \<Rightarrow> saga_instance \<Rightarrow> saga_instance \<Rightarrow> world \<Rightarrow> bool" where
  "ended st running s w \<longleftrightarrow> saga_status s = st \<and> saga_id s = saga_id running \<and> saga_orderId s = saga_orderId running
     \<and> (\<exists>row \<in> set (db_sagas (w_db w)). saga_id row = saga_id s \<and> saga_status row = st)"

lemma triple_update:
  "triple (known (saga_id s)) (saga_update s)
     (\<lambda>_ w. \<exists>row \<in> set (db_sagas (w_db w)). saga_id row = saga_id s \<and> saga_status row = saga_status s)"
  unfolding triple_def saga_update_def
proof (intro allI impI, rule wp_mono [OF wp_sql_Pool], goal_cases)
  case (1 w r w')
  show ?case
  proof (intro allI impI)
    fix a assume "r = Ok a"
    with 1 have "set_saga s (w_db w) = Inr ((), w_db w')" by auto
    note eq = set_saga_Inr [OF this]
    obtain x where x: "x \<in> set (db_sagas (w_db w))" "saga_id x = saga_id s" using 1 by (auto simp: known_def)
    let ?f = "\<lambda>r. r\<lparr>saga_status := saga_status s, saga_currentStep := saga_currentStep s,
                 saga_completedAt := saga_completedAt s, saga_metadata := saga_metadata s\<rparr>"
    have "?f x \<in> set (db_sagas (w_db w'))" using x eq by (simp add: set_update_all) (rule bexI [of _ x], auto)
    then show "\<exists>row \<in> set (db_sagas (w_db w')). saga_id row = saga_id s \<and> saga_status row = saga_status s"
      by (rule bexI [rotated]) (use x in simp)
  qed
qed

lemma status_recorded_paid:
  assumes "status_recorded oid PAID ne d (w_db w)" and "ne_eventType ne = ''order.paid''" "ne_aggregateId ne = oid"
  shows "paid oid w"
  using assms(1)
proof (elim status_recorded_eq)
  fix t eid t'
  assume "w_db w = d\<lparr>db_orders := update_all (\<lambda>r. or_id r = oid) (\<lambda>r. r\<lparr>or_status := PAID, or_updated_at := t\<rparr>) (db_orders d),
      db_outbox := db_outbox d @ [event_row_of ne eid t']\<rparr>"
  then show ?thesis
    using assms(2,3) by (auto simp: paid_def announced_def set_update_all)
qed

lemma triple_paid_begin:
  "triple (known sid) (tm_begin pg_tx_manager (status_tx (pg_orchestrator L le sha ps) (cx_orderId c) PAID (paid_event c tid)))
     (\<lambda>_ w. known sid w \<and> paid (cx_orderId c) w)"
proof -
  let ?m = "tm_begin pg_tx_manager (status_tx (pg_orchestrator L le sha ps) (cx_orderId c) PAID (paid_event c tid))"
  have "triple (\<lambda>_. True) ?m (\<lambda>_. paid (cx_orderId c))"
    unfolding triple_def
    by (intro allI impI, rule wp_mono [OF status_begin_wp])
      (auto intro!: status_recorded_paid simp: paid_event_def status_event_def)
  from triple_conj [OF triple_known [OF upholds_paid_begin] this] show ?thesis by (rule triple_weaken) auto
qed

lemma triple_finish:
  assumes "saga_status s = st" "saga_id s = saga_id running" "saga_orderId s = saga_orderId running"
    and P: "\<And>w w'. on_db saga_tables w w' \<Longrightarrow> P w \<Longrightarrow> P w'"
  shows "triple (\<lambda>w. known (saga_id running) w \<and> P w)
    (thenM (saga_update s) (thenM (increment m l) (ret s))) (\<lambda>s w. ended st running s w \<and> P w)"
proof (rule triple_thenM [where J = "\<lambda>w. ended st running s w \<and> P w"])
  show "triple (\<lambda>w. known (saga_id running) w \<and> P w) (saga_update s) (\<lambda>_ w. ended st running s w \<and> P w)"
    by (rule triple_weaken [OF triple_conj [OF triple_update triple_frame [OF upholds_saga_tables(1) P]]])
      (auto simp: ended_def assms(1-3))
  have "triple (\<lambda>w. ended st running s w) (increment m l) (\<lambda>_. ended st running s)"
    by (rule triple_frame [where R = "on_db (=)"])
      (auto simp: ended_def on_db_def intro: upholds_increment)
  from triple_conj [OF this triple_frame [OF upholds_saga_tables(5) P]]
  show "triple (\<lambda>w. ended st running s w \<and> P w) (thenM (increment m l) (ret s)) (\<lambda>s w. ended st running s w \<and> P w)"
    by (rule triple_thenM) (auto intro: triple_ret)
qed

lemma confirm_order_outcome:
  "triple (known (saga_id running)) (confirm_order (pg_orchestrator L le sha ps) c running pr)
     (\<lambda>s w. ended SAGA_COMPLETED running s w \<and> paid (cx_orderId c) w)"
proof -
  let ?k = "known (saga_id running)" and ?p = "paid (cx_orderId c)"
  have keep: "triple (\<lambda>w. ?k w \<and> ?p w) m (\<lambda>_ w. ?k w \<and> ?p w)"
    if "upholds (on_db (commits L)) m" "upholds (on_db saga_tables) m" for m :: "'b io"
    by (rule triple_conj [OF triple_known [OF that(1)] triple_paid [OF that(2)]])
  have now: "upholds (on_db (commits L)) nowM" by (intro upholds_intros ticks_on_db preord_rtranclp)
  have finish: "triple (\<lambda>w. ?k w \<and> ?p w) (thenM (saga_update s) (thenM (increment ''saga.completed'' []) (ret s)))
      (\<lambda>s w. ended SAGA_COMPLETED running s w \<and> ?p w)" if "completeSaga running t = Inr s" for s t
    by (rule triple_finish)
      (use that in \<open>auto simp: completeSaga_def on_db_def saga_tables_def paid_def announced_def split: if_splits\<close>)
  show ?thesis
    unfolding confirm_order_def pg_orchestrator_sel pg_saga_sel
    by (intro triple_bindM [OF triple_known [OF upholds_beginStep]] triple_thenM [OF triple_paid_begin]
        triple_bindM [OF keep [OF now upholds_saga_tables(4)]] triple_bindM [OF keep [OF upholds_endStep upholds_saga_tables(3)]]
        triple_bindR finish)
qed

lemma compensate_outcome:
  assumes "payment_frame ps"
  shows "triple (known (saga_id running)) (compensate L (pg_orchestrator L' le sha ps) (saga_id running) c running)
     (\<lambda>s w. ended SAGA_FAILED running s w)"
proof -
  let ?k = "known (saga_id running)"
  have now: "upholds (on_db (commits L)) nowM" by (intro upholds_intros ticks_on_db preord_rtranclp)
  have tx: "upholds (on_db (commits L)) (catchM (tm_begin pg_tx_manager
      (status_tx (pg_orchestrator L' le sha ps) (cx_orderId c) CANCELLED (failed_event c))) (\<lambda>_. ret ()))"
    by (intro upholds_intros preord_on_db preord_rtranclp)
  have finish: "triple ?k (thenM (saga_update s') (thenM (increment ''saga.compensated'' []) (ret s')))
      (\<lambda>s w. ended SAGA_FAILED running s w)"
    if "startCompensation running = Inr s" "completeCompensation s t = Inr s'" for s s' t
    by (rule triple_weaken [OF triple_finish [where P = "\<lambda>_. True"]])
      (use that in \<open>auto simp: startCompensation_def completeCompensation_def split: if_splits\<close>)
  note k = triple_known [where L = L]
  show ?thesis
    unfolding compensate_def pg_orchestrator_sel pg_saga_sel
    by (intro triple_bindR triple_thenM [OF k [OF upholds_saga_repo(2)]] triple_bindM [OF k [OF upholds_saga_repo(5)]]
        triple_thenM [OF k [OF upholds_compensate_payment [OF assms]]] triple_thenM [OF k [OF upholds_compensate_inventory]]
        triple_thenM [OF k [OF tx]] triple_bindM [OF k [OF now]] finish)
qed

text \<open>The two ways a saga ends.\<close>

definition settled :: "saga_context \<Rightarrow> string \<Rightarrow> saga_instance \<Rightarrow> world \<Rightarrow> bool" where
  "settled c sid s w \<longleftrightarrow> saga_id s = sid \<and> saga_orderId s = cx_orderId c
     \<and> (\<exists>row \<in> set (db_sagas (w_db w)). saga_id row = sid \<and> saga_status row = saga_status s)
     \<and> (saga_status s = SAGA_COMPLETED \<and> paid (cx_orderId c) w \<or> saga_status s = SAGA_FAILED)"

lemma ended_settled:
  "saga_orderId running = cx_orderId c \<Longrightarrow> ended SAGA_COMPLETED running s w \<and> paid (cx_orderId c) w
     \<Longrightarrow> settled c (saga_id running) s w"
  "saga_orderId running = cx_orderId c \<Longrightarrow> ended SAGA_FAILED running s w \<Longrightarrow> settled c (saga_id running) s w"
  by (auto simp: ended_def settled_def)

lemma process_payment_outcome:
  assumes ps: "payment_frame ps" and id: "saga_orderId running = cx_orderId c"
  shows "triple (known (saga_id running)) (process_payment L (pg_orchestrator L' le sha ps) c running)
     (settled c (saga_id running))"
proof -
  note k = triple_known [where L = L]
  have frame: "upholds (on_db (commits L)) nowM" "\<And>amt. upholds (on_db (commits L)) (ps_charge ps (cx_orderId c) amt (cx_paymentToken c))"
    by (intro upholds_intros ticks_on_db preord_rtranclp ps)+
  show ?thesis
    unfolding process_payment_def pg_orchestrator_sel pg_saga_sel
    by (intro triple_bindM [OF k [OF upholds_beginStep]] triple_bindR triple_bindM [OF k [OF frame(2)]] triple_if
        triple_bindM [OF k [OF frame(1)]] triple_bindM [OF k [OF upholds_endStep]]
        triple_weaken [OF confirm_order_outcome _ ended_settled(1) [OF id]]
        triple_weaken [OF compensate_outcome [OF ps] _ ended_settled(2) [OF id]])
qed

lemma triple_create: "triple (\<lambda>_. True) (saga_create s) (\<lambda>_. known (saga_id s))"
  unfolding triple_def saga_create_def
  by (intro allI impI, rule wp_mono [OF wp_sql_Pool]) (auto simp: known_def dest!: insert_saga_Inr)

text \<open>A run never takes up an earlier saga: the one it answers has the identifier drawn first.\<close>

lemma run_saga_settles:
  assumes ps: "payment_frame ps"
  shows "wp (run_saga L (pg_orchestrator L' le sha ps) c) (\<lambda>r w'. \<forall>s. r = Ok s \<longrightarrow> settled c (e_uuid (w_env w) (w_tick w)) s w') w"
proof -
  note k = triple_known [where L = L]
  have frame: "upholds (on_db (commits L)) nowM"
    "upholds (on_db (commits L)) (reserveInventory le pg_inventory_repo (pg_lock_manager sha) (cx_orderId c) (cx_items c))"
    by (intro upholds_intros ticks_on_db preord_rtranclp)+
  have rest: "triple (known sid) (compensate L (pg_orchestrator L' le sha ps) (saga_id running) c running) (settled c sid)"
    "triple (known sid) (process_payment L (pg_orchestrator L' le sha ps) c running) (settled c sid)"
    if "startSaga (createSagaInstance sid (cx_orderId c) t) = Inr running" for sid t running
  proof -
    have r: "saga_id running = sid" "saga_orderId running = cx_orderId c"
      using that by (auto simp: startSaga_def createSagaInstance_def split: if_splits)
    show "triple (known sid) (compensate L (pg_orchestrator L' le sha ps) (saga_id running) c running) (settled c sid)"
      by (rule triple_weaken [OF compensate_outcome [OF ps]]) (auto simp: r ended_def settled_def)
    show "triple (known sid) (process_payment L (pg_orchestrator L' le sha ps) c running) (settled c sid)"
      by (rule triple_weaken [OF process_payment_outcome [OF ps r(2)]]) (auto simp: r settled_def)
  qed
  have any: "triple (\<lambda>_. True) m (\<lambda>_ _. True)" for m :: "'c io"
    by (simp add: triple_def wp_def)
  have create: "triple (\<lambda>_. True) (saga_create (createSagaInstance sid oid t)) (\<lambda>_. known sid)" for sid oid t
    by (rule triple_weaken [OF triple_create]) (simp_all add: createSagaInstance_def)
  show ?thesis
    unfolding run_saga_def Let_def pg_orchestrator_sel pg_saga_sel
    by (subst wp_bindM, simp only: wp_uuidM res.case, rule tripleD [OF _ TrueI],
        intro triple_bindM [OF any] triple_thenM [OF create] triple_bindR triple_thenM [OF k [OF upholds_saga_repo(2)]]
        triple_bindM [OF k [OF upholds_beginStep]] triple_bindM [OF k [OF frame(2)]] triple_if
        triple_bindM [OF k [OF frame(1)]] triple_bindM [OF k [OF upholds_endStep]] rest)
qed

lemma run_saga_outcome:
  assumes "payment_frame ps"
  shows "triple (\<lambda>_. True) (run_saga L (pg_orchestrator L' le sha ps) c) (\<lambda>s. settled c (saga_id s) s)"
  unfolding triple_def by (intro allI impI, rule wp_mono [OF run_saga_settles [OF assms]]) (auto simp: settled_def)


lemma stripe_payment_frame:
  assumes "resilience_laws rp"
  shows "payment_frame (gateway_payment_service rp (stripe_gateway L cfg))"
  unfolding payment_frame_def gateway_payment_service_def stripe_gateway_def
  by (auto intro!: upholds_service_charge upholds_service_refund assms upholds_intros)


section \<open>The property\<close>



end
