(* ===== verification/Saga_Liveness.thy ===== *)
theory Saga_Liveness
  imports Saga_Outcome
begin

text \<open>
  What a run of the saga orchestrator achieves where nothing fails: triples of total correctness, the
  worlds without failures, and one rule per operation of \<open>src/src/domain/services/saga-orchestrator.ts\<close>
  and of the services it calls, up to the completion of an order that is in stock and paid for.
\<close>


section \<open>Worlds without failures\<close>

text \<open>The identifiers of the rows a saga writes.\<close>

definition ids :: "db \<Rightarrow> string set" where
  "ids d = saga_id ` set (db_sagas d) \<union> step_id ` set (db_steps d) \<union> ev_id ` set (db_outbox d)"

definition calm_env :: "env \<Rightarrow> bool" where
  "calm_env e \<longleftrightarrow> (\<forall>n. e_fault e n = Fine) \<and> inj (e_uuid e)"

text \<open>
  Nothing fails in the environment \<open>e\<close>, the identifiers it will hand out are new, the order and the saga
  \<open>sid\<close> exist, and the stock and the locks satisfy \<open>R\<close>.
\<close>

definition calm :: "env \<Rightarrow> string \<Rightarrow> string option \<Rightarrow> ((string \<Rightarrow> inventory_row option) \<Rightarrow> (int \<Rightarrow> (nat \<times> nat) option) \<Rightarrow> bool) \<Rightarrow> world \<Rightarrow> bool" where
  "calm e oid sid R w \<longleftrightarrow> calm_env e \<and> w_env w = e \<and> (\<forall>n \<ge> w_tick w. e_uuid e n \<notin> ids (w_db w))
     \<and> oid \<in> or_id ` set (db_orders (w_db w))
     \<and> (\<forall>s. sid = Some s \<longrightarrow> s \<in> saga_id ` set (db_sagas (w_db w))) \<and> R (db_inventory (w_db w)) (w_locks w)"

lemma calm_quiet: "calm e oid sid R w \<Longrightarrow> quiet w"
  by (simp add: calm_def calm_env_def quiet_def)

text \<open>An identifier drawn and not yet used.\<close>

definition spare :: "env \<Rightarrow> string \<Rightarrow> world \<Rightarrow> bool" where
  "spare e i w \<longleftrightarrow> i \<notin> ids (w_db w) \<and> (\<forall>n \<ge> w_tick w. e_uuid e n \<noteq> i)"

lemma total_uuidM: "total (calm e oid sid R) uuidM (\<lambda>i w. calm e oid sid R w \<and> spare e i w)"
  unfolding total_def wp_uuidM by (auto simp: calm_def spare_def calm_env_def dest!: injD)

lemma total_nowM: "total (calm e oid sid R) nowM (\<lambda>_. calm e oid sid R)"
  "total (\<lambda>w. calm e oid sid R w \<and> spare e i w) nowM (\<lambda>_ w. calm e oid sid R w \<and> spare e i w)"
  unfolding total_def wp_nowM by (simp_all add: calm_def spare_def)

lemma total_metrics: "total (calm e oid sid R) (increment n l) (\<lambda>_. calm e oid sid R)"
  "total (calm e oid sid R) (recordHistogram n v l) (\<lambda>_. calm e oid sid R)"
  unfolding total_def wp_increment wp_recordHistogram by (simp_all add: calm_def)

lemma total_saga_create:
  assumes "saga_orderId s = oid" "length (saga_type s) \<le> 64" "int4 (saga_currentStep s)"
  shows "total (\<lambda>w. calm e oid None R w \<and> spare e (saga_id s) w) (saga_create s) (\<lambda>_. calm e oid (Some (saga_id s)) R)"
  unfolding saga_create_def
  by (rule total_sql, use calm_quiet in blast) (auto simp: calm_def insert_saga_def assms spare_def ids_def)

lemma total_saga_update:
  assumes "int4 (saga_currentStep s)"
  shows "total (calm e oid sid R) (saga_update s) (\<lambda>_. calm e oid sid R)"
  unfolding saga_update_def
  by (rule total_sql, rule calm_quiet, assumption) (simp add: calm_def set_saga_def assms ids_def image_update_all)

lemma total_endStep: "total (calm e oid sid R) (endStep pg_saga_repo st) (\<lambda>_. calm e oid sid R)"
  unfolding endStep_def pg_saga_sel saga_updateStep_def
  by (rule total_thenM [OF total_sql total_ret], rule calm_quiet, assumption)
    (simp_all add: calm_def set_step_def ids_def image_update_all)

lemma total_createStep:
  assumes "step_sagaId st = sid" "length (step_name st) \<le> 64" "int4 (step_order st)"
  shows "total (\<lambda>w. calm e oid (Some sid) R w \<and> spare e (step_id st) w) (saga_createStep st) (\<lambda>_. calm e oid (Some sid) R)"
  unfolding saga_createStep_def
  by (rule total_sql, use calm_quiet in blast) (use assms in \<open>auto simp: calm_def insert_step_def spare_def ids_def\<close>)

lemma total_beginStep:
  assumes "length n \<le> 64" "int4 k"
  shows "total (calm e oid (Some sid) R) (beginStep pg_saga_repo sid n k j) (\<lambda>_. calm e oid (Some sid) R)"
proof -
  have "total (\<lambda>w. calm e oid (Some sid) R w \<and> spare e stid w) (saga_createStep (createStep stid sid n k j t)) (\<lambda>_. calm e oid (Some sid) R)" for stid t
    using total_createStep [of "createStep stid sid n k j t" sid] assms by (simp add: createStep_def)
  then show ?thesis
    unfolding beginStep_def pg_saga_sel Let_def
    by (intro total_bindM [OF total_uuidM] total_bindM [OF total_nowM(2)] total_thenM total_ret)
qed


section \<open>Reservation\<close>

definition item_key :: "(string \<Rightarrow> 8 word list) \<Rightarrow> reservation \<Rightarrow> int" where
  "item_key sha i = toInt64 sha (''inventory:'' @ rv_sku i)"

text \<open>The row of the item holds enough, and its columns do not overflow.\<close>

definition in_stock :: "reservation \<Rightarrow> (string \<Rightarrow> inventory_row option) \<Rightarrow> bool" where
  "in_stock i st \<longleftrightarrow> (\<exists>r. st (rv_sku i) = Some r \<and> 0 \<le> rv_quantity i \<and> rv_quantity i \<le> inv_available r
     \<and> 0 \<le> inv_reserved r \<and> inv_available r + inv_reserved r < 2 ^ 31 \<and> - (2 ^ 31) \<le> inv_version r \<and> inv_version r + 1 < 2 ^ 31)"

definition reservable :: "(string \<Rightarrow> 8 word list) \<Rightarrow> reservation list \<Rightarrow> (string \<Rightarrow> inventory_row option) \<Rightarrow> (int \<Rightarrow> (nat \<times> nat) option) \<Rightarrow> bool" where
  "reservable sha items st locks \<longleftrightarrow> (\<forall>i \<in> set items. in_stock i st \<and> locks (item_key sha i) = None)"

lemma acquire_free:
  assumes "e_fault (w_env w) (w_tick w) = Fine" and "w_locks w (toInt64 sha res) = None"
  shows "\<exists>h l hs. advisory_acquire sha res ttl w = (Ok (Some (release_handle h)),
     w\<lparr>w_tick := Suc (w_tick w), w_locks := (w_locks w)(toInt64 sha res \<mapsto> l), w_handles := hs\<rparr>)"
  using assms
  by (auto simp: advisory_acquire_def Let_def sessionM_def ioM_def try_advisory_lock_def new_handle_def bindM_def ret_def tick_def)

lemma total_acquire:
  assumes "item_key sha i \<notin> item_key sha ` set items"
  shows "total (calm e oid sid (reservable sha (i # items))) (advisory_acquire sha (''inventory:'' @ rv_sku i) ttl)
    (\<lambda>x w. \<exists>h. x = Some (release_handle h) \<and> calm e oid sid (\<lambda>st locks. in_stock i st \<and> reservable sha items st locks) w)"
  unfolding total_def
proof (intro allI impI)
  fix w assume w: "calm e oid sid (reservable sha (i # items)) w"
  then have f: "e_fault (w_env w) (w_tick w) = Fine" "w_locks w (item_key sha i) = None"
    by (simp_all add: calm_def calm_env_def reservable_def)
  obtain h l hs where run: "advisory_acquire sha (''inventory:'' @ rv_sku i) ttl w = (Ok (Some (release_handle h)),
     w\<lparr>w_tick := Suc (w_tick w), w_locks := (w_locks w)(item_key sha i \<mapsto> l), w_handles := hs\<rparr>)"
    using acquire_free f unfolding item_key_def by metis
  have ne: "\<forall>j \<in> set items. item_key sha j \<noteq> item_key sha i" using assms by (metis imageI)
  with w have "calm e oid sid (\<lambda>st locks. in_stock i st \<and> reservable sha items st locks)
      (w\<lparr>w_tick := Suc (w_tick w), w_locks := (w_locks w)(item_key sha i \<mapsto> l), w_handles := hs\<rparr>)"
    by (simp add: calm_def reservable_def)
  with run show "wp (advisory_acquire sha (''inventory:'' @ rv_sku i) ttl) (\<lambda>r w'. \<exists>x. r = Ok x \<and> (\<exists>h. x = Some (release_handle h)
      \<and> calm e oid sid (\<lambda>st locks. in_stock i st \<and> reservable sha items st locks) w')) w"
    by (auto simp: wp_def)
qed

lemma total_reserve_item:
  assumes "rv_sku i \<notin> rv_sku ` set items"
  shows "total (calm e oid sid (\<lambda>st locks. in_stock i st \<and> reservable sha items st locks)) (reserve_item pg_inventory_repo i)
    (\<lambda>b w. b \<and> calm e oid sid (reservable sha items) w)"
  unfolding total_def
proof (intro allI impI)
  let ?I = "calm e oid sid (\<lambda>st locks. in_stock i st \<and> reservable sha items st locks)"
  fix w assume w: "?I w"
  then obtain r where r: "db_inventory (w_db w) (rv_sku i) = Some r" and q: "0 \<le> rv_quantity i" "rv_quantity i \<le> inv_available r"
    "0 \<le> inv_reserved r" "inv_available r + inv_reserved r < 2 ^ 31" "- (2 ^ 31) \<le> inv_version r" "inv_version r + 1 < 2 ^ 31"
    by (auto simp: calm_def in_stock_def)
  let ?d = "w_db w" let ?r = "reserve_row (rv_quantity i) r"
  let ?d' = "?d\<lparr>db_inventory := (db_inventory ?d)(rv_sku i \<mapsto> ?r)\<rparr>"
  have st: "reserve_stmt (rv_sku i) (rv_quantity i) ?d = Inr (True, ?d')"
    using r q by (simp add: reserve_stmt_def update_inventory_def checked_inventory_def int4_def reserve_row_def)
  have qt: "quiet w" using calm_quiet [OF w] .
  have "reservable sha items ((db_inventory ?d)(rv_sku i \<mapsto> ?r)) (w_locks w)"
    using w assms by (auto simp: calm_def reservable_def in_stock_def image_iff)
  then have post: "calm e oid sid (reservable sha items) (w\<lparr>w_db := ?d', w_tick := Suc (Suc (w_tick w)), w_counters := c\<rparr>)" for c
    using w by (simp add: calm_def ids_def)
  have run: "sqlM Pool st w = (Ok a, w\<lparr>w_db := d, w_tick := Suc (w_tick w)\<rparr>)"
    if "quiet w" "st (w_db w) = Inr (a, d)" for w d and a :: 'b and st
    using that by (simp add: sqlM_def ioM_def quiet_def put_view_tick)
  have "reserve_item pg_inventory_repo i w
      = (Ok True, w\<lparr>w_db := ?d', w_tick := Suc (Suc (w_tick w)),
                    w_counters := bump (labeledKey ''inventory.reserved'' [(''sku'', rv_sku i)]) (w_counters w)\<rparr>)"
    using qt r q st
    by (simp add: reserve_item_def inventory_findBySku_def inventory_reserve_def bindM_def ret_def thenM_def increment_def modifyM_def
        inventory_toDomain_def run [of _ "select_inventory (rv_sku i)" "Some r" "w_db w"] select_inventory_def
        run [of _ "reserve_stmt (rv_sku i) (rv_quantity i)" True])
  with post show "wp (reserve_item pg_inventory_repo i) (\<lambda>x w'. \<exists>b. x = Ok b \<and> b \<and> calm e oid sid (reservable sha items) w') w"
    by (auto simp: wp_def)
qed


text \<open>Giving a lock back never throws.\<close>

abbreviation "any_stock \<equiv> \<lambda>_ _. True"

lemma total_unlock: "total (calm e oid sid any_stock) (lock_release k) (\<lambda>_. calm e oid sid any_stock)"
proof -
  have "total (calm e oid sid any_stock) (sessionM (\<lambda>s. advisory_unlock s k)) (\<lambda>_. calm e oid sid any_stock)"
    unfolding total_def sessionM_def wp_ioM
    by (auto simp: calm_def calm_env_def wp_def advisory_unlock_def split: option.split)
  then show ?thesis
    unfolding lock_release_def by (intro total_catchM total_thenM [OF _ total_ret])
qed

lemma total_release_handle: "total (calm e oid sid any_stock) (release_handle h) (\<lambda>_. calm e oid sid any_stock)"
proof -
  have set: "total (calm e oid sid any_stock) (set_handle h f) (\<lambda>_. calm e oid sid any_stock)" for f
    by (simp add: total_def set_handle_def wp_modifyM calm_def)
  have gets: "total (calm e oid sid any_stock) (getsM g) (\<lambda>_. calm e oid sid any_stock)" for g :: "world \<Rightarrow> lock_handle"
    by (simp add: total_def wp_getsM)
  show ?thesis
    unfolding release_handle_def
    by (intro total_bindM [OF gets]) (auto intro: total_ret total_thenM [OF set] total_unlock)
qed

lemma total_all_settled:
  assumes "\<forall>r \<in> set rs. total I r (\<lambda>_. I)"
  shows "total I (all_settled rs) (\<lambda>_. I)"
  unfolding all_settled_def
  by (rule total_forM) (use assms in \<open>blast intro: total_catchM total_thenM total_ret\<close>)

lemma total_reserve_loop:
  assumes "distinct (map (item_key sha) items)"
  shows "total (calm e oid sid (reservable sha items)) (reserve_loop pg_inventory_repo (pg_lock_manager sha) items rs)
    (\<lambda>x w. (\<exists>hs. x = (Inr True, rs @ map release_handle hs)) \<and> calm e oid sid any_stock w)"
  using assms
proof (induction items arbitrary: rs)
  case Nil
  show ?case by (auto intro!: total_ret simp: calm_def)
next
  case (Cons i items)
  then have key: "item_key sha i \<notin> item_key sha ` set items" by simp
  then have sku: "rv_sku i \<notin> rv_sku ` set items" by (auto simp: item_key_def)
  let ?Q = "\<lambda>x w. (\<exists>hs. x = (Inr True, rs @ map release_handle hs)) \<and> calm e oid sid any_stock w"
  have rest: "total (calm e oid sid (reservable sha items))
      (reserve_loop pg_inventory_repo (pg_lock_manager sha) items (rs @ [release_handle h])) ?Q" for h
    by (rule total_weaken [OF Cons.IH])
      (use Cons.prems in simp, assumption, metis append.assoc append_Cons append_Nil list.simps(9))
  show ?case
    unfolding reserve_loop.simps pg_repo_sel
    by (rule total_bindM [OF total_tryM [OF total_acquire [OF key]]], clarsimp simp: total_ex total_pure,
        rule total_bindM [OF total_tryM [OF total_reserve_item [OF sku]]], clarsimp simp: total_ex total_pure, rule rest)
qed

lemma total_reserveInventory:
  assumes "distinct (map (item_key sha) items)"
  shows "total (calm e oid sid (reservable sha items)) (reserveInventory le pg_inventory_repo (pg_lock_manager sha) oid' items)
    (\<lambda>b w. b \<and> calm e oid sid any_stock w)"
proof -
  let ?sorted = "sort_by (\<lambda>a b. le (rv_sku a) (rv_sku b)) items"
  have "distinct (map (item_key sha) ?sorted)"
    using assms by (metis mset_map mset_eq_imp_distinct_iff mset_sort_by)
  note loop = total_reserve_loop [OF this]
  have same: "reservable sha ?sorted = reservable sha items"
    by (simp add: fun_eq_iff reservable_def)
  have finish: "total (calm e oid sid any_stock) (thenM (all_settled (map release_handle hs)) (liftR (Inr True)))
      (\<lambda>b w. b \<and> calm e oid sid any_stock w)" for hs
    by (rule total_thenM [OF total_all_settled]) (use total_release_handle in \<open>auto simp: total_def wp_liftR\<close>)
  have metric: "total (calm e oid sid any_stock) (bindM nowM (\<lambda>t. recordHistogram n (t - t0) l)) (\<lambda>_. calm e oid sid any_stock)" for n t0 l
    by (intro total_bindM [OF total_nowM(1)] total_metrics)
  show ?thesis
    unfolding reserveInventory_def same [symmetric]
    by (rule total_bindM [OF total_nowM(1)], rule total_bindM [OF loop],
        clarsimp simp: total_ex total_pure, rule total_bindM [OF metric], rule finish)
qed


section \<open>The transaction\<close>

text \<open>Inside the transaction: its view of the data is as sound as the data it started from.\<close>

definition calm_tx :: "env \<Rightarrow> string \<Rightarrow> string option \<Rightarrow> world \<Rightarrow> bool" where
  "calm_tx e oid sid w \<longleftrightarrow> (\<exists>d. w_tx w = Some d \<and> calm e oid sid any_stock (w\<lparr>w_db := d\<rparr>))"

lemma calm_tx_fine: "calm_tx e oid sid w \<Longrightarrow> w_env w = e" "calm_tx e oid sid w \<Longrightarrow> e_fault e n = Fine"
  by (auto simp: calm_tx_def calm_def calm_env_def)

lemma total_sql_Tx:
  assumes "\<And>w d. w_tx w = Some d \<Longrightarrow> I w \<Longrightarrow> calm e oid sid any_stock (w\<lparr>w_db := d\<rparr>) \<Longrightarrow>
      \<exists>a d'. st d = Inr (a, d') \<and> calm e oid sid any_stock (w\<lparr>w_db := d', w_tick := Suc (w_tick w)\<rparr>)"
  shows "total (\<lambda>w. calm_tx e oid sid w \<and> I w) (sqlM Tx st) (\<lambda>_. calm_tx e oid sid)"
  unfolding total_def
proof (intro allI impI)
  fix w assume w: "calm_tx e oid sid w \<and> I w"
  then obtain d where d: "w_tx w = Some d" "calm e oid sid any_stock (w\<lparr>w_db := d\<rparr>)" by (auto simp: calm_tx_def)
  with assms w obtain a d' where st: "st d = Inr (a, d')" "calm e oid sid any_stock (w\<lparr>w_db := d', w_tick := Suc (w_tick w)\<rparr>)" by blast
  have "e_fault (w_env w) (w_tick w) = Fine" using w calm_tx_fine by metis
  moreover have "calm_tx e oid sid (put_view Tx d' (tick w))"
    using st(2) by (simp add: calm_tx_def put_view_def calm_def)
  ultimately show "wp (sqlM Tx st) (\<lambda>r w'. \<exists>a. r = Ok a \<and> calm_tx e oid sid w') w"
    using d(1) st(1) by (simp add: sqlM_def ioM_def wp_def view_def)
qed

lemma total_tx_reads:
  "total (calm_tx e oid sid) nowM (\<lambda>_. calm_tx e oid sid)"
  "total (calm_tx e oid sid) uuidM (\<lambda>i w. calm_tx e oid sid w \<and> (\<forall>d. w_tx w = Some d \<longrightarrow> spare e i (w\<lparr>w_db := d\<rparr>)))"
  "total (\<lambda>w. calm_tx e oid sid w \<and> (\<forall>d. w_tx w = Some d \<longrightarrow> spare e i (w\<lparr>w_db := d\<rparr>))) nowM
     (\<lambda>_ w. calm_tx e oid sid w \<and> (\<forall>d. w_tx w = Some d \<longrightarrow> spare e i (w\<lparr>w_db := d\<rparr>)))"
proof -
  have "e_uuid e n \<noteq> e_uuid e m" if "calm_env e" "m < n" for m n
    using that by (auto simp: calm_env_def dest: injD)
  then show "total (calm_tx e oid sid) uuidM (\<lambda>i w. calm_tx e oid sid w \<and> (\<forall>d. w_tx w = Some d \<longrightarrow> spare e i (w\<lparr>w_db := d\<rparr>)))"
    unfolding total_def wp_uuidM by (auto simp: calm_tx_def calm_def spare_def)
qed (auto simp: total_def wp_nowM calm_tx_def calm_def spare_def)

lemma total_status_tx:
  assumes "length (ne_aggregateType ne) \<le> 64" "length (ne_aggregateId ne) \<le> 64" "length (ne_eventType ne) \<le> 64"
  shows "total (calm_tx e oid sid) (status_tx (pg_orchestrator L le sha ps) oid' st ne Tx) (\<lambda>_. calm_tx e oid sid)"
proof -
  have set: "total (calm_tx e oid sid) (sqlM Tx (set_order_status oid' st t)) (\<lambda>_. calm_tx e oid sid)" for t
    by (rule total_weaken [OF total_sql_Tx [where I = "\<lambda>_. True"]])
      (auto simp: set_order_status_def calm_def ids_def image_update_all)
  have event: "total (\<lambda>w. calm_tx e oid sid w \<and> (\<forall>d. w_tx w = Some d \<longrightarrow> spare e i (w\<lparr>w_db := d\<rparr>)))
      (sqlM Tx (insert_event (event_row_of ne i t))) (\<lambda>_. calm_tx e oid sid)" for i t
    by (rule total_sql_Tx) (use assms in \<open>auto simp: insert_event_def event_row_of_def calm_def ids_def spare_def\<close>)
  show ?thesis
    unfolding status_tx_def pg_orchestrator_sel
    by (simp add: pg_order_repo_def pg_outbox_repo_def order_updateStatus_def outbox_createWithSql_def)
      (intro total_thenM [OF total_bindM [OF total_tx_reads(1) set]] total_bindM [OF total_bindM [OF total_tx_reads(2)]]
        total_bindM [OF total_tx_reads(3)] total_thenM [OF event] total_ret)
qed

lemma total_status_begin:
  assumes "length (ne_aggregateType ne) \<le> 64" "length (ne_aggregateId ne) \<le> 64" "length (ne_eventType ne) \<le> 64"
  shows "total (calm e oid sid any_stock) (tm_begin pg_tx_manager (status_tx (pg_orchestrator L le sha ps) oid' st ne))
    (\<lambda>_. calm e oid sid any_stock)"
proof -
  let ?f = "status_tx (pg_orchestrator L le sha ps) oid' st ne"
  have start: "total (calm e oid sid any_stock) (ioM (modifyM (\<lambda>w. w\<lparr>w_tx := Some (w_db w)\<rparr>))) (\<lambda>_. calm_tx e oid sid)"
    unfolding total_def wp_ioM by (auto simp: calm_def calm_tx_def calm_env_def wp_modifyM tick_def)
  have commit: "total (calm_tx e oid sid) (ioM (modifyM (\<lambda>w. w\<lparr>w_db := view Tx w\<rparr>))) (\<lambda>_. calm e oid sid any_stock)"
    unfolding total_def wp_ioM by (auto simp: calm_def calm_tx_def calm_env_def wp_modifyM tick_def view_def)
  have "total (calm e oid sid any_stock) (bindM (ioM (modifyM (\<lambda>w. w\<lparr>w_tx := Some (w_db w)\<rparr>)))
            (\<lambda>_. bindM (?f Tx) (\<lambda>a. thenM (ioM (modifyM (\<lambda>w. w\<lparr>w_db := view Tx w\<rparr>))) (ret a)))) (\<lambda>_. calm e oid sid any_stock)"
    by (intro total_bindM [OF start] total_bindM [OF total_status_tx [OF assms]] total_thenM [OF commit] total_ret)
  then show ?thesis
    unfolding total_def pg_tx_manager_def tx_manager.simps wp_pg_begin
    by (auto simp: calm_def elim!: wp_mono)
qed



section \<open>The saga\<close>

text \<open>A payment service that answers every charge of the environment with a success.\<close>

definition approves :: "env \<Rightarrow> payment_service \<Rightarrow> bool" where
  "approves e ps \<longleftrightarrow> (\<forall>oid amt tok w. w_env w = e \<longrightarrow> wp (ps_charge ps oid amt tok)
     (\<lambda>r w'. (\<exists>p. r = Ok p \<and> pr_success p) \<and> w_db w' = w_db w \<and> w_env w' = e \<and> w_tick w \<le> w_tick w') w)"

lemma total_charge:
  assumes "approves e ps"
  shows "total (calm e oid sid any_stock) (ps_charge ps oid' amt tok) (\<lambda>p w. pr_success p \<and> calm e oid sid any_stock w)"
  unfolding total_def
proof (intro allI impI)
  fix w assume w: "calm e oid sid any_stock w"
  then have "wp (ps_charge ps oid' amt tok)
     (\<lambda>r w'. (\<exists>p. r = Ok p \<and> pr_success p) \<and> w_db w' = w_db w \<and> w_env w' = e \<and> w_tick w \<le> w_tick w') w"
    using assms by (simp add: approves_def calm_def)
  then show "wp (ps_charge ps oid' amt tok) (\<lambda>r w'. \<exists>p. r = Ok p \<and> pr_success p \<and> calm e oid sid any_stock w') w"
    by (rule wp_mono) (use w in \<open>auto simp: calm_def\<close>)
qed

lemma int4_small [simp]: "int4 0" "int4 1" "int4 2" "int4 3"
  by (simp_all add: int4_def)

lemma total_confirm_order:
  assumes "saga_status running = SAGA_RUNNING" "int4 (saga_currentStep running)" "length (cx_orderId c) \<le> 64"
  shows "total (calm e oid (Some (saga_id running)) any_stock) (confirm_order (pg_orchestrator L le sha ps) c running pr)
    (\<lambda>s w. saga_status s = SAGA_COMPLETED)"
proof -
  let ?I = "calm e oid (Some (saga_id running)) any_stock"
  have complete: "\<exists>s. completeSaga running t = Inr s \<and> saga_status s = SAGA_COMPLETED \<and> int4 (saga_currentStep s)" for t
    using assms by (simp add: completeSaga_def)
  have finish: "total ?I (bindM (liftR (completeSaga running t)) (\<lambda>s. thenM (saga_update s) (thenM (increment m l) (ret s))))
      (\<lambda>s w. saga_status s = SAGA_COMPLETED)" for t m l
    using complete [of t] by (auto intro!: total_bindR total_thenM [OF total_saga_update] total_thenM [OF total_metrics(1)] total_ret)
  have step: "total ?I (beginStep pg_saga_repo (saga_id running) ''CONFIRM_ORDER'' 2 j) (\<lambda>_. ?I)"
    "total ?I (beginStep pg_saga_repo (saga_id running) ''EMIT_EVENTS'' 3 j) (\<lambda>_. ?I)" for j
    by (rule total_beginStep; simp)+
  have tx: "total ?I (tm_begin pg_tx_manager (status_tx (pg_orchestrator L le sha ps) (cx_orderId c) PAID (paid_event c tid))) (\<lambda>_. ?I)" for tid
    by (rule total_status_begin) (simp_all add: paid_event_def status_event_def assms)
  show ?thesis
    unfolding confirm_order_def pg_orchestrator_sel pg_saga_sel
    by (intro total_bindM [OF step(1)] total_bindM [OF step(2)] total_thenM [OF tx]
        total_bindM [OF total_nowM(1)] total_bindM [OF total_endStep] finish)
qed

lemma total_process_payment:
  assumes "approves e ps" and "new_money L (aj_amount (cx_totalAmount c)) (aj_currency (cx_totalAmount c)) = Inr amt"
    and run: "saga_status running = SAGA_RUNNING" "int4 (saga_currentStep running)" "length (cx_orderId c) \<le> 64"
  shows "total (calm e oid (Some (saga_id running)) any_stock) (process_payment L (pg_orchestrator L' le sha ps) c running)
    (\<lambda>s w. saga_status s = SAGA_COMPLETED)"
proof -
  let ?I = "calm e oid (Some (saga_id running)) any_stock"
  have step: "total ?I (beginStep pg_saga_repo (saga_id running) ''PROCESS_PAYMENT'' 1 j) (\<lambda>_. ?I)" for j
    by (rule total_beginStep; simp)
  show ?thesis
    unfolding process_payment_def pg_orchestrator_sel pg_saga_sel
    by (intro total_bindM [OF step] total_bindR [OF assms(2)] total_bindM [OF total_charge [OF assms(1)]])
      (auto simp: total_pure intro!: total_bindM [OF total_nowM(1)] total_bindM [OF total_endStep] total_confirm_order run)
qed

lemma total_run_saga:
  assumes ps: "approves e ps" and amt: "new_money L (aj_amount (cx_totalAmount c)) (aj_currency (cx_totalAmount c)) = Inr amt"
    and len: "length (cx_orderId c) \<le> 64" and keys: "distinct (map (item_key sha) (cx_items c))"
  shows "total (calm e (cx_orderId c) None (reservable sha (cx_items c))) (run_saga L (pg_orchestrator L' le sha ps) c)
    (\<lambda>s w. saga_status s = SAGA_COMPLETED)"
proof -
  let ?R = "reservable sha (cx_items c)" and ?oid = "cx_orderId c"
  have create: "total (\<lambda>w. calm e ?oid None ?R w \<and> spare e sid w) (saga_create (createSagaInstance sid ?oid t))
      (\<lambda>_. calm e ?oid (Some sid) ?R)" for sid t
    using total_saga_create [of "createSagaInstance sid ?oid t" ?oid] by (simp add: createSagaInstance_def)
  let ?running = "\<lambda>sid t. (createSagaInstance sid ?oid t)\<lparr>saga_status := SAGA_RUNNING\<rparr>"
  have start: "startSaga (createSagaInstance sid ?oid t) = Inr (?running sid t)" for sid t
    by (simp add: startSaga_def createSagaInstance_def)
  have update: "total (calm e ?oid (Some sid) ?R) (saga_update (?running sid t)) (\<lambda>_. calm e ?oid (Some sid) ?R)" for sid t
    by (rule total_saga_update) (simp add: createSagaInstance_def)
  have step: "total (calm e ?oid (Some sid) ?R) (beginStep pg_saga_repo (saga_id (?running sid t)) ''RESERVE_INVENTORY'' 0 j)
      (\<lambda>_. calm e ?oid (Some sid) ?R)" for sid t j
    using total_beginStep [where n = "''RESERVE_INVENTORY''" and sid = sid] by (simp add: createSagaInstance_def)
  have pay: "total (calm e ?oid (Some sid) any_stock) (process_payment L (pg_orchestrator L' le sha ps) c (?running sid t))
      (\<lambda>s w. saga_status s = SAGA_COMPLETED)" for sid t
    using total_process_payment [OF ps amt, of "?running sid t" ?oid L' le sha] len by (simp add: createSagaInstance_def)
  show ?thesis
    unfolding run_saga_def Let_def pg_orchestrator_sel pg_saga_sel
    by (intro total_bindM [OF total_uuidM] total_bindM [OF total_nowM(2)] total_thenM [OF create] total_bindR [OF start]
          total_thenM [OF update] total_bindM [OF step] total_bindM [OF total_reserveInventory [OF keys]])
      (auto simp: total_pure intro!: total_bindM [OF total_nowM(1)] total_bindM [OF total_endStep] pay)
qed


text \<open>The Stripe adapter without a key, as it is run in development, approves every charge.\<close>

lemma stripe_simulation_approves:
  assumes "calm_env e" and "paymentGatewayApiKey cfg = []"
  shows "approves e (gateway_payment_service (\<lambda>m. m) (stripe_gateway L cfg))"
  using assms
  by (simp add: approves_def gateway_payment_service_def stripe_gateway_def service_charge_def stripe_charge_def wp_bindM wp_nowM
      wp_catchM wp_uuidM wp_ret wp_thenM wp_increment wp_recordHistogram succeeded_def)


section \<open>The property\<close>

text \<open>
  C4. An order that can be fulfilled is fulfilled: when nothing fails, the order exists, every item is in
  stock with no overflow of its row, the locks of the items are free and different, the amount parses and
  the payment is approved, the saga fulfils and is completed, the order is paid and that is announced.
  The saga is a new one, and nothing is asked of the status of the order or of earlier sagas: a job that
  runs twice completes twice.
\<close>

theorem saga_completes:
  assumes "calm_env (w_env w)" and "approves (w_env w) ps" and "payment_frame ps"
    and "\<forall>n \<ge> w_tick w. e_uuid (w_env w) n \<notin> ids (w_db w)"
    and "cx_orderId c \<in> or_id ` set (db_orders (w_db w))" and "length (cx_orderId c) \<le> 64"
    and "\<forall>i \<in> set (cx_items c). in_stock i (db_inventory (w_db w)) \<and> w_locks w (item_key sha i) = None"
    and "distinct (map (item_key sha) (cx_items c))"
    and "new_money L (aj_amount (cx_totalAmount c)) (aj_currency (cx_totalAmount c)) = Inr amt"
  shows "wp (run_saga L (pg_orchestrator L' le sha ps) c) (\<lambda>r w'. \<exists>s. r = Ok s \<and> saga_status s = SAGA_COMPLETED
     \<and> saga_id s \<notin> saga_id ` set (db_sagas (w_db w))
     \<and> (\<forall>ord \<in> set (db_orders (w_db w')). or_id ord = cx_orderId c \<longrightarrow> or_status ord = PAID)
     \<and> announced (w_db w') ''order.paid'' (cx_orderId c)) w"
proof -
  have "calm (w_env w) (cx_orderId c) None (reservable sha (cx_items c)) w"
    using assms by (simp add: calm_def reservable_def)
  from totalD [OF total_run_saga [OF assms(2,9,6,8)] this]
  have "wp (run_saga L (pg_orchestrator L' le sha ps) c) (\<lambda>r w'. \<exists>s. r = Ok s \<and> saga_status s = SAGA_COMPLETED) w" .
  moreover have "wp (run_saga L (pg_orchestrator L' le sha ps) c) (\<lambda>r w'. \<forall>s. r = Ok s \<longrightarrow> settled c (e_uuid (w_env w) (w_tick w)) s w') w"
    by (rule run_saga_settles [OF assms(3)])
  moreover have "e_uuid (w_env w) (w_tick w) \<notin> saga_id ` set (db_sagas (w_db w))"
    using assms(4) by (simp add: ids_def)
  ultimately show ?thesis
    by (auto simp: wp_def settled_def paid_def)
qed

theorem saga_completes_witness:
  "wp (run_saga cents_lib (pg_orchestrator cents_lib (\<le>) (\<lambda>_. replicate 8 0)
          (gateway_payment_service (\<lambda>m. m) (stripe_gateway cents_lib (example_config\<lparr>paymentGatewayApiKey := []\<rparr>))))
        \<lparr>cx_orderId = ''o1'', cx_customerId = ''c1'', cx_items = [\<lparr>rv_sku = ''A'', rv_quantity = 2\<rparr>],
         cx_totalAmount = \<lparr>aj_amount = ''0.01'', aj_currency = ''USD''\<rparr>, cx_paymentToken = ''tok''\<rparr>)
     (\<lambda>r w'. \<exists>s. r = Ok s \<and> saga_status s = SAGA_COMPLETED \<and> announced (w_db w') ''order.paid'' ''o1'')
     (world_of quiet_env (stocked ''A'' 5 (empty_db\<lparr>db_orders := [\<lparr>or_id = ''o1'', or_customer_id = ''c1'', or_status = PENDING,
        or_total_amount = ''0.01'', or_currency = ''USD'', or_idempotency_key = None, or_created_at = 0, or_updated_at = 0\<rparr>]\<rparr>)))"
proof -
  have "inj digits_of" by (rule injI) (metis number_of_digits)
  then have calm: "calm_env quiet_env" by (simp add: calm_env_def quiet_env_def)
  have frame: "payment_frame (gateway_payment_service (\<lambda>m. m) (stripe_gateway cents_lib cfg))" for cfg
    by (rule stripe_payment_frame) (simp add: resilience_laws_def)
  have amt: "new_money cents_lib ''0.01'' ''USD'' = Inr \<lparr>amount = ''0.01'', currency = ''USD''\<rparr>" by code_simp
  show ?thesis
    by (rule wp_mono [OF saga_completes [where amt = "\<lparr>amount = ''0.01'', currency = ''USD''\<rparr>"]])
      (auto simp: world_of_def calm amt stocked_def ids_def empty_db_def in_stock_def intro: frame stripe_simulation_approves)
qed

end
