(* ===== verification/Routes.thy ===== *)
theory Routes
  imports Config
begin

text \<open>
  The routing tables of \<open>src/src/api/server.ts\<close> and of the route modules it registers: which handler
  a method and a path reach on the public server and on the admin server.  The router of Fastify is a
  parameter, with what its documentation says of static and parametric paths as a law.
\<close>

datatype http_method = GET | POST | DELETE

text \<open>The handlers of the route modules.\<close>

datatype route =
    PostOrders | GetOrder | GetOrderSaga | GetHealth | GetHealthDeep | GetHealthReady
  | GetDlq | PostDlqRetry | DeleteDlq | GetSagas | GetSaga | PostSagaCompensate

type_synonym route_table = "(http_method \<times> string \<times> route) list"


section \<open>Registration\<close>

definition registerOrderRoutes :: route_table where
  "registerOrderRoutes =
     [(POST, ''/'', PostOrders), (GET, ''/:id'', GetOrder), (GET, ''/:id/saga'', GetOrderSaga)]"

definition registerHealthRoutes :: route_table where
  "registerHealthRoutes =
     [(GET, ''/health'', GetHealth), (GET, ''/health/deep'', GetHealthDeep), (GET, ''/health/ready'', GetHealthReady)]"

definition registerDlqRoutes :: route_table where
  "registerDlqRoutes =
     [(GET, ''/'', GetDlq), (POST, ''/retry/:jobId'', PostDlqRetry), (DELETE, ''/:jobId'', DeleteDlq)]"

definition registerSagaAdminRoutes :: route_table where
  "registerSagaAdminRoutes =
     [(GET, ''/'', GetSagas), (GET, ''/:id'', GetSaga), (POST, ''/:id/compensate'', PostSagaCompensate)]"

text \<open>\<open>register(f, { prefix })\<close>: the prefix stands before the path of every route of \<open>f\<close>.\<close>

definition with_prefix :: "string \<Rightarrow> route_table \<Rightarrow> route_table" where
  "with_prefix pre rs = map (\<lambda>(m, p, r). (m, pre @ p, r)) rs"

definition public_routes :: route_table where
  "public_routes = registerHealthRoutes @ with_prefix ''/api/v1'' (with_prefix ''/orders'' registerOrderRoutes)"

definition admin_routes :: route_table where
  "admin_routes = with_prefix ''/admin/v1'' (registerDlqRoutes @ with_prefix ''/sagas'' registerSagaAdminRoutes)"

text \<open>
  An instance as it is built: the header a request takes its identifier from, the document of the swagger
  plugin, the prefix under which its pages are served, and the routes.
\<close>

record fastify_app =
  fa_requestIdHeader :: "string option"
  fa_title :: string
  fa_description :: string
  fa_version :: string
  fa_servers :: "string list"
  fa_tags :: "(string \<times> string) list"
  fa_docs :: "string option"
  fa_routes :: route_table

definition docs_prefix :: "app_config \<Rightarrow> string option" where
  "docs_prefix cfg = (if nodeEnv cfg \<noteq> ''production'' then Some ''/docs'' else None)"

definition buildServer :: "app_config \<Rightarrow> fastify_app" where
  "buildServer cfg =
     \<lparr>fa_requestIdHeader = Some ''x-request-id'', fa_title = ''Orderly API'',
      fa_description = ''Event-driven order service '' @ [CHR 0xE2, CHR 0x80, CHR 0x94] @ '' public API'',
      fa_version = ''1.0.0'', fa_servers = [''http://localhost:'' @ int_string (port cfg)],
      fa_tags = [(''orders'', ''Order management''), (''health'', ''Health checks'')],
      fa_docs = docs_prefix cfg, fa_routes = public_routes\<rparr>"

definition buildAdminServer :: "app_config \<Rightarrow> fastify_app" where
  "buildAdminServer cfg =
     \<lparr>fa_requestIdHeader = None, fa_title = ''Orderly Admin API'', fa_description = ''Internal admin operations'',
      fa_version = ''1.0.0'', fa_servers = [], fa_tags = [], fa_docs = docs_prefix cfg, fa_routes = admin_routes\<rparr>"


section \<open>The router\<close>

fun split_on :: "char \<Rightarrow> string \<Rightarrow> string list" where
  "split_on c [] = [[]]"
| "split_on c (x # xs) = (if x = c then [] # split_on c xs
     else (case split_on c xs of [] \<Rightarrow> [[x]] | y # ys \<Rightarrow> (x # y) # ys))"

definition url_path :: "string \<Rightarrow> string" where
  "url_path url = takeWhile (\<lambda>c. c \<noteq> CHR ''?'' \<and> c \<noteq> CHR ''#'') url"

text \<open>A segment \<open>:k\<close> of a path takes any segment of the URL.\<close>

fun match_segments :: "string list \<Rightarrow> string list \<Rightarrow> (string \<times> string) list option" where
  "match_segments [] [] = Some []"
| "match_segments (p # ps) (s # ss) =
     (if p \<noteq> [] \<and> hd p = CHR '':'' then map_option (\<lambda>bs. (tl p, s) # bs) (match_segments ps ss)
      else if p = s then match_segments ps ss else None)"
| "match_segments _ _ = None"

text \<open>The path \<open>/\<close> under a prefix is the prefix with the slash and without it (\<open>prefixTrailingSlash\<close>).\<close>

definition path_patterns :: "string \<Rightarrow> string list" where
  "path_patterns p = (if p \<noteq> [] \<and> last p = CHR ''/'' then [p, butlast p] else [p])"

definition candidates :: "route_table \<Rightarrow> http_method \<Rightarrow> string \<Rightarrow> (route \<times> (string \<times> string) list) list" where
  "candidates rs m url = concat (map (\<lambda>(m', p, r). if m' \<noteq> m then [] else
     concat (map (\<lambda>q. case match_segments (split_on (CHR ''/'') q) (split_on (CHR ''/'') (url_path url)) of
        Some bs \<Rightarrow> [(r, bs)] | None \<Rightarrow> []) (path_patterns p))) rs)"

text \<open>
  A segment the router hands over as it stands: no separator, nothing to decode, and at most the
  hundred characters of \<open>maxParamLength\<close>.
\<close>

definition url_segment :: "string \<Rightarrow> bool" where
  "url_segment i \<longleftrightarrow> i \<noteq> [] \<and> length i \<le> 100
     \<and> (\<forall>c \<in> set i. c \<noteq> CHR ''/'' \<and> c \<noteq> CHR ''?'' \<and> c \<noteq> CHR ''#'' \<and> c \<noteq> CHR '';'' \<and> c \<noteq> CHR ''%'')"

text \<open>
  What the tables need of the router: it finds a route of the table whose path matches, and finds one
  when the segments that match parameters are of that kind.
\<close>

type_synonym router = "route_table \<Rightarrow> http_method \<Rightarrow> string \<Rightarrow> (route \<times> (string \<times> string) list) option"

definition router_laws :: "router \<Rightarrow> bool" where
  "router_laws find_route \<longleftrightarrow> (\<forall>rs m url.
     (\<forall>r bs. find_route rs m url = Some (r, bs) \<longrightarrow>
        (\<exists>cs. (r, cs) \<in> set (candidates rs m url) \<and> (list_all (url_segment \<circ> snd) cs \<longrightarrow> bs = cs)))
     \<and> (\<forall>(r, cs) \<in> set (candidates rs m url). list_all (url_segment \<circ> snd) cs \<longrightarrow> find_route rs m url \<noteq> None))"

lemma router_none: "router_laws find_route \<Longrightarrow> candidates rs m url = [] \<Longrightarrow> find_route rs m url = None"
  unfolding router_laws_def by (cases "find_route rs m url") force+

lemma router_one:
  assumes laws: "router_laws find_route" and one: "set (candidates rs m url) = {(r, cs)}"
    and plain: "list_all (url_segment \<circ> snd) cs"
  shows "find_route rs m url = Some (r, cs)"
proof -
  have "find_route rs m url \<noteq> None"
    using laws [unfolded router_laws_def] one plain by blast
  then obtain r' bs where found: "find_route rs m url = Some (r', bs)" by auto
  then have "r' = r \<and> bs = cs"
    using laws [unfolded router_laws_def] one plain by force
  with found show ?thesis by simp
qed

text \<open>A router that takes the first route that matches.\<close>

definition first_route :: router where
  "first_route rs m url = (case candidates rs m url of [] \<Rightarrow> None | x # xs \<Rightarrow> Some x)"

lemma first_route_laws: "router_laws first_route"
  by (force simp: router_laws_def first_route_def split: list.splits)

lemma split_on_free: "c \<notin> set s \<Longrightarrow> split_on c s = [s]"
  by (induction s) auto

lemma split_on_append: "c \<notin> set s \<Longrightarrow> split_on c (s @ c # t) = s # split_on c t"
  by (induction s) auto

lemma url_path_segment: "url_segment i \<Longrightarrow> url_path i = i"
  by (simp add: url_path_def url_segment_def takeWhile_eq_all_conv)

lemma url_path_append: "url_segment i \<Longrightarrow> url_path (i @ t) = i @ url_path t"
  by (simp add: url_path_def url_segment_def)

lemma url_path_Cons: "url_path (c # s) = (if c = CHR ''?'' \<or> c = CHR ''#'' then [] else c # url_path s)"
  "url_path [] = []"
  by (simp_all add: url_path_def)

lemma split_segment: "url_segment i \<Longrightarrow> split_on (CHR ''/'') i = [i]"
  "url_segment i \<Longrightarrow> split_on (CHR ''/'') (i @ CHR ''/'' # t) = i # split_on (CHR ''/'') t"
  by (auto simp: url_segment_def intro: split_on_free split_on_append)

lemmas route_tables = public_routes_def admin_routes_def with_prefix_def registerOrderRoutes_def
  registerHealthRoutes_def registerDlqRoutes_def registerSagaAdminRoutes_def

lemma candidates_mem: "(r, cs) \<in> set (candidates rs m url) \<Longrightarrow> \<exists>p. (m, p, r) \<in> set rs"
  by (auto simp: candidates_def split: if_splits option.splits)

lemma admin_handlers:
  assumes "router_laws find_route" and "find_route admin_routes m url = Some (r, bs)"
  shows "r \<in> {GetDlq, PostDlqRetry, DeleteDlq, GetSagas, GetSaga, PostSagaCompensate}"
proof -
  from assms obtain cs where "(r, cs) \<in> set (candidates admin_routes m url)"
    unfolding router_laws_def by blast
  then show ?thesis using candidates_mem by (fastforce simp: route_tables)
qed


section \<open>The property\<close>

text \<open>
  C33. The paths of the servers: for a segment the router hands over as it stands, each handler is reached
  under the path it is registered with, the admin handlers are not reached on the public server, and the
  failed jobs are listed under \<open>/admin/v1\<close> and nothing answers \<open>/admin/v1/dlq\<close>, since the module of the
  dead letters is registered without a prefix of its own; the pages of the documentation are served by
  both servers except in production.
\<close>

theorem routes_resolve:
  assumes "router_laws find_route" and "url_segment i"
  shows "find_route (fa_routes (buildServer cfg)) POST ''/api/v1/orders'' = Some (PostOrders, [])
    \<and> find_route (fa_routes (buildServer cfg)) GET (''/api/v1/orders/'' @ i) = Some (GetOrder, [(''id'', i)])
    \<and> find_route (fa_routes (buildServer cfg)) GET (''/api/v1/orders/'' @ i @ ''/saga'') = Some (GetOrderSaga, [(''id'', i)])
    \<and> find_route (fa_routes (buildServer cfg)) GET ''/health/ready'' = Some (GetHealthReady, [])
    \<and> find_route (fa_routes (buildServer cfg)) m (''/admin/v1/sagas/'' @ i) = None
    \<and> find_route (fa_routes (buildAdminServer cfg)) GET ''/admin/v1'' = Some (GetDlq, [])
    \<and> find_route (fa_routes (buildAdminServer cfg)) POST (''/admin/v1/retry/'' @ i) = Some (PostDlqRetry, [(''jobId'', i)])
    \<and> find_route (fa_routes (buildAdminServer cfg)) DELETE (''/admin/v1/'' @ i) = Some (DeleteDlq, [(''jobId'', i)])
    \<and> find_route (fa_routes (buildAdminServer cfg)) GET ''/admin/v1/sagas'' = Some (GetSagas, [])
    \<and> find_route (fa_routes (buildAdminServer cfg)) GET (''/admin/v1/sagas/'' @ i) = Some (GetSaga, [(''id'', i)])
    \<and> find_route (fa_routes (buildAdminServer cfg)) POST (''/admin/v1/sagas/'' @ i @ ''/compensate'') = Some (PostSagaCompensate, [(''id'', i)])
    \<and> find_route (fa_routes (buildAdminServer cfg)) GET ''/admin/v1/dlq'' = None
    \<and> find_route (fa_routes (buildAdminServer cfg)) POST (''/admin/v1/dlq/retry/'' @ i) = None
    \<and> (fa_docs (buildServer cfg) = None \<longleftrightarrow> nodeEnv cfg = ''production'')
    \<and> (fa_docs (buildAdminServer cfg) = None \<longleftrightarrow> nodeEnv cfg = ''production'')"
proof -
  have "i \<noteq> []" using assms(2) by (simp add: url_segment_def)
  note table = route_tables candidates_def path_patterns_def url_path_Cons url_path_segment url_path_append
    split_segment assms(2) \<open>i \<noteq> []\<close> \<open>i \<noteq> []\<close> [symmetric]
  have "fa_routes (buildServer cfg) = public_routes" "fa_routes (buildAdminServer cfg) = admin_routes"
    by (simp_all add: buildServer_def buildAdminServer_def)
  moreover have "(fa_docs (buildServer cfg) = None \<longleftrightarrow> nodeEnv cfg = ''production'')"
      "(fa_docs (buildAdminServer cfg) = None \<longleftrightarrow> nodeEnv cfg = ''production'')"
    by (simp_all add: buildServer_def buildAdminServer_def docs_prefix_def)
  ultimately show ?thesis
    by (simp only: simp_thms) (intro conjI router_one [OF assms(1)] router_none [OF assms(1)]; simp add: table split: if_splits)
qed

theorem routes_resolve_witness:
  "first_route (fa_routes (buildServer example_config)) GET ''/api/v1/orders/o-1/saga'' = Some (GetOrderSaga, [(''id'', ''o-1'')])
   \<and> first_route (fa_routes (buildAdminServer example_config)) GET ''/admin/v1/dlq'' = None"
  using routes_resolve [OF first_route_laws, of "''o-1''" example_config] by (simp add: url_segment_def)

end
