(* ===== verification/Responses.thy ===== *)
theory Responses
  imports Api Commits Triples
begin

text \<open>
  The response schemas of \<open>src/src/api/schemas/order.schema.ts\<close> and of \<open>src/src/api/routes/v1/orders.ts\<close>
  as predicates on JSON values, and the answers of the order routes, which satisfy them.
\<close>


section \<open>The schemas\<close>

text \<open>
  The validators of zod the response schemas use, on JSON values; \<open>uuid\<close> and \<open>datetime\<close> are the formats
  of the library.  A member a schema does not name is allowed.
\<close>

definition z_string :: "(string \<Rightarrow> bool) \<Rightarrow> json \<Rightarrow> bool" where
  "z_string p j = (case j of JStr s \<Rightarrow> p s | _ \<Rightarrow> False)"

definition z_number :: "json \<Rightarrow> bool" where
  "z_number j = (case j of JNum _ \<Rightarrow> True | _ \<Rightarrow> False)"

definition z_nullable :: "(json \<Rightarrow> bool) \<Rightarrow> json \<Rightarrow> bool" where
  "z_nullable p j = (j = JNull \<or> p j)"

definition z_array :: "(json \<Rightarrow> bool) \<Rightarrow> json \<Rightarrow> bool" where
  "z_array p j = (case j of JArr js \<Rightarrow> list_all p js | _ \<Rightarrow> False)"

definition z_object :: "(string \<times> (json \<Rightarrow> bool)) list \<Rightarrow> json \<Rightarrow> bool" where
  "z_object members j = (case j of
     JObj _ \<Rightarrow> list_all (\<lambda>(k, p). case json_get j k of Some v \<Rightarrow> p v | None \<Rightarrow> False) members
   | _ \<Rightarrow> False)"

abbreviation any_string :: "json \<Rightarrow> bool" where
  "any_string \<equiv> z_string (\<lambda>_. True)"

abbreviation z_enum :: "string list \<Rightarrow> json \<Rightarrow> bool" where
  "z_enum names \<equiv> z_string (\<lambda>s. s \<in> set names)"

definition OrderResponseSchema :: "(string \<Rightarrow> bool) \<Rightarrow> (string \<Rightarrow> bool) \<Rightarrow> json \<Rightarrow> bool" where
  "OrderResponseSchema uuid datetime = z_object
     [(''id'', z_string uuid), (''customerId'', any_string),
      (''status'', z_enum [''PENDING'', ''PAID'', ''FULFILLED'', ''SHIPPED'', ''CANCELLED'', ''COMPENSATING'']),
      (''totalAmount'', z_object [(''amount'', any_string), (''currency'', any_string)]),
      (''items'', z_array (z_object [(''id'', z_string uuid), (''sku'', any_string), (''quantity'', z_number),
                                    (''unitPrice'', any_string)])),
      (''createdAt'', z_string datetime), (''updatedAt'', z_string datetime)]"

definition SagaResponseSchema :: "(string \<Rightarrow> bool) \<Rightarrow> (string \<Rightarrow> bool) \<Rightarrow> json \<Rightarrow> bool" where
  "SagaResponseSchema uuid datetime = z_object
     [(''id'', z_string uuid), (''orderId'', z_string uuid),
      (''status'', z_enum [''PENDING'', ''RUNNING'', ''COMPLETED'', ''COMPENSATING'', ''FAILED'']),
      (''currentStep'', z_number), (''startedAt'', z_string datetime),
      (''completedAt'', z_nullable (z_string datetime)),
      (''steps'', z_array (z_object [(''id'', z_string uuid), (''stepName'', any_string), (''stepOrder'', z_number),
         (''status'', any_string), (''errorMessage'', z_nullable any_string),
         (''startedAt'', z_nullable (z_string datetime)), (''completedAt'', z_nullable (z_string datetime))]))]"

text \<open>The schema of the answer 201, as the route declares it.\<close>

definition created_schema :: "(string \<Rightarrow> bool) \<Rightarrow> (string \<Rightarrow> bool) \<Rightarrow> json \<Rightarrow> bool" where
  "created_schema uuid datetime = z_object
     [(''id'', z_string uuid), (''customerId'', any_string), (''status'', z_enum [''PENDING'']),
      (''totalAmount'', z_object [(''amount'', any_string), (''currency'', any_string)]),
      (''items'', z_array (\<lambda>_. True)), (''createdAt'', z_string datetime), (''updatedAt'', z_string datetime)]"

lemmas z_defs = z_object_def z_array_def z_string_def z_number_def z_nullable_def


section \<open>The bodies\<close>

definition uuid_order :: "(string \<Rightarrow> bool) \<Rightarrow> order \<Rightarrow> bool" where
  "uuid_order uuid ord \<longleftrightarrow> uuid (order_id ord) \<and> (\<forall>i \<in> set (order_items ord). uuid (item_id i))"

lemma order_body_conforms:
  assumes "\<And>t. datetime (dt t)" and "uuid_order uuid ord"
  shows "OrderResponseSchema uuid datetime (order_json_body dt ord)"
    and "order_status ord = PENDING \<Longrightarrow> created_schema uuid datetime (order_json_body dt ord)"
  using assms
  by (auto simp: OrderResponseSchema_def created_schema_def z_defs order_json_body_def money_json_def uuid_order_def list_all_iff
      status_name_def split: order_status.split)

lemma toDomain_uuids:
  assumes "order_toDomain L row rows = Inr ord" and "uuid (or_id row)" and "\<forall>r \<in> set rows. uuid (oi_id r)"
  shows "uuid_order uuid ord"
proof -
  obtain items where items: "mapE (item_toDomain L (or_currency row)) rows = Inr items" "order_items ord = items" "order_id ord = or_id row"
    using assms(1) by (auto simp: order_toDomain_def bindE_eq_Inr)
  have "item_id i = oi_id r" if "item_toDomain L c r = Inr i" for c r i
    using that by (auto simp: item_toDomain_def bindE_eq_Inr)
  then have "list_all2 (\<lambda>r i. item_id i = oi_id r) rows items"
    using items(1) by (auto simp: mapE_Inr_iff elim!: list_all2_mono)
  then have "\<forall>i \<in> set items. \<exists>r \<in> set rows. item_id i = oi_id r"
    by (induction rows items rule: list_all2_induct) auto
  then show ?thesis using items assms(2,3) by (auto simp: uuid_order_def)
qed

text \<open>The identifiers in the tables.\<close>

definition uuid_rows :: "(string \<Rightarrow> bool) \<Rightarrow> db \<Rightarrow> bool" where
  "uuid_rows uuid d \<longleftrightarrow> (\<forall>r \<in> set (db_orders d). uuid (or_id r)) \<and> (\<forall>r \<in> set (db_items d). uuid (oi_id r))
     \<and> (\<forall>s \<in> set (db_sagas d). uuid (saga_id s) \<and> uuid (saga_orderId s)) \<and> (\<forall>s \<in> set (db_steps d). uuid (step_id s))"

text \<open>A query answers from the data as they are.\<close>

lemma triple_select:
  assumes "\<And>d a d'. st d = Inr (a, d') \<Longrightarrow> I d \<Longrightarrow> d' = d \<and> Q a"
  shows "triple (\<lambda>w. I (w_db w)) (sqlM Pool st) (\<lambda>a w. I (w_db w) \<and> Q a)"
  unfolding triple_def
  by (intro allI impI, rule wp_mono [OF wp_sql_Pool]) (use assms in fastforce)



section \<open>The handlers\<close>

text \<open>An exchange whose answer with the status \<open>st\<close> satisfies a schema.\<close>

definition answers :: "int \<Rightarrow> (json \<Rightarrow> bool) \<Rightarrow> exchange \<Rightarrow> bool" where
  "answers st schema ex \<longleftrightarrow> (\<forall>rp. ex_sent ex = Some rp \<longrightarrow> rp_status rp = st \<longrightarrow> schema (rp_body rp))"

lemma answers_send [simp]: "answers st schema (send ex st' b) \<longleftrightarrow> (st' = st \<longrightarrow> schema b)"
  by (auto simp: answers_def send_def)

lemma answers_not_found [simp]: "st \<noteq> 404 \<Longrightarrow> answers st schema (not_found ex d)"
  by (simp add: not_found_def send_problem_def)

lemma triple_option: "(x = None \<Longrightarrow> triple I m Q) \<Longrightarrow> (\<And>a. x = Some a \<Longrightarrow> triple I (f a) Q) \<Longrightarrow>
    triple I (case x of None \<Rightarrow> m | Some a \<Rightarrow> f a) Q"
  by (cases x) auto

lemma triple_pure: "(P \<Longrightarrow> triple I m Q) \<Longrightarrow> triple (\<lambda>w. I w \<and> P) m Q"
  by (auto simp: triple_def)

text \<open>A fact of the value alone is a fact of what follows.\<close>

lemma triple_bind_fact:
  assumes "triple I m (\<lambda>a _. P a)" and "\<And>a. P a \<Longrightarrow> triple (\<lambda>_. True) (f a) Q"
  shows "triple I (bindM m f) Q"
  by (rule triple_bindM [OF assms(1)]) (use assms(2) in \<open>auto simp: triple_def\<close>)

lemma triple_throw: "triple I (throw x) Q"
  by (simp add: triple_def wp_throw)

lemma triple_findById:
  "triple (\<lambda>w. uuid_rows uuid (w_db w)) (order_findById L oid) (\<lambda>r w. uuid_rows uuid (w_db w) \<and> (\<forall>ord. r = Some ord \<longrightarrow> uuid_order uuid ord))"
  unfolding order_findById_def
proof (rule triple_bindM [OF triple_select [where Q = "\<lambda>r. \<forall>row. r = Some row \<longrightarrow> uuid (or_id row)"]], goal_cases)
  case (1 d a d')
  then show ?case by (auto simp: select_order_def uuid_rows_def find_Some_iff)
next
  case (2 row)
  have items: "triple (\<lambda>w. uuid_rows uuid (w_db w)) (sqlM Pool (select_items oid))
      (\<lambda>rows w. uuid_rows uuid (w_db w) \<and> (\<forall>r \<in> set rows. uuid (oi_id r)))"
    by (rule triple_select) (auto simp: select_items_def uuid_rows_def)
  show ?case
    by (intro triple_pure triple_option triple_ret triple_bindM [OF items] triple_bindR) (auto intro: toDomain_uuids)
qed

lemma get_order_conforms:
  assumes "\<And>t. datetime (dt t)"
  shows "triple (\<lambda>w. uuid_rows uuid (w_db w)) (get_order dt (pg_order_repo L) ex)
    (\<lambda>ex' w. answers 200 (OrderResponseSchema uuid datetime) ex')"
  unfolding get_order_def Let_def service_getOrder_def pg_order_sel
  by (intro triple_bindM [OF triple_findById] triple_pure triple_option triple_ret)
    (auto intro: order_body_conforms(1) assms)

lemma get_order_saga_conforms:
  assumes "\<And>t. datetime (dt t)"
  shows "triple (\<lambda>w. uuid_rows uuid (w_db w)) (get_order_saga dt pg_saga_repo ex)
    (\<lambda>ex' w. answers 200 (SagaResponseSchema uuid datetime) ex')"
proof -
  have saga: "triple (\<lambda>w. uuid_rows uuid (w_db w)) (saga_findByOrderId oid)
     (\<lambda>r w. uuid_rows uuid (w_db w) \<and> (\<forall>s. r = Some s \<longrightarrow> uuid (saga_id s) \<and> uuid (saga_orderId s)))" for oid
    unfolding saga_findByOrderId_def by (rule triple_select) (auto simp: select_saga_def uuid_rows_def find_Some_iff)
  have steps: "triple (\<lambda>w. uuid_rows uuid (w_db w)) (saga_getSteps sid)
     (\<lambda>r w. uuid_rows uuid (w_db w) \<and> (\<forall>s \<in> set r. uuid (step_id s)))" for sid
    unfolding saga_getSteps_def by (rule triple_select) (auto simp: select_steps_def uuid_rows_def)
  show ?thesis
    unfolding get_order_saga_def Let_def pg_saga_sel
    by (intro triple_bindM [OF saga] triple_pure triple_option triple_bindM [OF steps] triple_ret)
      (auto simp: SagaResponseSchema_def z_defs list_all_iff assms time_json_def string_json_def saga_status_name_def
        split: option.split saga_status.split)
qed

text \<open>The order a request creates: its identifiers are drawn from the environment.\<close>

lemma triple_env:
  "triple (\<lambda>w. w_env w = e) uuidM (\<lambda>i w. w_env w = e \<and> i \<in> range (e_uuid e))" "triple (\<lambda>w. w_env w = e) nowM (\<lambda>_ w. w_env w = e)"
  by (auto simp: triple_def wp_uuidM wp_nowM)

lemma triple_create_items:
  assumes "range (e_uuid e) \<subseteq> Collect uuid"
  shows "triple (\<lambda>w. w_env w = e) (create_items L oid cur lines) (\<lambda>items w. w_env w = e \<and> (\<forall>i \<in> set items. uuid (item_id i)))"
proof (induction lines)
  case Nil
  show ?case by (auto intro: triple_ret)
next
  case (Cons l ls)
  show ?case
    unfolding create_items.simps
    by (intro triple_bindM [OF triple_env(1)] triple_pure triple_bindR triple_bindM [OF Cons.IH] triple_ret)
      (use assms in \<open>auto dest!: createOrderItem_Inr(3)\<close>)
qed

lemma triple_any: "triple I m (\<lambda>_ _. True)"
  by (simp add: triple_def wp_def)

lemma createOrder_uuids:
  assumes "range (e_uuid e) \<subseteq> Collect uuid"
  shows "triple (\<lambda>w. w_env w = e) (service_createOrder L orders outbox enqueue tm request)
    (\<lambda>r w. uuid_order uuid (fst r) \<and> order_status (fst r) = PENDING)"
proof -
  have ord: "uuid_order uuid ord \<and> order_status ord = PENDING"
    if "createOrder L oid cust items cur key t1 t2 = Inr ord" "oid \<in> range (e_uuid e)" "\<forall>i \<in> set items. uuid (item_id i)"
    for oid cust items cur key t1 t2 ord
    using that(2,3) createOrder_Inr [OF that(1)] assms by (auto simp: uuid_order_def)
  show ?thesis
    unfolding service_createOrder_def
    by (intro triple_bindM [OF triple_env(1)] triple_pure triple_bindM [OF triple_create_items [OF assms]]
        triple_bindM [OF triple_env(2)] triple_bindR triple_thenM [OF triple_any] triple_bindM [OF triple_any] triple_ret)
      (use ord in auto)
qed

lemma post_order_conforms:
  assumes "\<And>t. datetime (dt t)" and "range (e_uuid e) \<subseteq> Collect uuid"
  shows "triple (\<lambda>w. w_env w = e) (post_order issues dt (service_createOrder L orders outbox enqueue tm) ex)
    (\<lambda>ex' w. answers 201 (\<lambda>j. created_schema uuid datetime j \<and> OrderResponseSchema uuid datetime j) ex')"
proof -
  have body: "created_schema uuid datetime (order_json_body dt ord) \<and> OrderResponseSchema uuid datetime (order_json_body dt ord)"
    if "uuid_order uuid ord \<and> order_status ord = PENDING" for ord
    using that by (intro conjI order_body_conforms assms(1)) auto
  show ?thesis
    unfolding post_order_def
    by (intro triple_bindM [OF triple_env(2)] triple_option triple_throw triple_bind_fact [OF createOrder_uuids [OF assms(2)]]
        triple_bindM [OF triple_any] triple_thenM [OF triple_any] triple_ret)
      (simp add: body)
qed


section \<open>The property\<close>

text \<open>
  C32. The answers of the order routes satisfy the schemas the routes declare: when the identifiers of
  the tables and of the environment are UUIDs and times are written as date-times, an order is answered
  as \<open>OrderResponseSchema\<close> says, a new order also as the schema of the answer 201 says, and a saga as
  \<open>SagaResponseSchema\<close> says, whatever fails on the way.
\<close>

theorem responses_conform:
  assumes "\<And>t. datetime (dt t)" and "range (e_uuid (w_env w)) \<subseteq> Collect uuid" and "uuid_rows uuid (w_db w)"
  shows "wp (post_order issues dt (service_createOrder L orders outbox enqueue tm) ex) (\<lambda>r _. \<forall>ex'. r = Ok ex' \<longrightarrow>
        answers 201 (\<lambda>j. created_schema uuid datetime j \<and> OrderResponseSchema uuid datetime j) ex') w
    \<and> wp (get_order dt (pg_order_repo L) ex) (\<lambda>r _. \<forall>ex'. r = Ok ex' \<longrightarrow> answers 200 (OrderResponseSchema uuid datetime) ex') w
    \<and> wp (get_order_saga dt pg_saga_repo ex) (\<lambda>r _. \<forall>ex'. r = Ok ex' \<longrightarrow> answers 200 (SagaResponseSchema uuid datetime) ex') w"
  by (intro conjI tripleD [OF post_order_conforms [where e = "w_env w"]] tripleD [OF get_order_conforms] tripleD [OF get_order_saga_conforms] assms) simp

theorem responses_conform_witness:
  "wp (get_order int_string (pg_order_repo cents_lib) (open_exchange
      \<lparr>rx_id = ''r1'', rx_method = ''GET'', rx_url = ''/api/v1/orders/o1'', rx_headers = Map.empty, rx_body = None,
       rx_ip = None, rx_params = [''id'' \<mapsto> ''o1''], rx_query = Map.empty\<rparr>))
     (\<lambda>r _. \<forall>ex'. r = Ok ex' \<longrightarrow> answers 200 (OrderResponseSchema (\<lambda>s. s \<noteq> []) (\<lambda>s. s \<noteq> [])) ex')
     (world_of quiet_env (empty_db\<lparr>db_orders := [\<lparr>or_id = ''o1'', or_customer_id = ''c1'', or_status = PENDING,
        or_total_amount = ''0.01'', or_currency = ''USD'', or_idempotency_key = None, or_created_at = 0, or_updated_at = 0\<rparr>]\<rparr>))"
proof -
  have "int_string t \<noteq> []" for t by (simp add: int_string_def)
  then show ?thesis
    by (intro responses_conform [THEN conjunct2, THEN conjunct1])
      (auto simp: world_of_def quiet_env_def uuid_rows_def empty_db_def)
qed

end
