(* ===== verification/System.thy ===== *)
theory System
  imports Workers Health Outbox_Processor Saga_Liveness Routes Responses
begin

text \<open>
  The composition root \<open>src/src/index.ts\<close> and the program as a whole: the objects \<open>main\<close> wires
  together, one rule per entry point of the process (the routes of both servers, the four workers, the
  outbox poller, the timers of the locks, the seeding script), and the theorems that every entry point
  refines the machine of commits, so that its invariants are those of the program.
\<close>


section \<open>The composition root\<close>

text \<open>What the process gets from outside: the libraries, the functions of the platform, the configuration.\<close>

record 'd platform =
  pf_decimal :: "'d decimal_lib"
  pf_compare :: "string \<Rightarrow> string \<Rightarrow> bool"
  pf_hmac :: hmac
  pf_bullmq :: bullmq
  pf_cockatiel :: cockatiel
  pf_round :: "rat \<Rightarrow> rat"
  pf_heap :: "nat \<times> nat"
  pf_server :: server

definition pf_cfg :: "'d platform \<Rightarrow> app_config" where
  "pf_cfg P = sv_cfg (pf_server P)"

definition main_inventoryService :: "'d platform \<Rightarrow> inventory_service" where
  "main_inventoryService P = pg_inventory_service (pf_compare P) (sv_sha (pf_server P))"

definition main_paymentService :: "'d platform \<Rightarrow> payment_service" where
  "main_paymentService P =
     gateway_payment_service (createPaymentResiliencePolicy (pf_cockatiel P) (pf_cfg P))
       (stripe_gateway (pf_decimal P) (pf_cfg P))"

definition main_sagaOrchestrator :: "'d platform \<Rightarrow> orchestrator" where
  "main_sagaOrchestrator P =
     pg_orchestrator (pf_decimal P) (pf_compare P) (sv_sha (pf_server P)) (main_paymentService P)"

definition main_createOrder :: "'d platform \<Rightarrow> order_creator" where
  "main_createOrder P =
     service_createOrder (pf_decimal P) (pg_order_repo (pf_decimal P)) pg_outbox_repo
       (saga_enqueue (pf_bullmq P) (pf_cfg P)) pg_tx_manager"

definition main_dispatch :: "'d platform \<Rightarrow> dispatcher" where
  "main_dispatch P =
     dispatch (pf_hmac P) (sv_ps (pf_server P)) (sv_toISOString (pf_server P)) (pf_cfg P)"

definition main_workers :: "'d platform \<Rightarrow> worker_handle list" where
  "main_workers P = startWorkers (pf_decimal P) (pf_cfg P)
     \<lparr>wd_payment = main_paymentService P, wd_inventory = main_inventoryService P,
      wd_orchestrator = main_sagaOrchestrator P, wd_dispatcher = main_dispatch P\<rparr>"


section \<open>The entry points\<close>

text \<open>What the handlers of the two routing tables of \<open>Routes\<close> do.\<close>

fun handle :: "'d platform \<Rightarrow> route \<Rightarrow> http_req \<Rightarrow> exchange io" where
  "handle P PostOrders rq = serve_post_order (pf_server P) (main_createOrder P) rq"
| "handle P GetOrder rq = serve_get_order (pf_server P) (pg_order_repo (pf_decimal P)) rq"
| "handle P GetOrderSaga rq = serve_get_saga (pf_server P) pg_saga_repo rq"
| "handle P GetHealth rq = serve (pf_server P) no_schema [] (health (sv_toISOString (pf_server P))) rq"
| "handle P GetHealthDeep rq = serve (pf_server P) no_schema []
     (health_deep (pf_bullmq P) (sv_redis (pf_server P)) (sv_toISOString (pf_server P)) (pf_round P)
        (pf_heap P) (pf_cfg P)) rq"
| "handle P GetHealthReady rq = serve (pf_server P) no_schema []
     (health_ready (pf_server P) (pf_bullmq P) (pf_round P) (pf_heap P)) rq"
| "handle P GetDlq rq = serve_admin (sv_view (pf_server P))
     (dlq_list (pf_bullmq P) (sv_toISOString (pf_server P)) (pf_cfg P)) rq"
| "handle P PostDlqRetry rq = serve_admin (sv_view (pf_server P)) (dlq_retry (pf_bullmq P) (pf_cfg P)) rq"
| "handle P DeleteDlq rq = serve_admin (sv_view (pf_server P)) (dlq_remove (pf_bullmq P) (pf_cfg P)) rq"
| "handle P GetSagas rq = serve_admin (sv_view (pf_server P))
     (sagas_list pg_saga_repo (sv_toISOString (pf_server P)) (pf_cfg P)) rq"
| "handle P GetSaga rq = serve_admin (sv_view (pf_server P))
     (sagas_detail pg_saga_repo (sv_toISOString (pf_server P)) (pf_cfg P)) rq"
| "handle P PostSagaCompensate rq = serve_admin (sv_view (pf_server P))
     (sagas_compensate (pf_decimal P) (main_sagaOrchestrator P) (pf_cfg P)) rq"

text \<open>One action of the process; the data of a job and the request are whatever arrives.\<close>

inductive system_step :: "'d platform \<Rightarrow> world \<Rightarrow> world \<Rightarrow> bool" for P where
  request: "handle P rt rq w = (r, w') \<Longrightarrow> system_step P w w'"
| work: "wk \<in> set (main_workers P) \<Longrightarrow> wk_processor wk data w = (r, w') \<Longrightarrow> system_step P w w'"
| outbox: "processBatch (pf_bullmq P) (pf_cfg P) pg_outbox_repo w = (r, w') \<Longrightarrow> system_step P w w'"
| timer: "timer_expires h w = (r, w') \<Longrightarrow> system_step P w w'"
| seed_items: "inventory_seedInventory items w = (r, w') \<Longrightarrow> system_step P w w'"
| seed_script: "seed w = (r, w') \<Longrightarrow> system_step P w w'"

abbreviation runs :: "'d platform \<Rightarrow> world \<Rightarrow> world \<Rightarrow> bool" where
  "runs P \<equiv> (system_step P)\<^sup>*\<^sup>*"

text \<open>The laws of the libraries the process relies on.\<close>

definition platform_laws :: "'d platform \<Rightarrow> bool" where
  "platform_laws P \<longleftrightarrow> bullmq_laws (pf_bullmq P) \<and> bullmq_frame (pf_bullmq P)
     \<and> redis_laws (sv_redis (pf_server P)) \<and> upholds only_redis (rd_ping (sv_redis (pf_server P)))
     \<and> resilience_laws (createPaymentResiliencePolicy (pf_cockatiel P) (pf_cfg P))"


section \<open>Every entry point refines the machine\<close>

lemma upholds_run_hooks:
  "preord R \<Longrightarrow> (\<And>h ex. h \<in> set hs \<Longrightarrow> upholds R (h ex)) \<Longrightarrow> upholds R (run_hooks hs ex)"
  by (induction hs arbitrary: ex) (auto intro!: upholds_ret upholds_bindM)

lemma upholds_run_route:
  assumes "preord R" and "\<And>h ex. h \<in> set hs \<Longrightarrow> upholds R (h ex)" and "\<And>ex. upholds R (handler ex)"
  shows "upholds R (run_route v hs handler ex)"
  unfolding run_route_def
  by (intro upholds_intros upholds_run_hooks assms)

lemma upholds_commits_eq: "upholds (on_db (=)) m \<Longrightarrow> upholds (on_db (commits L)) m"
  by (rule upholds_eq_on_db) auto

lemma upholds_onSend: "redis_laws C \<Longrightarrow> upholds (on_db (=)) (onSend C ps dt ser cfg ex)"
  unfolding onSend_def
  by (auto intro!: upholds_intros split: option.split)

lemma upholds_requestContext: "upholds (on_db (=)) (requestContextMiddleware ex)"
  unfolding requestContextMiddleware_def
  by (auto intro!: upholds_intros split: option.split)

lemma upholds_serve:
  assumes "redis_laws (sv_redis sv)" and "\<And>h ex. h \<in> set hs \<Longrightarrow> upholds (on_db (commits L)) (h ex)"
    and "\<And>ex. upholds (on_db (commits L)) (handler ex)"
  shows "upholds (on_db (commits L)) (serve sv schema hs handler rq)"
proof -
  have "upholds (on_db (commits L)) (h ex)" if "h \<in> set (requestContextMiddleware # hs)" for h ex
    using that assms(2) upholds_commits_eq [OF upholds_requestContext] by auto
  then have "upholds (on_db (commits L)) (run_route v (requestContextMiddleware # hs) handler ex)" for v ex
    using assms(3) by (intro upholds_run_route) auto
  then show ?thesis
    unfolding serve_def using assms(1)
    by (cases "schema rq") (auto intro!: upholds_intros upholds_commits_eq [OF upholds_onSend])
qed

lemma upholds_order_hooks:
  assumes "redis_laws (sv_redis sv)" and "h \<in> set (order_hooks sv)"
  shows "upholds (on_db (=)) (h ex)"
proof -
  have "upholds (on_db (=)) (rateLimitMiddleware (sv_redis sv) dt cfg ex)" for dt cfg
    unfolding rateLimitMiddleware_def Let_def by (intro upholds_intros preord_on_db preord_eq ticks_on_db assms)
  moreover have "upholds (on_db (=)) (idempotencyMiddleware (sv_redis sv) pa sh ps ex)" for pa sh ps
    unfolding idempotencyMiddleware_def Let_def
    by (auto intro!: upholds_intros assms split: option.split)
  moreover have "upholds (on_db (=)) (validateBody iss ex)" for iss
    unfolding validateBody_def Let_def by (auto intro!: upholds_intros split: option.split)
  ultimately show ?thesis using assms(2) by (auto simp: order_hooks_def)
qed

lemma upholds_post_order:
  assumes "\<And>rq. upholds (on_db R) (create rq)" and "preord R"
  shows "upholds (on_db R) (post_order iss dt create ex)"
  unfolding post_order_def
  by (intro upholds_intros preord_on_db ticks_on_db assms)

lemma upholds_reads:
  "upholds (on_db (=)) (order_findById L oid)"
  "upholds (on_db (=)) (saga_findByOrderId oid)" "upholds (on_db (=)) (saga_findById sid)"
  "upholds (on_db (=)) (saga_getSteps sid)" "upholds (on_db (=)) (saga_findRunningSagas q)"
proof -
  have "stmt_in (=) (\<lambda>d. case q of Whole m \<Rightarrow> select_running t m d | _ \<Rightarrow> Inl (InvalidText ''interval''))" for t
    by (auto simp: stmt_in_def select_running_def split: js_number.splits)
  then show "upholds (on_db (=)) (saga_findRunningSagas q)"
    unfolding saga_findRunningSagas_def by (intro upholds_intros ticks_on_db preord_eq preord_on_db upholds_select)
qed (unfold order_findById_def saga_findByOrderId_def saga_findById_def saga_getSteps_def,
    auto intro!: upholds_intros upholds_select select_idle split: option.split)

lemma upholds_get_order: "upholds (on_db (=)) (get_order dt (pg_order_repo L) ex)"
  unfolding get_order_def Let_def service_getOrder_def pg_order_sel
  by (intro upholds_intros preord_on_db preord_eq upholds_reads)

lemma upholds_get_order_saga: "upholds (on_db (=)) (get_order_saga dt pg_saga_repo ex)"
  unfolding get_order_saga_def Let_def pg_saga_sel
  by (intro upholds_intros preord_on_db preord_eq upholds_reads)


lemma upholds_admin_only:
  "preord R \<Longrightarrow> (\<And>ex. upholds R (h ex)) \<Longrightarrow> upholds R (admin_only cfg h ex)"
  unfolding admin_only_def by (auto intro: upholds_ret split: prod.split)

lemma upholds_serve_admin:
  "(\<And>ex. upholds (on_db (commits L)) (h ex)) \<Longrightarrow> upholds (on_db (commits L)) (serve_admin v h rq)"
  unfolding serve_admin_def by (rule upholds_run_route) auto

lemma upholds_dlq:
  assumes "bullmq_frame B"
  shows "upholds (on_db (=)) (dlq_list B dt cfg ex)" and "upholds (on_db (=)) (dlq_retry B cfg ex)"
    and "upholds (on_db (=)) (dlq_remove B cfg ex)"
proof -
  have lst: "upholds (on_db (=)) (list_failed B dt cfg limit qs jobs)" for limit qs jobs
    by (induction qs arbitrary: jobs) (auto simp: Let_def intro!: upholds_intros assms)
  have on: "upholds (on_db (=)) (on_job B cfg act i qs)" if "\<And>h i. upholds (on_db (=)) (act h i)" for act i qs
    by (induction qs) (auto simp: Let_def intro!: upholds_intros assms that split: option.split)
  show "upholds (on_db (=)) (dlq_list B dt cfg ex)"
    unfolding dlq_list_def Let_def by (intro upholds_admin_only upholds_intros preord_on_db preord_eq lst)
  show "upholds (on_db (=)) (dlq_retry B cfg ex)" "upholds (on_db (=)) (dlq_remove B cfg ex)"
    unfolding dlq_retry_def dlq_remove_def Let_def
    by (intro upholds_admin_only upholds_intros preord_on_db preord_eq on assms)+
qed

lemma upholds_sagas_reads:
  "upholds (on_db (=)) (sagas_list pg_saga_repo dt cfg ex)" "upholds (on_db (=)) (sagas_detail pg_saga_repo dt cfg ex)"
proof -
  have "upholds (on_db (=)) (stuck_sagas dt ss)" for ss
    by (induction ss) (auto intro!: upholds_intros)
  then show "upholds (on_db (=)) (sagas_list pg_saga_repo dt cfg ex)"
    unfolding sagas_list_def Let_def pg_saga_sel
    by (intro upholds_admin_only upholds_intros preord_on_db preord_eq upholds_reads)
  show "upholds (on_db (=)) (sagas_detail pg_saga_repo dt cfg ex)"
    unfolding sagas_detail_def Let_def pg_saga_sel
    by (intro upholds_admin_only upholds_intros preord_on_db preord_eq upholds_reads)
qed

lemma upholds_sagas_compensate:
  assumes "payment_frame ps"
  shows "upholds (on_db (commits L)) (sagas_compensate L' (pg_orchestrator L'' le sha ps) cfg ex)"
  unfolding sagas_compensate_def Let_def pg_orchestrator_sel pg_saga_sel
  by (intro upholds_admin_only upholds_intros preord_on_db preord_rtranclp
      upholds_commits_eq [OF upholds_reads(3)] assms)

lemma upholds_timed: "preord R \<Longrightarrow> upholds (on_db R) m \<Longrightarrow> upholds (on_db R) (timed m)"
  unfolding timed_def by (intro upholds_intros preord_on_db ticks_on_db)

lemma on_db_only_redis: "upholds only_redis m \<Longrightarrow> upholds (on_db (=)) m"
  unfolding upholds_def on_db_def by (metis only_redis_sel(1))

lemma upholds_health_deep:
  assumes "bullmq_frame B" and "upholds only_redis (rd_ping C)"
  shows "upholds (on_db (=)) (health_deep B C dt fl heap cfg ex)"
proof -
  have depth: "upholds (on_db (=)) (queue_depth B cfg qs acc)" for qs acc
    by (induction qs arbitrary: acc) (auto simp: Let_def intro!: upholds_intros assms)
  have "stmt_in (=) select_one" by (auto simp: stmt_in_def select_one_def)
  then show ?thesis
    unfolding health_deep_def
    by (intro upholds_intros upholds_timed preord_on_db preord_eq ticks_on_db depth upholds_select
        on_db_only_redis assms)
qed

lemma upholds_health: "upholds (on_db (=)) (health dt ex)"
  unfolding health_def by (intro upholds_intros preord_on_db preord_eq ticks_on_db)

lemma upholds_handle:
  assumes P: "platform_laws P"
  shows "upholds (on_db (commits (pf_decimal P))) (handle P rt rq)"
proof -
  note laws = P [unfolded platform_laws_def]
  let ?R = "on_db (commits (pf_decimal P))"
  have pay: "payment_frame (main_paymentService P)"
    unfolding main_paymentService_def using laws by (intro stripe_payment_frame) blast
  have create: "upholds ?R (main_createOrder P rq)" for rq
    unfolding main_createOrder_def by (rule upholds_createOrder) (use laws in \<open>auto intro: upholds_saga_enqueue\<close>)
  have redis: "redis_laws (sv_redis (pf_server P))" using laws by blast
  have deep: "upholds ?R (health_deep (pf_bullmq P) (sv_redis (pf_server P)) dt (pf_round P) (pf_heap P) cfg ex)" for dt cfg ex
    by (rule upholds_commits_eq [OF upholds_health_deep]) (use laws in auto)
  have dlq: "upholds ?R (dlq_list (pf_bullmq P) dt cfg ex)" "upholds ?R (dlq_retry (pf_bullmq P) cfg ex)"
      "upholds ?R (dlq_remove (pf_bullmq P) cfg ex)" for dt cfg ex
    by (rule upholds_commits_eq, rule upholds_dlq, use laws in blast)+
  show ?thesis
  proof (cases rt)
    case PostOrders
    have "upholds ?R (post_order iss dt (main_createOrder P) ex)" for iss dt ex
      by (rule upholds_post_order [OF create]) simp
    then show ?thesis
      using PostOrders redis upholds_commits_eq [OF upholds_order_hooks [OF redis]]
      by (auto simp: serve_post_order_def intro!: upholds_serve)
  next
    case GetHealthReady
    have "upholds ?R (health_ready (pf_server P) (pf_bullmq P) (pf_round P) (pf_heap P) ex)" for ex
      unfolding health_ready_def
      by (intro upholds_intros upholds_serve preord_on_db preord_rtranclp redis deep) auto
    then show ?thesis using GetHealthReady redis by (auto intro!: upholds_serve)
  next
    case PostSagaCompensate
    then show ?thesis
      using upholds_sagas_compensate [OF pay] by (auto simp: main_sagaOrchestrator_def intro!: upholds_serve_admin)
  qed (use redis deep dlq upholds_commits_eq [OF upholds_health] upholds_commits_eq [OF upholds_get_order]
        upholds_commits_eq [OF upholds_get_order_saga] upholds_commits_eq [OF upholds_sagas_reads(1)]
        upholds_commits_eq [OF upholds_sagas_reads(2)]
      in \<open>auto simp: serve_get_order_def serve_get_saga_def intro!: upholds_serve upholds_serve_admin\<close>)
qed

lemma upholds_workers:
  assumes P: "platform_laws P" and wk: "wk \<in> set (main_workers P)"
  shows "upholds (on_db (commits (pf_decimal P))) (wk_processor wk data)"
proof -
  let ?R = "on_db (commits (pf_decimal P))"
  have pay: "payment_frame (main_paymentService P)"
    unfolding main_paymentService_def using P by (intro stripe_payment_frame) (simp add: platform_laws_def)
  have "upholds ?R (main_dispatch P t a p)" for t a p
    unfolding main_dispatch_def by (rule upholds_dispatch)
  then have "upholds ?R (on_data read_payment_job (payment_processor L (main_paymentService P)) data)"
    "upholds ?R (on_data read_inventory_job (inventory_processor (main_inventoryService P)) data)"
    "upholds ?R (on_data read_notification_job (notification_processor (main_dispatch P)) data)"
    "upholds ?R (on_data read_context (processSagaJob L (main_sagaOrchestrator P)) data)" for L :: "'a decimal_lib"
    unfolding main_inventoryService_def main_sagaOrchestrator_def
    by (intro upholds_on_data upholds_payment_processor [OF pay] upholds_inventory_processor
        upholds_notification_processor upholds_processSagaJob [OF pay] preord_on_db preord_rtranclp; assumption)+
  with wk show ?thesis
    by (auto simp: main_workers_def startWorkers_def createWorker_def)
qed

lemma system_step_commits:
  assumes "platform_laws P" and "system_step P w w'"
  shows "commits (pf_decimal P) (w_db w) (w_db w')"
proof -
  from assms(2) show ?thesis
  proof cases
    case (request rt rq r)
    then show ?thesis using upholdsD [OF upholds_handle [OF assms(1)]] by (auto simp: on_db_def)
  next
    case (work wk data r)
    then show ?thesis using upholdsD [OF upholds_workers [OF assms(1)]] by (auto simp: on_db_def)
  next
    case (outbox r)
    have "bullmq_laws (pf_bullmq P)" using assms(1) by (simp add: platform_laws_def)
    then show ?thesis using upholdsD [OF upholds_processBatch outbox] by (auto simp: on_db_def)
  next
    case (timer h r)
    have "upholds (on_db (commits (pf_decimal P))) (timer_expires h)"
      unfolding timer_expires_def by (intro upholds_intros preord_on_db preord_rtranclp)
    then show ?thesis using upholdsD timer by (fastforce simp: on_db_def)
  next
    case (seed_items items r)
    then show ?thesis using upholdsD [OF upholds_seed] by (auto simp: on_db_def)
  next
    case (seed_script r)
    then show ?thesis using upholdsD [OF upholds_seed_script] by (auto simp: on_db_def)
  qed
qed

lemma runs_commits: "platform_laws P \<Longrightarrow> runs P w w' \<Longrightarrow> commits (pf_decimal P) (w_db w) (w_db w')"
  by (erule rtranclp_induct) (auto dest: system_step_commits)

context commit_invariant begin

lemma runs_keep: "platform_laws P \<Longrightarrow> pf_decimal P = L \<Longrightarrow> runs P w w' \<Longrightarrow> I (w_db w) \<Longrightarrow> I (w_db w')"
  using commits_keep runs_commits by metis

end


section \<open>A platform\<close>

text \<open>An instance of every library, on which the theorems below are applied.\<close>

definition demo_platform :: "nat platform" where
  "demo_platform =
     \<lparr>pf_decimal = cents_lib, pf_compare = (\<le>), pf_hmac = (\<lambda>_ _. replicate 32 0), pf_bullmq = list_bullmq,
      pf_cockatiel = closed_cockatiel, pf_round = id, pf_heap = (1, 2), pf_server = example_server\<rparr>"

definition demo_request :: http_req where
  "demo_request =
     \<lparr>rx_id = ''req-1'', rx_method = ''POST'', rx_url = ''/api/v1/orders'',
      rx_headers = [''idempotency-key'' \<mapsto> ''k1'', ''x-client-id'' \<mapsto> ''c1''],
      rx_body = Some (JObj [(''customerId'', JStr ''cust''), (''items'', JArr [JObj [(''sku'', JStr ''A''),
                 (''quantity'', JNum (Whole 2)), (''unitPrice'', JStr ''19.99'')]]), (''paymentToken'', JStr ''tok'')]),
      rx_ip = None, rx_params = Map.empty, rx_query = Map.empty\<rparr>"

lemma upholds_mem_ping: "upholds only_redis (rd_ping mem_redis)"
  by (simp add: upholds_def mem_redis_def ioM_def ret_def only_redis_tick Let_def split: fault.split)

lemma demo_platform_laws: "platform_laws demo_platform"
  by (simp add: platform_laws_def demo_platform_def example_server_def list_bullmq_laws list_bullmq_frame
      mem_redis_laws upholds_mem_ping closed_resilience_laws)

lemma demo_step: "system_step demo_platform w (snd (handle demo_platform rt rq w))"
  by (rule system_step.request [of _ rt rq _ "fst (handle demo_platform rt rq w)"]) simp

lemma demo_runs: "runs demo_platform w (snd (handle demo_platform rt rq w))"
  using demo_step by (rule r_into_rtranclp)

lemma demo_start [simp]: "pf_decimal demo_platform = cents_lib" "w_db (world_of e d) = d"
  by (simp_all add: demo_platform_def world_of_def)


section \<open>The properties\<close>

text \<open>
  C1. Refinement: every entry point of the process (a request to either server, a job of any worker, a
  batch of the outbox, the timer of a lock, the seeding), with every failure and at every point where
  the process may die, does to the database a sequence of steps of the machine of commits.
\<close>

theorem entry_points_refine_commits:
  assumes "platform_laws P" and "system_step P w w'"
  shows "commits (pf_decimal P) (w_db w) (w_db w')"
  using assms by (rule system_step_commits)

theorem entry_points_refine_commits_witness:
  "commits cents_lib empty_db (w_db (snd (handle demo_platform PostOrders demo_request (world_of quiet_env empty_db))))"
  using entry_points_refine_commits [OF demo_platform_laws demo_step, of "world_of quiet_env empty_db" PostOrders demo_request]
  by (simp del: handle.simps)

text \<open>
  C2. No order without its events: from a database without orders, whatever the process does and
  however often it dies, every order has an event \<open>order.created\<close>, and it is pending, or paid with an
  event \<open>order.paid\<close>, or cancelled with an event \<open>order.failed\<close>; no order is ever in another state.
\<close>

theorem orders_always_announced:
  assumes "platform_laws P" and "runs P w w'" and "db_orders (w_db w) = []" and "r \<in> set (db_orders (w_db w'))"
  shows "(\<exists>e \<in> set (db_outbox (w_db w')). ev_eventType e = ''order.created'' \<and> ev_aggregateId e = or_id r)
    \<and> (or_status r = PENDING
       \<or> or_status r = PAID \<and> (\<exists>e \<in> set (db_outbox (w_db w')). ev_eventType e = ''order.paid'' \<and> ev_aggregateId e = or_id r)
       \<or> or_status r = CANCELLED \<and> (\<exists>e \<in> set (db_outbox (w_db w')). ev_eventType e = ''order.failed'' \<and> ev_aggregateId e = or_id r))"
proof -
  have "outbox_complete (w_db w')"
    by (rule outbox.runs_keep [OF assms(1) HOL.refl assms(2)]) (simp add: outbox_complete_def assms(3))
  then show ?thesis
    using assms(4) by (simp add: outbox_complete_def row_announced_def announced_def)
qed

theorem orders_always_announced_witness:
  "or_status ` set (db_orders (w_db (snd (handle demo_platform PostOrders demo_request (world_of quiet_env empty_db)))))
     \<subseteq> {PENDING, PAID, CANCELLED}"
proof
  let ?w = "world_of quiet_env empty_db"
  fix st assume "st \<in> or_status ` set (db_orders (w_db (snd (handle demo_platform PostOrders demo_request ?w))))"
  then obtain r where r: "r \<in> set (db_orders (w_db (snd (handle demo_platform PostOrders demo_request ?w))))" "st = or_status r" by blast
  from orders_always_announced [OF demo_platform_laws demo_runs _ r(1)]
  show "st \<in> {PENDING, PAID, CANCELLED}" using r(2) by (auto simp: empty_db_def)
qed

text \<open>
  C16. The tables stay consistent: the keys of orders, items, events, sagas and steps are unique, two
  orders never share an idempotency key, and every item, saga and step refers to a row that exists.
\<close>

theorem tables_stay_consistent:
  assumes "platform_laws P" and "runs P w w'" and "integrity (w_db w)"
  shows "integrity (w_db w')"
  by (rule tables.runs_keep [OF assms(1) HOL.refl assms(2,3)])

theorem tables_stay_consistent_witness:
  "integrity (w_db (snd (handle demo_platform PostOrders demo_request (world_of quiet_env empty_db))))"
  by (rule tables_stay_consistent [OF demo_platform_laws demo_runs])
    (simp add: empty_db_def integrity_def distinct_keys_def keys_unique_def references_def)



text \<open>
  C21. Every route of the admin server is guarded: whatever path and method reach a handler there, a request
  without the configured key is answered 401 or 403, and nothing in the world changes.
\<close>

theorem admin_routes_guarded:
  assumes "router_laws find_route" and "find_route (fa_routes (buildAdminServer (pf_cfg P))) m (rx_url rq) = Some (rt, bs)"
    and "rx_headers rq ''x-api-key'' \<noteq> Some (adminApiKey (pf_cfg P)) \<or> adminApiKey (pf_cfg P) = []"
  shows "\<exists>ex rp. handle P rt (rq\<lparr>rx_params := map_of bs\<rparr>) w = (Ok ex, w) \<and> ex_sent ex = Some rp
    \<and> rp_status rp \<in> {401, 403}"
proof -
  have refused: "\<not> fst (verifyAdminKey (pf_cfg P) (open_exchange (rq\<lparr>rx_params := map_of bs\<rparr>)))"
    using assms(3) by (auto simp: verifyAdminKey_iff open_exchange_def)
  have "find_route admin_routes m (rx_url rq) = Some (rt, bs)"
    using assms(2) by (simp add: buildAdminServer_def)
  from serve_admin_refuses [OF refused] admin_handlers [OF assms(1) this] show ?thesis
    by (auto simp: dlq_list_def dlq_retry_def dlq_remove_def sagas_list_def sagas_detail_def sagas_compensate_def)
qed

theorem admin_routes_guarded_witness:
  "\<exists>ex rp. handle demo_platform GetSaga (demo_request\<lparr>rx_url := ''/admin/v1/sagas/s1'', rx_params := map_of [(''id'', ''s1'')]\<rparr>) (world_of quiet_env empty_db)
      = (Ok ex, world_of quiet_env empty_db)
    \<and> ex_sent ex = Some rp \<and> rp_status rp \<in> {401, 403}"
proof -
  have "first_route (fa_routes (buildAdminServer (pf_cfg demo_platform))) GET (rx_url (demo_request\<lparr>rx_url := ''/admin/v1/sagas/s1''\<rparr>)) = Some (GetSaga, [(''id'', ''s1'')])"
    by (simp add: buildAdminServer_def route_tables first_route_def candidates_def path_patterns_def url_path_Cons)
  from admin_routes_guarded [OF first_route_laws this, of "world_of quiet_env empty_db"] show ?thesis
    by (simp add: demo_request_def del: handle.simps)
qed

end
