(* ===== verification/Lifecycle.thy ===== *)
theory Lifecycle
  imports System
begin

text \<open>
  The life of the process: the singletons of \<open>src/src/infrastructure/database/connection.ts\<close>,
  \<open>redis/connection.ts\<close>, \<open>queue/connection.ts\<close> and \<open>observability/tracer.ts\<close>, the list of workers of
  \<open>queue/workers/index.ts\<close>, and \<open>main\<close> with its shutdown in \<open>src/src/index.ts\<close>.  The clients are known
  by the options they are made with; what a call to a library answers on the way up and down is a
  parameter.
\<close>


section \<open>The state of the process\<close>

record sql_options =
  so_url :: string
  so_max :: int
  so_idle_timeout :: nat
  so_connect_timeout :: nat
  so_prepare :: bool
  so_debug :: bool

record redis_options =
  rc_url :: string
  rc_maxRetriesPerRequest :: "nat option"
  rc_enableReadyCheck :: bool
  rc_lazyConnect :: bool

record sdk_options =
  sd_serviceName :: string
  sd_serviceVersion :: string
  sd_environment :: string
  sd_url :: string
  sd_fs_enabled :: bool

text \<open>The variables of the modules, the two listening servers, the timer of the shutdown and the exit code.\<close>

record runtime =
  rt_world :: world
  rt_sql :: "sql_options option"
  rt_redis :: "redis_options option"
  rt_queue :: "redis_options option"
  rt_sdk :: "sdk_options option"
  rt_workers :: "worker_handle list"
  rt_public :: bool
  rt_admin :: bool
  rt_drainTimer :: bool
  rt_exit :: "int option"

type_synonym 'a proc = "(runtime, 'a) prog"

text \<open>The error, if any, each call to a library rejects with, and how long the workers need to drain.\<close>

record outcomes =
  xo_listen :: "int \<Rightarrow> error option"
  xo_closePublic :: "error option"
  xo_closeAdmin :: "error option"
  xo_worker :: "string \<Rightarrow> error option"
  xo_drainMs :: nat
  xo_sql :: "error option"
  xo_redis :: "error option"
  xo_queue :: "error option"
  xo_sdk :: "error option"

definition external :: "error option \<Rightarrow> unit proc" where
  "external e = (case e of None \<Rightarrow> ret () | Some x \<Rightarrow> throw x)"

text \<open>\<open>process.exit\<close>: nothing runs after it.\<close>

definition exitM :: "int \<Rightarrow> 'a proc" where
  "exitM code = (\<lambda>s. (Crashed, s\<lparr>rt_exit := Some code\<rparr>))"

definition in_world :: "'a io \<Rightarrow> 'a proc" where
  "in_world m = (\<lambda>s. case m (rt_world s) of (r, w) \<Rightarrow> (r, s\<lparr>rt_world := w\<rparr>))"


section \<open>The singletons\<close>

definition getSql :: "app_config \<Rightarrow> sql_options proc" where
  "getSql cfg =
     bindM (getsM rt_sql) (\<lambda>sqlInstance.
     case sqlInstance of
       Some i \<Rightarrow> ret i
     | None \<Rightarrow>
         (let i = \<lparr>so_url = databaseUrl cfg, so_max = databasePoolSize cfg, so_idle_timeout = 20,
                   so_connect_timeout = 10, so_prepare = True, so_debug = (nodeEnv cfg = ''development'')\<rparr>
          in thenM (modifyM (\<lambda>s. s\<lparr>rt_sql := Some i\<rparr>)) (ret i)))"

definition closeDatabase :: "outcomes \<Rightarrow> unit proc" where
  "closeDatabase x =
     bindM (getsM rt_sql) (\<lambda>sqlInstance.
     case sqlInstance of
       Some _ \<Rightarrow> thenM (external (xo_sql x)) (modifyM (\<lambda>s. s\<lparr>rt_sql := None\<rparr>))
     | None \<Rightarrow> ret ())"

definition getRedis :: "app_config \<Rightarrow> redis_options proc" where
  "getRedis cfg =
     bindM (getsM rt_redis) (\<lambda>redisInstance.
     case redisInstance of
       Some i \<Rightarrow> ret i
     | None \<Rightarrow>
         (let i = \<lparr>rc_url = redisUrl cfg, rc_maxRetriesPerRequest = None, rc_enableReadyCheck = False,
                   rc_lazyConnect = True\<rparr>
          in thenM (modifyM (\<lambda>s. s\<lparr>rt_redis := Some i\<rparr>)) (ret i)))"

definition closeRedis :: "outcomes \<Rightarrow> unit proc" where
  "closeRedis x =
     bindM (getsM rt_redis) (\<lambda>redisInstance.
     case redisInstance of
       Some _ \<Rightarrow> thenM (external (xo_redis x)) (modifyM (\<lambda>s. s\<lparr>rt_redis := None\<rparr>))
     | None \<Rightarrow> ret ())"

definition getQueueConnection :: "app_config \<Rightarrow> redis_options proc" where
  "getQueueConnection cfg =
     bindM (getsM rt_queue) (\<lambda>queueConnection.
     case queueConnection of
       Some i \<Rightarrow> ret i
     | None \<Rightarrow>
         (let i = \<lparr>rc_url = redisUrl cfg, rc_maxRetriesPerRequest = None, rc_enableReadyCheck = False,
                   rc_lazyConnect = False\<rparr>
          in thenM (modifyM (\<lambda>s. s\<lparr>rt_queue := Some i\<rparr>)) (ret i)))"

definition closeQueueConnection :: "outcomes \<Rightarrow> unit proc" where
  "closeQueueConnection x =
     bindM (getsM rt_queue) (\<lambda>queueConnection.
     case queueConnection of
       Some _ \<Rightarrow> thenM (external (xo_queue x)) (modifyM (\<lambda>s. s\<lparr>rt_queue := None\<rparr>))
     | None \<Rightarrow> ret ())"

definition initTracer :: "app_config \<Rightarrow> process_env \<Rightarrow> unit proc" where
  "initTracer cfg penv =
     modifyM (\<lambda>s. s\<lparr>rt_sdk := Some
       \<lparr>sd_serviceName = ''orderly'', sd_serviceVersion = ''1.0.0'', sd_environment = nodeEnv cfg,
        sd_url = or_else (penv ''OTEL_EXPORTER_OTLP_ENDPOINT'') ''http://localhost:4318/v1/traces'',
        sd_fs_enabled = False\<rparr>\<rparr>)"

definition shutdownTracer :: "outcomes \<Rightarrow> unit proc" where
  "shutdownTracer x =
     bindM (getsM rt_sdk) (\<lambda>sdk.
     case sdk of
       Some _ \<Rightarrow> thenM (external (xo_sdk x)) (modifyM (\<lambda>s. s\<lparr>rt_sdk := None\<rparr>))
     | None \<Rightarrow> ret ())"


section \<open>The logger\<close>

text \<open>
  The options \<open>createLogger\<close> gives to pino: \<open>lg_base\<close> is the object of the bindings, which every line shows as
  \<open>lg_bindings\<close> formats it, and \<open>lg_pretty\<close> is the transport of development.
\<close>

record logger_options =
  lg_level :: string
  lg_base :: "string \<rightharpoonup> string"
  lg_bindings :: "(string \<rightharpoonup> string) \<Rightarrow> (string \<times> string option) list"
  lg_redact :: "string list"
  lg_remove :: bool
  lg_pretty :: bool

definition createLogger :: "app_config \<Rightarrow> string \<Rightarrow> string \<Rightarrow> logger_options" where
  "createLogger cfg pid serviceName =
     \<lparr>lg_level = logLevel cfg, lg_base = [''service'' \<mapsto> serviceName, ''pid'' \<mapsto> pid],
      lg_bindings = (\<lambda>bindings. [(''pid'', bindings ''pid''), (''host'', bindings ''hostname'')]),
      lg_redact = [''req.headers.authorization'', ''req.headers['' @ [CHR 0x22] @ ''x-api-key'' @ [CHR 0x22] @ '']'',
                   ''password'', ''secret'', ''token'', ''paymentToken'', ''cardNumber''],
      lg_remove = True, lg_pretty = (nodeEnv cfg = ''development'')\<rparr>"

text \<open>The formatter drops the name of the service, and the host it names is not in the bindings.\<close>

lemma log_line_bindings:
  "let l = createLogger cfg pid serviceName in
     lg_bindings l (lg_base l) = [(''pid'', Some pid), (''host'', None)]"
  by (simp add: createLogger_def)


section \<open>Workers\<close>

text \<open>Each worker is made on the queue connection.\<close>

definition start_workers :: "app_config \<Rightarrow> worker_handle list \<Rightarrow> unit proc" where
  "start_workers cfg ws =
     thenM (forM ws (\<lambda>_. bindM (getQueueConnection cfg) (\<lambda>_. ret ())))
       (modifyM (\<lambda>s. s\<lparr>rt_workers := ws\<rparr>))"

text \<open>\<open>Promise.all\<close> rejects with the first worker that does not close.\<close>

fun first_error :: "error option list \<Rightarrow> error option" where
  "first_error [] = None"
| "first_error (Some e # es) = Some e"
| "first_error (None # es) = first_error es"

definition stopWorkers :: "outcomes \<Rightarrow> unit proc" where
  "stopWorkers x =
     bindM (getsM rt_workers) (\<lambda>workers.
     thenM (external (first_error (map (\<lambda>wk. xo_worker x (wk_name wk)) workers)))
       (modifyM (\<lambda>s. s\<lparr>rt_workers := []\<rparr>)))"


section \<open>Startup and shutdown\<close>

definition listen :: "outcomes \<Rightarrow> int \<Rightarrow> (runtime \<Rightarrow> runtime) \<Rightarrow> unit proc" where
  "listen x p up = thenM (external (xo_listen x p)) (modifyM up)"

definition main_start :: "'d platform \<Rightarrow> process_env \<Rightarrow> outcomes \<Rightarrow> unit proc" where
  "main_start P penv x =
     thenM (initTracer (pf_cfg P) penv)
     (thenM (start_workers (pf_cfg P) (main_workers P))
     (thenM (modifyM (\<lambda>s. s\<lparr>rt_world := (rt_world s)\<lparr>w_outbox := (w_outbox (rt_world s))\<lparr>op_running := True, op_aborted := Some False\<rparr>\<rparr>\<rparr>))
     (thenM (listen x (port (pf_cfg P)) (\<lambda>s. s\<lparr>rt_public := True\<rparr>))
       (listen x (adminPort (pf_cfg P)) (\<lambda>s. s\<lparr>rt_admin := True\<rparr>)))))"

text \<open>\<open>main().catch(...)\<close>\<close>

definition main_run :: "'d platform \<Rightarrow> process_env \<Rightarrow> outcomes \<Rightarrow> unit proc" where
  "main_run P penv x = catchM (main_start P penv x) (\<lambda>err. exitM 1)"

text \<open>The workers drain, or the timer of 30 seconds ends the process first.\<close>

definition drain :: "outcomes \<Rightarrow> unit proc" where
  "drain x = (if 30000 \<le> xo_drainMs x then exitM 1 else stopWorkers x)"

text \<open>The two calls of \<open>Promise.allSettled\<close>.\<close>

definition closeServers :: "outcomes \<Rightarrow> unit proc" where
  "closeServers x =
     all_settled [thenM (external (xo_closePublic x)) (modifyM (\<lambda>s. s\<lparr>rt_public := False\<rparr>)),
                  thenM (external (xo_closeAdmin x)) (modifyM (\<lambda>s. s\<lparr>rt_admin := False\<rparr>))]"

definition closeConnections :: "outcomes \<Rightarrow> unit proc" where
  "closeConnections x = all_settled [closeDatabase x, closeRedis x, closeQueueConnection x]"

definition shutdown :: "outcomes \<Rightarrow> unit proc" where
  "shutdown x =
     thenM (closeServers x)
     (thenM (in_world processor_stop)
     (thenM (modifyM (\<lambda>s. s\<lparr>rt_drainTimer := True\<rparr>))
     (thenM (drain x)
     (thenM (modifyM (\<lambda>s. s\<lparr>rt_drainTimer := False\<rparr>))
     (thenM (closeConnections x)
     (thenM (shutdownTracer x)
       (exitM 0)))))))"

text \<open>
  A signal: a rejection of \<open>shutdown\<close> is only logged, and the timer, if it is still armed, ends the process.
\<close>

definition on_signal :: "outcomes \<Rightarrow> unit proc" where
  "on_signal x =
     catchM (shutdown x) (\<lambda>reason.
       bindM (getsM rt_drainTimer) (\<lambda>armed. if armed then exitM 1 else ret ()))"

definition on_uncaughtException :: "unit proc" where
  "on_uncaughtException = exitM 1"

lemmas process_defs = monad_defs external_def exitM_def in_world_def Let_def

text \<open>A singleton is made once: a second call answers the first client, whatever the configuration says then.\<close>

lemma getSql_once: "bindM (getSql cfg) (\<lambda>a. bindM (getSql cfg') (\<lambda>b. ret (a, b))) s = (case getSql cfg s of (r, s') \<Rightarrow>
    (case r of Ok a \<Rightarrow> Ok (a, a) | Throw e \<Rightarrow> Throw e | Crashed \<Rightarrow> Crashed, s'))"
  by (simp add: getSql_def process_defs split: option.split)

text \<open>The start of the process: it goes on exactly when both ports are free, and exits with 1 otherwise.\<close>

lemma startup:
  "let s' = snd (main_run P penv x s) in
     (rt_exit s' = (if xo_listen x (port (pf_cfg P)) = None \<and> xo_listen x (adminPort (pf_cfg P)) = None
                    then rt_exit s else Some 1))
     \<and> map wk_name (rt_workers s') = [''payment-processing'', ''inventory-release'', ''webhook-delivery'', ''saga-execution'']
     \<and> rt_queue s' \<noteq> None"
  by (simp add: main_run_def main_start_def start_workers_def main_workers_def startWorkers_def createWorker_def initTracer_def
      getQueueConnection_def listen_def process_defs split: option.split)


section \<open>The seeding script\<close>

text \<open>
  \<open>src/scripts/seed-data.ts\<close>: the failure of \<open>seed\<close> sets the exit code, and a rejection of
  \<open>closeDatabase\<close> is one nobody handles.
\<close>

definition seed_main :: "app_config \<Rightarrow> outcomes \<Rightarrow> unit proc" where
  "seed_main cfg x =
     bindM (catchM (bindM (getSql cfg) (\<lambda>_. thenM (in_world seed) (ret 0))) (\<lambda>err. ret 1)) (\<lambda>exitCode.
     thenM (catchM (closeDatabase x) (\<lambda>_. exitM 1)) (exitM exitCode))"

lemma seed_main_exit:
  assumes "fst (seed (rt_world s)) \<noteq> Crashed"
  shows "rt_exit (snd (seed_main cfg x s))
    = Some (if fst (seed (rt_world s)) = Ok () \<and> xo_sql x = None then 0 else 1)"
proof (cases "seed (rt_world s)")
  case (Pair r w)
  with assms show ?thesis
    by (cases "rt_sql s"; cases r; cases "xo_sql x")
      (simp_all add: seed_main_def getSql_def closeDatabase_def process_defs)
qed


text \<open>What is left open after the closings, none of which is waited for in vain.\<close>

definition left_open :: "error option \<Rightarrow> 'a option \<Rightarrow> 'a option" where
  "left_open e i = (if e = None then None else i)"

lemma settled_closings:
  "closeConnections x s = (Ok (),
     s\<lparr>rt_sql := left_open (xo_sql x) (rt_sql s), rt_redis := left_open (xo_redis x) (rt_redis s),
       rt_queue := left_open (xo_queue x) (rt_queue s)\<rparr>)"
proof -
  have "catchM (thenM (closeDatabase x) (ret ())) (\<lambda>_. ret ()) s = (Ok (), s\<lparr>rt_sql := left_open (xo_sql x) (rt_sql s)\<rparr>)" for s
    by (cases s, cases "xo_sql x", cases "rt_sql s") (simp_all add: closeDatabase_def left_open_def process_defs split: option.split)
  moreover have "catchM (thenM (closeRedis x) (ret ())) (\<lambda>_. ret ()) s = (Ok (), s\<lparr>rt_redis := left_open (xo_redis x) (rt_redis s)\<rparr>)" for s
    by (cases s, cases "xo_redis x", cases "rt_redis s") (simp_all add: closeRedis_def left_open_def process_defs split: option.split)
  moreover have "catchM (thenM (closeQueueConnection x) (ret ())) (\<lambda>_. ret ()) s = (Ok (), s\<lparr>rt_queue := left_open (xo_queue x) (rt_queue s)\<rparr>)" for s
    by (cases s, cases "xo_queue x", cases "rt_queue s") (simp_all add: closeQueueConnection_def left_open_def process_defs split: option.split)
  ultimately show ?thesis
    by (simp add: closeConnections_def all_settled_def thenM_def bindM_def ret_def)
qed

lemma settled_servers:
  "closeServers x s = (Ok (),
     s\<lparr>rt_public := (xo_closePublic x \<noteq> None \<and> rt_public s), rt_admin := (xo_closeAdmin x \<noteq> None \<and> rt_admin s)\<rparr>)"
  by (cases s, cases "xo_closePublic x"; cases "xo_closeAdmin x") (simp_all add: closeServers_def process_defs)


section \<open>The property\<close>

text \<open>
  C22. The shutdown: on a signal the process exits with 1 when the workers need 30 seconds or one of them
  cannot be closed, stays up when the tracer cannot be shut down, and exits with 0 otherwise; then the
  outbox processor is stopped, no worker is left and a server or a connection is open only when its own
  closing was rejected.  The data are left alone.
\<close>

theorem shutdown_outcome:
  assumes "rt_exit s = None"
  shows "(let s' = snd (on_signal x s); failed = first_error (map (\<lambda>wk. xo_worker x (wk_name wk)) (rt_workers s)) in
     rt_exit s' = (if 30000 \<le> xo_drainMs x \<or> failed \<noteq> None then Some 1
                   else if rt_sdk s \<noteq> None \<and> xo_sdk x \<noteq> None then None else Some 0)
     \<and> (rt_exit s' = Some 0 \<longrightarrow> rt_workers s' = [] \<and> \<not> op_running (w_outbox (rt_world s')) \<and> rt_sdk s' = None
         \<and> (rt_public s' \<longrightarrow> xo_closePublic x \<noteq> None) \<and> (rt_admin s' \<longrightarrow> xo_closeAdmin x \<noteq> None)
         \<and> (rt_sql s' \<noteq> None \<longrightarrow> xo_sql x \<noteq> None) \<and> (rt_redis s' \<noteq> None \<longrightarrow> xo_redis x \<noteq> None)
         \<and> (rt_queue s' \<noteq> None \<longrightarrow> xo_queue x \<noteq> None))
     \<and> w_db (rt_world s') = w_db (rt_world s))"
  using assms
  by (cases "first_error (map (\<lambda>wk. xo_worker x (wk_name wk)) (rt_workers s))"; cases "xo_sdk x"; cases "rt_sdk s")
    (simp_all add: on_signal_def shutdown_def drain_def stopWorkers_def processor_stop_def shutdownTracer_def settled_closings
      settled_servers external_def exitM_def in_world_def Let_def catchM_def thenM_def bindM_def ret_def throw_def getsM_def modifyM_def
      left_open_def)

theorem shutdown_outcome_witness:
  "rt_exit (snd (on_signal
      \<lparr>xo_listen = Map.empty, xo_closePublic = None, xo_closeAdmin = None, xo_worker = Map.empty, xo_drainMs = 100,
       xo_sql = None, xo_redis = None, xo_queue = None, xo_sdk = Some (IoError ''timeout'')\<rparr>
      \<lparr>rt_world = world_of quiet_env empty_db, rt_sql = None, rt_redis = None, rt_queue = None,
       rt_sdk = Some \<lparr>sd_serviceName = ''orderly'', sd_serviceVersion = ''1.0.0'', sd_environment = ''development'',
                       sd_url = ''http://localhost:4318/v1/traces'', sd_fs_enabled = False\<rparr>,
       rt_workers = main_workers demo_platform, rt_public = True, rt_admin = True, rt_drainTimer = False, rt_exit = None\<rparr>)) = None"
proof -
  have none: "first_error (map (\<lambda>wk. None) ws) = None" for ws :: "worker_handle list" by (induction ws) simp_all
  show ?thesis
    by (subst shutdown_outcome [unfolded Let_def, THEN conjunct1]) (simp_all add: none)
qed

end
