(* ===== verification/Rows.thy ===== *)
theory Rows
  imports Admin Triples
begin

text \<open>
  The rows behind the records of \<open>Repositories\<close>: what \<open>saga-repository.ts\<close> and \<open>outbox-repository.ts\<close>
  write to each column of \<open>saga_instances\<close>, \<open>saga_steps\<close> and \<open>outbox_events\<close>, and how \<open>toDomain\<close> reads
  a row.  The statements of \<open>Repositories\<close>, which work on the records, are shown to be implemented by
  the statements on the rows.

  The parameter \<open>jsonb\<close> is what a value is after it was written as \<open>toJson(value)::jsonb\<close> and read back by
  the driver: PostgreSQL keeps the members of a document, not their order.
\<close>


section \<open>Rows\<close>

record saga_row =
  sr_id :: string
  sr_order_id :: string
  sr_type :: string
  sr_status :: saga_status
  sr_current_step :: int
  sr_started_at :: int
  sr_completed_at :: "int option"
  sr_metadata :: json

record saga_step_row =
  st_id :: string
  st_saga_id :: string
  st_step_name :: string
  st_step_order :: int
  st_status :: string
  st_input_payload :: json
  st_output_payload :: json
  st_error_message :: "string option"
  st_started_at :: "int option"
  st_completed_at :: "int option"
  st_compensation_status :: string
  st_compensation_error :: "string option"

record outbox_row =
  ow_id :: string
  ow_aggregate_type :: string
  ow_aggregate_id :: string
  ow_event_type :: string
  ow_payload :: json
  ow_headers :: json
  ow_status :: outbox_status
  ow_retry_count :: int
  ow_created_at :: int
  ow_processed_at :: "int option"

text \<open>A cast of a column to a type of names; \<open>None\<close> where the column holds another text.\<close>

definition cast_name :: "('a \<Rightarrow> string) \<Rightarrow> 'a list \<Rightarrow> string \<Rightarrow> 'a option" where
  "cast_name name xs s = find (\<lambda>x. name x = s) xs"

definition step_status_of :: "string \<Rightarrow> step_status option" where
  "step_status_of = cast_name step_status_name [STEP_PENDING, STEP_RUNNING, STEP_COMPLETED, STEP_FAILED]"

definition compensation_status_of :: "string \<Rightarrow> compensation_status option" where
  "compensation_status_of =
     cast_name compensation_status_name [COMP_PENDING, COMP_RUNNING, COMP_COMPLETED, COMP_FAILED]"

lemma status_cast [simp]:
  "step_status_of (step_status_name st) = Some st"
  "compensation_status_of (compensation_status_name ct) = Some ct"
  by (cases st; simp add: step_status_of_def cast_name_def step_status_name_def)
    (cases ct; simp add: compensation_status_of_def cast_name_def compensation_status_name_def)

definition members :: "json \<Rightarrow> (string \<times> json) list option" where
  "members j = (case j of JObj ms \<Rightarrow> Some ms | _ \<Rightarrow> None)"

definition toDomainSaga :: "saga_row \<Rightarrow> saga_instance option" where
  "toDomainSaga row =
     map_option (\<lambda>metadata.
       \<lparr>saga_id = sr_id row, saga_orderId = sr_order_id row, saga_type = sr_type row, saga_status = sr_status row,
        saga_currentStep = sr_current_step row, saga_startedAt = sr_started_at row,
        saga_completedAt = sr_completed_at row, saga_metadata = metadata\<rparr>)
     (if sr_metadata row = JNull then Some [] else members (sr_metadata row))"

definition toDomainStep :: "saga_step_row \<Rightarrow> saga_step_rec option" where
  "toDomainStep row =
     (case (step_status_of (st_status row), compensation_status_of (st_compensation_status row)) of
        (Some status, Some compensationStatus) \<Rightarrow> Some
          \<lparr>step_id = st_id row, step_sagaId = st_saga_id row, step_name = st_step_name row, step_order = st_step_order row,
           step_status = status, step_input = st_input_payload row, step_output = st_output_payload row,
           step_error = st_error_message row, step_startedAt = st_started_at row, step_completedAt = st_completed_at row,
           step_compensation = compensationStatus, step_compensationError = st_compensation_error row\<rparr>
      | _ \<Rightarrow> None)"

definition outbox_toDomain :: "outbox_row \<Rightarrow> outbox_event option" where
  "outbox_toDomain row =
     (case (members (ow_payload row), members (ow_headers row)) of
        (Some payload, Some headers) \<Rightarrow> Some
          \<lparr>ev_id = ow_id row, ev_aggregateType = ow_aggregate_type row, ev_aggregateId = ow_aggregate_id row,
           ev_eventType = ow_event_type row, ev_payload = payload, ev_headers = headers, ev_status = ow_status row,
           ev_retryCount = ow_retry_count row, ev_createdAt = ow_created_at row, ev_processedAt = ow_processed_at row\<rparr>
      | _ \<Rightarrow> None)"


section \<open>Statements on rows\<close>

record row_tables =
  rw_sagas :: "saga_row list"
  rw_steps :: "saga_step_row list"
  rw_outbox :: "outbox_row list"

type_synonym codec = "json \<Rightarrow> json"

definition saga_values :: "codec \<Rightarrow> saga_instance \<Rightarrow> saga_row" where
  "saga_values jsonb s =
     \<lparr>sr_id = saga_id s, sr_order_id = saga_orderId s, sr_type = saga_type s, sr_status = saga_status s,
      sr_current_step = saga_currentStep s, sr_started_at = saga_startedAt s,
      sr_completed_at = saga_completedAt s, sr_metadata = jsonb (JObj (saga_metadata s))\<rparr>"

definition row_saga_create :: "codec \<Rightarrow> saga_instance \<Rightarrow> row_tables \<Rightarrow> row_tables" where
  "row_saga_create jsonb s R = R\<lparr>rw_sagas := rw_sagas R @ [saga_values jsonb s]\<rparr>"

definition row_saga_update :: "codec \<Rightarrow> saga_instance \<Rightarrow> row_tables \<Rightarrow> row_tables" where
  "row_saga_update jsonb s R = R\<lparr>rw_sagas := update_all (\<lambda>r. sr_id r = saga_id s)
     (\<lambda>r. r\<lparr>sr_status := saga_status s, sr_current_step := saga_currentStep s,
           sr_completed_at := saga_completedAt s, sr_metadata := jsonb (JObj (saga_metadata s))\<rparr>) (rw_sagas R)\<rparr>"

definition step_values :: "codec \<Rightarrow> saga_step_rec \<Rightarrow> saga_step_row" where
  "step_values jsonb s =
     \<lparr>st_id = step_id s, st_saga_id = step_sagaId s, st_step_name = step_name s, st_step_order = step_order s,
      st_status = step_status_name (step_status s), st_input_payload = jsonb (step_input s),
      st_output_payload = jsonb (step_output s), st_error_message = step_error s, st_started_at = step_startedAt s,
      st_completed_at = step_completedAt s, st_compensation_status = compensation_status_name (step_compensation s),
      st_compensation_error = step_compensationError s\<rparr>"

definition row_step_create :: "codec \<Rightarrow> saga_step_rec \<Rightarrow> row_tables \<Rightarrow> row_tables" where
  "row_step_create jsonb s R = R\<lparr>rw_steps := rw_steps R @ [step_values jsonb s]\<rparr>"

definition row_step_update :: "codec \<Rightarrow> saga_step_rec \<Rightarrow> row_tables \<Rightarrow> row_tables" where
  "row_step_update jsonb s R = R\<lparr>rw_steps := update_all (\<lambda>r. st_id r = step_id s)
     (\<lambda>r. r\<lparr>st_status := step_status_name (step_status s), st_output_payload := jsonb (step_output s),
           st_error_message := step_error s, st_completed_at := step_completedAt s,
           st_compensation_status := compensation_status_name (step_compensation s),
           st_compensation_error := step_compensationError s\<rparr>) (rw_steps R)\<rparr>"

definition event_values :: "codec \<Rightarrow> outbox_event \<Rightarrow> outbox_row" where
  "event_values jsonb e =
     \<lparr>ow_id = ev_id e, ow_aggregate_type = ev_aggregateType e, ow_aggregate_id = ev_aggregateId e,
      ow_event_type = ev_eventType e, ow_payload = jsonb (JObj (ev_payload e)), ow_headers = jsonb (JObj (ev_headers e)),
      ow_status = ev_status e, ow_retry_count = ev_retryCount e, ow_created_at = ev_createdAt e,
      ow_processed_at = ev_processedAt e\<rparr>"

definition row_event_create :: "codec \<Rightarrow> outbox_event \<Rightarrow> row_tables \<Rightarrow> row_tables" where
  "row_event_create jsonb e R = R\<lparr>rw_outbox := rw_outbox R @ [event_values jsonb e]\<rparr>"

definition row_markPublished :: "string \<Rightarrow> int \<Rightarrow> row_tables \<Rightarrow> row_tables" where
  "row_markPublished eid t R = R\<lparr>rw_outbox := update_all (\<lambda>r. ow_id r = eid)
     (\<lambda>r. r\<lparr>ow_status := OUTBOX_PUBLISHED, ow_processed_at := Some t\<rparr>) (rw_outbox R)\<rparr>"

definition row_markFailed :: "string \<Rightarrow> bool \<Rightarrow> int \<Rightarrow> row_tables \<Rightarrow> row_tables" where
  "row_markFailed eid incrementRetry t R = R\<lparr>rw_outbox := update_all (\<lambda>r. ow_id r = eid)
     (\<lambda>r. if incrementRetry
          then r\<lparr>ow_status := OUTBOX_FAILED, ow_retry_count := ow_retry_count r + 1, ow_processed_at := Some t\<rparr>
          else r\<lparr>ow_status := OUTBOX_FAILED, ow_processed_at := Some t\<rparr>) (rw_outbox R)\<rparr>"

definition row_resetForRetry :: "string \<Rightarrow> row_tables \<Rightarrow> row_tables" where
  "row_resetForRetry eid R = R\<lparr>rw_outbox := update_all (\<lambda>r. ow_id r = eid)
     (\<lambda>r. r\<lparr>ow_status := OUTBOX_PENDING, ow_retry_count := ow_retry_count r + 1\<rparr>) (rw_outbox R)\<rparr>"

definition rows_saga :: "string \<Rightarrow> row_tables \<Rightarrow> saga_row option" where
  "rows_saga sid R = find (\<lambda>r. sr_id r = sid) (rw_sagas R)"

definition rows_saga_of_order :: "string \<Rightarrow> row_tables \<Rightarrow> saga_row option" where
  "rows_saga_of_order oid R = find (\<lambda>r. sr_order_id r = oid) (rw_sagas R)"

definition rows_running :: "int \<Rightarrow> int \<Rightarrow> row_tables \<Rightarrow> saga_row list" where
  "rows_running t minutes R = sort_by (\<lambda>a b. sr_started_at a \<le> sr_started_at b)
     (filter (\<lambda>r. sr_status r \<in> {SAGA_RUNNING, SAGA_COMPENSATING} \<and> sr_started_at r < t - minutes * 60000) (rw_sagas R))"

definition rows_steps :: "string \<Rightarrow> row_tables \<Rightarrow> saga_step_row list" where
  "rows_steps sid R = sort_by (\<lambda>a b. st_step_order a \<le> st_step_order b) (filter (\<lambda>r. st_saga_id r = sid) (rw_steps R))"

definition rows_pending :: "nat \<Rightarrow> row_tables \<Rightarrow> outbox_row list" where
  "rows_pending maxRows R = take maxRows (sort_by (\<lambda>a b. ow_created_at a \<le> ow_created_at b)
     (filter (\<lambda>r. ow_status r = OUTBOX_PENDING) (rw_outbox R)))"


section \<open>The refinement\<close>

text \<open>The rows that stand for the records, and what of a record is read back from its row.\<close>

definition rows_of :: "codec \<Rightarrow> db \<Rightarrow> row_tables" where
  "rows_of jsonb d = \<lparr>rw_sagas = map (saga_values jsonb) (db_sagas d), rw_steps = map (step_values jsonb) (db_steps d),
     rw_outbox = map (event_values jsonb) (db_outbox d)\<rparr>"

definition kept_members :: "codec \<Rightarrow> (string \<times> json) list \<Rightarrow> (string \<times> json) list" where
  "kept_members jsonb ms = (case members (jsonb (JObj ms)) of Some ms' \<Rightarrow> ms' | None \<Rightarrow> [])"

definition kept_saga :: "codec \<Rightarrow> saga_instance \<Rightarrow> saga_instance" where
  "kept_saga jsonb s = s\<lparr>saga_metadata := kept_members jsonb (saga_metadata s)\<rparr>"

definition kept_step :: "codec \<Rightarrow> saga_step_rec \<Rightarrow> saga_step_rec" where
  "kept_step jsonb s = s\<lparr>step_input := jsonb (step_input s), step_output := jsonb (step_output s)\<rparr>"

definition kept_event :: "codec \<Rightarrow> outbox_event \<Rightarrow> outbox_event" where
  "kept_event jsonb e = e\<lparr>ev_payload := kept_members jsonb (ev_payload e), ev_headers := kept_members jsonb (ev_headers e)\<rparr>"

text \<open>A document stays a document with the same members.\<close>

definition codec_law :: "codec \<Rightarrow> bool" where
  "codec_law jsonb \<longleftrightarrow> (\<forall>ms. \<exists>ms'. jsonb (JObj ms) = JObj ms'
     \<and> (distinct (map fst ms) \<longrightarrow> map_of ms' = map_option jsonb \<circ> map_of ms))"

lemma codec_members:
  assumes "codec_law jsonb"
  shows "members (jsonb (JObj ms)) = Some (kept_members jsonb ms)" and "jsonb (JObj ms) \<noteq> JNull"
    and "distinct (map fst ms) \<Longrightarrow> map_of (kept_members jsonb ms) k = map_option jsonb (map_of ms k)"
  using assms [unfolded codec_law_def, rule_format, of ms] by (auto simp: kept_members_def members_def)

lemma read_back:
  assumes "codec_law jsonb"
  shows "toDomainSaga (saga_values jsonb s) = Some (kept_saga jsonb s)"
    and "toDomainStep (step_values jsonb st) = Some (kept_step jsonb st)"
    and "outbox_toDomain (event_values jsonb e) = Some (kept_event jsonb e)"
  using codec_members [OF assms]
  by (simp_all add: toDomainSaga_def saga_values_def kept_saga_def toDomainStep_def step_values_def kept_step_def
      outbox_toDomain_def event_values_def kept_event_def)

text \<open>Tables of rows are tables of records under a map.\<close>

lemma update_all_map:
  "(\<And>x. p (g x) = q x) \<Longrightarrow> (\<And>x. f (g x) = g (h x)) \<Longrightarrow> update_all p f (map g xs) = map g (update_all q h xs)"
  by (induction xs) auto

lemma find_map: "(\<And>x. p (g x) = q x) \<Longrightarrow> find p (map g xs) = map_option g (find q xs)"
  by (induction xs) auto

lemma insert_by_map: "(\<And>x y. le (g x) (g y) = le' x y) \<Longrightarrow> insert_by le (g x) (map g xs) = map g (insert_by le' x xs)"
  by (induction xs) auto

lemma sort_by_map: "(\<And>x y. le (g x) (g y) = le' x y) \<Longrightarrow> sort_by le (map g xs) = map g (sort_by le' xs)"
  by (induction xs) (auto simp: insert_by_map)

lemma filter_map_other: "(\<And>x. p (g x) = q x) \<Longrightarrow> filter p (map g xs) = map g (filter q xs)"
  by (induction xs) auto

text \<open>A statement that writes records is implemented by one that writes rows; likewise one that reads.\<close>

definition writes :: "codec \<Rightarrow> unit stmt \<Rightarrow> (row_tables \<Rightarrow> row_tables) \<Rightarrow> bool" where
  "writes jsonb st f \<longleftrightarrow> (\<forall>d u d'. st d = Inr (u, d') \<longrightarrow> rows_of jsonb d' = f (rows_of jsonb d))"

definition reads :: "codec \<Rightarrow> 'a list stmt \<Rightarrow> ('a \<Rightarrow> 'a) \<Rightarrow> (row_tables \<Rightarrow> 'a option list) \<Rightarrow> bool" where
  "reads jsonb st kept q \<longleftrightarrow> (\<forall>d xs d'. st d = Inr (xs, d') \<longrightarrow> d' = d \<and> q (rows_of jsonb d) = map (Some \<circ> kept) xs)"

definition reads_one :: "codec \<Rightarrow> 'a option stmt \<Rightarrow> ('a \<Rightarrow> 'a) \<Rightarrow> (row_tables \<Rightarrow> 'a option option) \<Rightarrow> bool" where
  "reads_one jsonb st kept q \<longleftrightarrow> (\<forall>d x d'. st d = Inr (x, d') \<longrightarrow> d' = d \<and> q (rows_of jsonb d) = map_option (Some \<circ> kept) x)"

lemma writes_sagas:
  "writes jsonb (insert_saga s) (row_saga_create jsonb s)" "writes jsonb (set_saga s) (row_saga_update jsonb s)"
  by (auto simp: writes_def insert_saga_def set_saga_def require_Inr_iff rows_of_def row_saga_create_def row_saga_update_def
      saga_values_def simp del: require.simps intro!: update_all_map [symmetric])

lemma writes_steps:
  "writes jsonb (insert_step st) (row_step_create jsonb st)" "writes jsonb (set_step st) (row_step_update jsonb st)"
  by (auto simp: writes_def insert_step_def set_step_def require_Inr_iff rows_of_def row_step_create_def row_step_update_def
      step_values_def simp del: require.simps intro!: update_all_map [symmetric])

lemma writes_events:
  "writes jsonb (insert_event e) (row_event_create jsonb e)"
  "writes jsonb (set_event eid (\<lambda>e. e\<lparr>ev_status := OUTBOX_PUBLISHED, ev_processedAt := Some t\<rparr>)) (row_markPublished eid t)"
  "writes jsonb (set_event eid (\<lambda>e. e\<lparr>ev_status := OUTBOX_FAILED, ev_retryCount := ev_retryCount e + 1, ev_processedAt := Some t\<rparr>))
     (row_markFailed eid True t)"
  "writes jsonb (set_event eid (\<lambda>e. e\<lparr>ev_status := OUTBOX_FAILED, ev_processedAt := Some t\<rparr>)) (row_markFailed eid False t)"
  "writes jsonb (set_event eid (\<lambda>e. e\<lparr>ev_status := OUTBOX_PENDING, ev_retryCount := ev_retryCount e + 1\<rparr>)) (row_resetForRetry eid)"
  by (auto simp: writes_def insert_event_def set_event_def require_Inr_iff rows_of_def row_event_create_def row_markPublished_def
      row_markFailed_def row_resetForRetry_def event_values_def simp del: require.simps intro!: update_all_map [symmetric])

lemma reads_sagas:
  assumes "codec_law jsonb"
  shows "reads_one jsonb (select_saga (\<lambda>s. saga_id s = sid)) (kept_saga jsonb) (map_option toDomainSaga \<circ> rows_saga sid)"
    and "reads_one jsonb (select_saga (\<lambda>s. saga_orderId s = oid)) (kept_saga jsonb) (map_option toDomainSaga \<circ> rows_saga_of_order oid)"
    and "reads jsonb (select_running t m) (kept_saga jsonb) (map toDomainSaga \<circ> rows_running t m)"
proof -
  have sel [simp]: "sr_id (saga_values jsonb s) = saga_id s" "sr_order_id (saga_values jsonb s) = saga_orderId s"
    "sr_status (saga_values jsonb s) = saga_status s" "sr_started_at (saga_values jsonb s) = saga_startedAt s" for s
    by (simp_all add: saga_values_def)
  note readback = read_back [OF assms]
  show "reads_one jsonb (select_saga (\<lambda>s. saga_id s = sid)) (kept_saga jsonb) (map_option toDomainSaga \<circ> rows_saga sid)"
    by (simp add: reads_one_def select_saga_def rows_of_def rows_saga_def find_map [where q = "\<lambda>s. saga_id s = sid"]
        option.map_comp comp_def readback)
  show "reads_one jsonb (select_saga (\<lambda>s. saga_orderId s = oid)) (kept_saga jsonb) (map_option toDomainSaga \<circ> rows_saga_of_order oid)"
    by (simp add: reads_one_def select_saga_def rows_of_def rows_saga_of_order_def find_map [where q = "\<lambda>s. saga_orderId s = oid"]
        option.map_comp comp_def readback)
  show "reads jsonb (select_running t m) (kept_saga jsonb) (map toDomainSaga \<circ> rows_running t m)"
    by (simp add: reads_def select_running_def rows_of_def rows_running_def
        filter_map_other [where q = "\<lambda>s. saga_status s \<in> {SAGA_RUNNING, SAGA_COMPENSATING} \<and> saga_startedAt s < t - m * 60000"]
        sort_by_map [where le' = "\<lambda>a b. saga_startedAt a \<le> saga_startedAt b"] comp_def readback)
qed

lemma reads_others:
  assumes "codec_law jsonb"
  shows "reads jsonb (select_steps sid) (kept_step jsonb) (map toDomainStep \<circ> rows_steps sid)"
    and "reads jsonb (select_pending n) (kept_event jsonb) (map outbox_toDomain \<circ> rows_pending n)"
proof -
  have sel [simp]: "st_saga_id (step_values jsonb s) = step_sagaId s" "st_step_order (step_values jsonb s) = step_order s"
    "ow_status (event_values jsonb e) = ev_status e" "ow_created_at (event_values jsonb e) = ev_createdAt e" for s e
    by (simp_all add: step_values_def event_values_def)
  note readback = read_back [OF assms]
  show "reads jsonb (select_steps sid) (kept_step jsonb) (map toDomainStep \<circ> rows_steps sid)"
    by (simp add: reads_def select_steps_def rows_of_def rows_steps_def filter_map_other [where q = "\<lambda>s. step_sagaId s = sid"]
        sort_by_map [where le' = "\<lambda>a b. step_order a \<le> step_order b"] comp_def readback)
  show "reads jsonb (select_pending n) (kept_event jsonb) (map outbox_toDomain \<circ> rows_pending n)"
    by (simp add: reads_def select_pending_def rows_of_def rows_pending_def filter_map_other [where q = "\<lambda>e. ev_status e = OUTBOX_PENDING"]
        sort_by_map [where le' = "\<lambda>a b. ev_createdAt a \<le> ev_createdAt b"] take_map comp_def readback)
qed


section \<open>The property\<close>

text \<open>The members in the order of the lengths of their names, as PostgreSQL keeps them, at every depth.\<close>

fun by_key_length :: codec where
  "by_key_length (JArr js) = JArr (map by_key_length js)"
| "by_key_length (JObj ms) =
     JObj (sort_by (\<lambda>a b. length (fst a) \<le> length (fst b)) (map (\<lambda>(k, v). (k, by_key_length v)) ms))"
| "by_key_length j = j"

lemma by_key_length_law: "codec_law by_key_length"
  unfolding codec_law_def
proof (intro allI exI conjI impI)
  fix ms :: "(string \<times> json) list"
  let ?vs = "map (\<lambda>(k, v). (k, by_key_length v)) ms"
  let ?ms = "sort_by (\<lambda>a b. length (fst a) \<le> length (fst b)) ?vs"
  show "by_key_length (JObj ms) = JObj ?ms" by simp
  assume "distinct (map fst ms)"
  then have vs: "distinct (map fst ?vs)" by (simp add: comp_def split_beta)
  have "mset (map fst ?ms) = mset (map fst ?vs)" by (simp only: mset_map mset_sort_by)
  then have "distinct (map fst ?ms)" using vs by (metis mset_eq_imp_distinct_iff)
  then have "map_of ?ms = map_of ?vs" using vs by (simp only: map_of_inject_set set_sort_by)
  then show "map_of ?ms = map_option by_key_length \<circ> map_of ms" by (simp only: map_of_map)
qed

text \<open>
  C27. The rows implement the records: every statement of the saga and outbox repositories writes to the rows
  what stands for the records it leaves, and reads through \<open>toDomain\<close> exactly the records, in their order,
  with the members of their documents.
\<close>

theorem rows_refine_records:
  assumes "codec_law jsonb"
  shows "writes jsonb (insert_saga s) (row_saga_create jsonb s)
    \<and> writes jsonb (set_saga s) (row_saga_update jsonb s)
    \<and> writes jsonb (insert_step st) (row_step_create jsonb st)
    \<and> writes jsonb (set_step st) (row_step_update jsonb st)
    \<and> writes jsonb (insert_event e) (row_event_create jsonb e)
    \<and> writes jsonb (set_event eid (\<lambda>e. e\<lparr>ev_status := OUTBOX_PUBLISHED, ev_processedAt := Some t\<rparr>)) (row_markPublished eid t)
    \<and> writes jsonb (set_event eid (\<lambda>e. e\<lparr>ev_status := OUTBOX_FAILED, ev_retryCount := ev_retryCount e + 1, ev_processedAt := Some t\<rparr>))
        (row_markFailed eid True t)
    \<and> writes jsonb (set_event eid (\<lambda>e. e\<lparr>ev_status := OUTBOX_FAILED, ev_processedAt := Some t\<rparr>)) (row_markFailed eid False t)
    \<and> writes jsonb (set_event eid (\<lambda>e. e\<lparr>ev_status := OUTBOX_PENDING, ev_retryCount := ev_retryCount e + 1\<rparr>)) (row_resetForRetry eid)
    \<and> reads_one jsonb (select_saga (\<lambda>s. saga_id s = sid)) (kept_saga jsonb) (map_option toDomainSaga \<circ> rows_saga sid)
    \<and> reads_one jsonb (select_saga (\<lambda>s. saga_orderId s = oid)) (kept_saga jsonb) (map_option toDomainSaga \<circ> rows_saga_of_order oid)
    \<and> reads jsonb (select_running t m) (kept_saga jsonb) (map toDomainSaga \<circ> rows_running t m)
    \<and> reads jsonb (select_steps sid) (kept_step jsonb) (map toDomainStep \<circ> rows_steps sid)
    \<and> reads jsonb (select_pending n) (kept_event jsonb) (map outbox_toDomain \<circ> rows_pending n)"
  using assms by (intro conjI writes_sagas writes_steps writes_events reads_sagas reads_others)

theorem rows_refine_records_witness:
  "reads by_key_length (select_pending 100) (kept_event by_key_length) (map outbox_toDomain \<circ> rows_pending 100)"
  using rows_refine_records [OF by_key_length_law] by blast

end
