(* ===== verification/Saga_Refund.thy ===== *)
theory Saga_Refund
  imports Saga_Outcome
begin

text \<open>
  The refund of \<open>src/src/domain/services/saga-orchestrator.ts\<close>: two programs that agree in every world
  that satisfies a condition, the payment steps a saga has written, and the proof that the compensation
  a saga starts by itself never reaches the refund.
\<close>


section \<open>Two programs that agree\<close>

text \<open>Two programs that do the same in every world that satisfies a condition.\<close>

definition agree :: "(world \<Rightarrow> bool) \<Rightarrow> 'a io \<Rightarrow> 'a io \<Rightarrow> bool" where
  "agree I m m' \<longleftrightarrow> (\<forall>w. I w \<longrightarrow> m w = m' w)"

lemma agree_refl [simp]: "agree I m m"
  by (simp add: agree_def)

lemma agree_bindM:
  assumes "triple I m J" and "\<And>a. agree (J a) (f a) (f' a)"
  shows "agree I (bindM m f) (bindM m f')"
  unfolding agree_def
proof (intro allI impI)
  fix w assume "I w"
  with assms(1) have "\<forall>a. fst (m w) = Ok a \<longrightarrow> J a (snd (m w))" by (auto simp: triple_def wp_def)
  then show "bindM m f w = bindM m f' w"
    using assms(2) by (auto simp: bindM_def agree_def split: prod.split res.split)
qed

lemma agree_thenM: "triple I m (\<lambda>_. J) \<Longrightarrow> agree J n n' \<Longrightarrow> agree I (thenM m n) (thenM m n')"
  unfolding thenM_def by (rule agree_bindM)

lemma agree_bindR: "(\<And>a. x = Inr a \<Longrightarrow> agree I (f a) (f' a)) \<Longrightarrow> agree I (bindM (liftR x) f) (bindM (liftR x) f')"
  by (cases x) (auto simp: agree_def bindM_def liftR_def ret_def throw_def)

lemma agree_if: "(b \<Longrightarrow> agree I m m') \<Longrightarrow> (\<not> b \<Longrightarrow> agree I n n') \<Longrightarrow> agree I (if b then m else n) (if b then m' else n')"
  by simp

lemma agree_weaken: "agree J m m' \<Longrightarrow> (\<And>w. I w \<Longrightarrow> J w) \<Longrightarrow> agree I m m'"
  by (simp add: agree_def)


section \<open>The steps of a saga\<close>

definition same_steps :: "db \<Rightarrow> db \<Rightarrow> bool" where
  "same_steps d d' \<longleftrightarrow> db_steps d' = db_steps d"

lemma preord_same_steps [simp]: "preord same_steps"
  by (simp add: preord_def same_steps_def)

lemma upholds_same_steps:
  "upholds (on_db same_steps) nowM" "upholds (on_db same_steps) (saga_update s)"
  "upholds (on_db same_steps) (saga_getSteps sid)" "payment_frame ps \<Longrightarrow> upholds (on_db same_steps) (ps_charge ps oid amt tok)"
  "upholds (on_db same_steps) (reserveInventory le pg_inventory_repo (pg_lock_manager sha) oid items)"
proof -
  show "upholds (on_db same_steps) nowM" by (intro upholds_intros ticks_on_db preord_same_steps)
  show "upholds (on_db same_steps) (saga_update s)"
    unfolding saga_update_def
    by (rule upholds_sqlM_Pool [OF preord_same_steps]) (auto simp: stmt_in_def same_steps_def dest!: set_saga_Inr)
  show "upholds (on_db same_steps) (saga_getSteps sid)"
    unfolding saga_getSteps_def
    by (rule upholds_eq_on_db [OF upholds_select preord_same_steps]) (simp add: select_idle)
  show "payment_frame ps \<Longrightarrow> upholds (on_db same_steps) (ps_charge ps oid amt tok)"
    by (rule upholds_payment) simp_all
  have "stmt_in same_steps (reserve_stmt s q)" for s q
    using stock_stmts_Inr by (fastforce simp: stmt_in_def same_steps_def)
  then have "upholds (on_db same_steps) (reserve_item pg_inventory_repo i)" for i
    unfolding reserve_item_def pg_repo_sel inventory_findBySku_def inventory_reserve_def
    by (intro upholds_intros preord_on_db preord_same_steps upholds_eq_on_db [OF upholds_select] select_inventory_idle
        upholds_sqlM_Pool)
  then show "upholds (on_db same_steps) (reserveInventory le pg_inventory_repo (pg_lock_manager sha) oid items)"
    by (rule upholds_reserveInventory_on [OF preord_same_steps])
qed

text \<open>The saga has no completed payment step.\<close>

definition uncharged :: "string \<Rightarrow> world \<Rightarrow> bool" where
  "uncharged sid w \<longleftrightarrow> (\<forall>r \<in> set (db_steps (w_db w)).
     step_sagaId r = sid \<longrightarrow> step_name r = ''PROCESS_PAYMENT'' \<longrightarrow> step_status r \<noteq> STEP_COMPLETED)"

text \<open>A step that is no payment step.\<close>

definition no_payment :: "saga_step_rec \<Rightarrow> world \<Rightarrow> bool" where
  "no_payment st w \<longleftrightarrow> (\<forall>r \<in> set (db_steps (w_db w)). step_id r = step_id st \<longrightarrow> step_name r \<noteq> ''PROCESS_PAYMENT'')"

lemma same_steps_frame: "on_db same_steps w w' \<Longrightarrow> uncharged sid w' = uncharged sid w \<and> no_payment st w' = no_payment st w"
  by (simp add: on_db_def same_steps_def uncharged_def no_payment_def)

lemma triple_uncharged:
  "upholds (on_db same_steps) m \<Longrightarrow> triple (uncharged sid) m (\<lambda>_. uncharged sid)"
  "upholds (on_db same_steps) m \<Longrightarrow> triple (\<lambda>w. uncharged sid w \<and> no_payment st w) m (\<lambda>_ w. uncharged sid w \<and> no_payment st w)"
  by (erule triple_frame, metis same_steps_frame)+

lemma triple_create_uncharged:
  "triple (\<lambda>w. references (w_db w)) (saga_create s) (\<lambda>_. uncharged (saga_id s))"
  unfolding triple_def saga_create_def
  by (intro allI impI, rule wp_mono [OF wp_sql_Pool])
    (auto simp: uncharged_def references_def dest!: insert_saga_Inr, metis image_subset_iff)

lemma triple_createStep:
  assumes "step_status st = STEP_RUNNING"
  shows "triple (uncharged sid) (saga_createStep st)
     (\<lambda>_ w. uncharged sid w \<and> (step_name st \<noteq> ''PROCESS_PAYMENT'' \<longrightarrow> no_payment st w))"
  unfolding triple_def saga_createStep_def
  by (intro allI impI, rule wp_mono [OF wp_sql_Pool])
    (auto simp: uncharged_def no_payment_def assms image_iff dest!: insert_step_Inr, metis)

lemma triple_beginStep:
  "triple (uncharged sid) (beginStep pg_saga_repo sid' n k j) (\<lambda>st w. uncharged sid w \<and> (n \<noteq> ''PROCESS_PAYMENT'' \<longrightarrow> no_payment st w))"
proof -
  have uuid: "upholds (on_db same_steps) uuidM" "upholds (on_db same_steps) nowM"
    by (intro upholds_intros ticks_on_db preord_same_steps)+
  have "triple (uncharged sid) (thenM (saga_createStep st) (ret st)) (\<lambda>st w. uncharged sid w \<and> (n \<noteq> ''PROCESS_PAYMENT'' \<longrightarrow> no_payment st w))"
    if "st = createStep stid sid' n k j t" for st stid t
    using that by (intro triple_thenM [OF triple_createStep] triple_ret) (simp_all add: createStep_def)
  then show ?thesis
    unfolding beginStep_def pg_saga_sel Let_def
    by (intro triple_bindM [OF triple_uncharged(1) [OF uuid(1)]] triple_bindM [OF triple_uncharged(1) [OF uuid(2)]]) simp
qed

lemma triple_updateStep:
  assumes "\<And>w. I w \<Longrightarrow> uncharged sid w \<and> (step_status st = STEP_COMPLETED \<longrightarrow> no_payment st w)"
  shows "triple I (endStep pg_saga_repo st) (\<lambda>_. uncharged sid)"
proof -
  have "triple I (saga_updateStep st) (\<lambda>_. uncharged sid)"
    unfolding triple_def saga_updateStep_def
  proof (intro allI impI, rule wp_mono [OF wp_sql_Pool], goal_cases)
    case (1 w r w')
    have "db_steps (w_db w') = update_all (\<lambda>r. step_id r = step_id st) (\<lambda>r. r\<lparr>step_status := step_status st, step_output := step_output st,
         step_error := step_error st, step_completedAt := step_completedAt st, step_compensation := step_compensation st,
         step_compensationError := step_compensationError st\<rparr>) (db_steps (w_db w))" if "r = Ok a" for a
      using 1(2) that by (auto simp: set_step_def dest!: arg_cong [where f = db_steps and x = "_\<lparr>db_steps := _\<rparr>"])
    with assms [OF 1(1)] show ?case
      by (auto simp: uncharged_def no_payment_def set_update_all split: if_splits)
  qed
  then show ?thesis
    unfolding endStep_def pg_saga_sel by (rule triple_thenM) (auto intro: triple_ret)
qed

lemma uncharged_steps:
  "triple (uncharged sid) (saga_getSteps sid) (\<lambda>steps _. charged_transaction steps = None)"
  unfolding triple_def saga_getSteps_def
  by (intro allI impI, rule wp_mono [OF wp_sql_Pool])
    (auto simp: select_steps_def charged_transaction_def is_step_def uncharged_def find_None_iff split: option.split
      dest!: find_SomeD)


section \<open>Without the refund\<close>

lemma agree_compensate:
  "agree (uncharged sid) (compensate L (pg_orchestrator L' le sha ps) sid c running)
     (compensate L (pg_orchestrator L' le sha (ps\<lparr>ps_refund := rf\<rparr>)) sid c running)"
proof -
  have pay: "compensate_payment L oc c steps = ret ()" if "charged_transaction steps = None" for oc steps
    using that by (simp add: compensate_payment_def)
  have inv: "compensate_inventory (pg_orchestrator L' le sha (ps\<lparr>ps_refund := rf\<rparr>)) c steps
      = compensate_inventory (pg_orchestrator L' le sha ps) c steps" for steps
    unfolding compensate_inventory_def pg_orchestrator_sel ..
  have tx: "status_tx (pg_orchestrator L' le sha (ps\<lparr>ps_refund := rf\<rparr>)) oid st ev = status_tx (pg_orchestrator L' le sha ps) oid st ev" for oid st ev
    by (simp add: status_tx_def fun_eq_iff)
  note up = triple_uncharged(1) [OF upholds_same_steps(2)]
  show ?thesis
    unfolding compensate_def pg_orchestrator_sel pg_saga_sel inv tx
    by (intro agree_bindR agree_thenM [OF up] agree_bindM [OF uncharged_steps]) (auto simp: agree_def pay)
qed

lemma agree_process_payment:
  assumes "payment_frame ps"
  shows "agree (uncharged (saga_id running)) (process_payment L (pg_orchestrator L' le sha ps) c running)
     (process_payment L (pg_orchestrator L' le sha (ps\<lparr>ps_refund := rf\<rparr>)) c running)"
proof -
  let ?u = "uncharged (saga_id running)"
  have "status_tx (pg_orchestrator L' le sha (ps\<lparr>ps_refund := rf\<rparr>)) oid st ev = status_tx (pg_orchestrator L' le sha ps) oid st ev" for oid st ev
    by (simp add: status_tx_def fun_eq_iff)
  then have confirm: "confirm_order (pg_orchestrator L' le sha (ps\<lparr>ps_refund := rf\<rparr>)) c running pr
      = confirm_order (pg_orchestrator L' le sha ps) c running pr" for pr
    by (simp add: confirm_order_def)
  have beg: "triple ?u (beginStep pg_saga_repo (saga_id running) n k j) (\<lambda>_. ?u)" for n k j
    by (rule triple_weaken [OF triple_beginStep]) auto
  have fail: "triple ?u (endStep pg_saga_repo (failStep st e t)) (\<lambda>_. ?u)" for st e t
    by (rule triple_updateStep) (simp add: failStep_def)
  note frame = triple_uncharged(1) [OF upholds_same_steps(1)] triple_uncharged(1) [OF upholds_same_steps(4) [OF assms]]
  show ?thesis
    unfolding process_payment_def pg_orchestrator_sel pg_saga_sel confirm
    by (intro agree_bindM [OF beg] agree_bindR) (simp, intro agree_bindM [OF frame(2)] agree_if agree_bindM [OF frame(1)] agree_bindM [OF fail] agree_compensate agree_refl)
qed



end
