(* ===== verification/Rate_Window.thy ===== *)
theory Rate_Window
  imports Redis_Store
begin

text \<open>
  The rate limiter over a whole window: any sequence of calls of any clients, on a Redis that answers
  (\<open>redis_server\<close>).  The limiter refines an abstract one, a counter per client.
\<close>


section \<open>One call\<close>

text \<open>The clock stays in the window that starts at \<open>ws\<close>, and no counter of the window expires before its end.\<close>

definition in_window :: "app_config \<Rightarrow> int \<Rightarrow> world \<Rightarrow> bool" where
  "in_window cfg ws w \<longleftrightarrow> 0 < rateLimitWindowMs cfg \<and> (\<forall>n \<ge> w_tick w. window_start cfg (e_clock (w_env w) n) = ws)
     \<and> (\<forall>c v t. w_redis w (rate_key c ws) = Some (v, Some t) \<longrightarrow> ws + rateLimitWindowMs cfg \<le> t)"

definition limiter_calls :: "int \<Rightarrow> world \<Rightarrow> string \<Rightarrow> int" where
  "limiter_calls ws w c = counter (rate_key c ws) w"

lemma rate_key_inject [simp]: "rate_key c ws = rate_key c' ws \<longleftrightarrow> c = c'"
  by (simp add: rate_key_def)

lemma clock_in_window:
  assumes "in_window cfg ws w" "w_tick w \<le> n"
  shows "e_clock (w_env w) n < ws + rateLimitWindowMs cfg"
proof -
  have "e_clock (w_env w) n div rateLimitWindowMs cfg * rateLimitWindowMs cfg = ws" "0 < rateLimitWindowMs cfg"
    using assms by (auto simp: in_window_def window_start_def)
  then show ?thesis
    using pos_mod_bound [of "rateLimitWindowMs cfg" "e_clock (w_env w) n"] div_mult_mod_eq [of "e_clock (w_env w) n" "rateLimitWindowMs cfg"]
    by linarith
qed

lemma alive_in_window: "in_window cfg ws w \<Longrightarrow> alive (rate_key c ws) w"
  using clock_in_window unfolding alive_def in_window_def by (meson order_less_le_trans)

text \<open>A counter of the window is written: the clock moves on, the others stay.\<close>

lemma in_window_write:
  assumes "in_window cfg ws w" "redis_to ((w_redis w)(rate_key c ws := x)) w w'"
    and "\<And>v t. x = Some (v, Some t) \<Longrightarrow> ws + rateLimitWindowMs cfg \<le> t"
  shows "in_window cfg ws w'"
  using assms redis_to_sel [OF assms(2)] order_trans unfolding in_window_def by (auto simp: fun_upd_apply split: if_splits)

lemma limiter_calls_write:
  assumes "redis_to ((w_redis w)(rate_key c ws \<mapsto> (v, t))) w w'"
  shows "limiter_calls ws w' = (limiter_calls ws w)(c := int (number_of v))"
  using redis_to_sel(1) [OF assms] by (auto simp: limiter_calls_def counter_def fun_eq_iff)

text \<open>What a call answers when \<open>n\<close> calls of the client have been counted.\<close>

definition limiter_answer :: "app_config \<Rightarrow> int \<Rightarrow> int \<Rightarrow> rate_limit_result" where
  "limiter_answer cfg ws n = \<lparr>rl_allowed = (n \<le> rateLimitMax cfg), rl_remaining = max 0 (rateLimitMax cfg - n),
     rl_resetTime = ws + rateLimitWindowMs cfg\<rparr>"

definition only_key :: "string \<Rightarrow> world \<Rightarrow> world \<Rightarrow> bool" where
  "only_key k w w' \<longleftrightarrow> (\<exists>x. redis_to ((w_redis w)(k := x)) w w')"

lemma only_key_trans: "only_key k w w' \<Longrightarrow> only_key k w' w'' \<Longrightarrow> only_key k w w''"
  unfolding only_key_def using redis_to_trans redis_to_sel(1) by (metis fun_upd_upd)

lemma only_key_tick: "only_key k w (tick w)"
  unfolding only_key_def by (metis fun_upd_triv redis_to_tick)

context redis_server
begin

lemma isAllowed_counts:
  assumes q: "quiet w" and win: "in_window cfg ws w"
  shows "wp (isAllowed C cfg c) (\<lambda>r w'. r = Ok (limiter_answer cfg ws (limiter_calls ws w c + 1)) \<and> limiter_calls ws w' = (limiter_calls ws w)(c := limiter_calls ws w c + 1)
     \<and> in_window cfg ws w' \<and> only_key (rate_key c ws) w w' \<and> w_tick w' \<le> w_tick w + 3) w"
proof -
  let ?k = "rate_key c ws"
  have ws: "window_start cfg (e_clock (w_env w) (w_tick w)) = ws" using win by (simp add: in_window_def)
  have q1: "quiet (tick w)" and win1: "in_window cfg ws (tick w)" and calls1: "limiter_calls ws (tick w) = limiter_calls ws w"
    using q win by (simp_all add: in_window_def limiter_calls_def fun_eq_iff)
  show ?thesis
    unfolding isAllowed_def wp_bindM [of nowM] wp_nowM res.case Let_def ws wp_catchM wp_bindM [of "rd_incr _ _"]
  proof (rule wp_mono [OF incr_counts [OF q1 alive_in_window [OF win1]]], elim conjE exE, goal_cases)
    case (1 r w2 v)
    note up = redis_to_sel [OF 1(4)]
    have time: "w_tick w2 = w_tick w + 2" using 1(2) by simp
    have n: "r = Ok (limiter_calls ws w c + 1)" "int (number_of v) = limiter_calls ws w c + 1"
      using 1(1,3) calls1 by (simp_all add: limiter_calls_def)
    have q2: "quiet w2" using up q1 by simp
    have win2: "in_window cfg ws w2"
      by (rule in_window_write [OF win1 1(4)]) (use win1 in \<open>auto simp: in_window_def bind_eq_Some_conv\<close>)
    have calls2: "limiter_calls ws w2 = (limiter_calls ws w)(c := limiter_calls ws w c + 1)" using limiter_calls_write [OF 1(4)] n calls1 by simp
    have "only_key ?k (tick w) w2" using 1(4) unfolding only_key_def by blast
    then have only2: "only_key ?k w w2" by (rule only_key_trans [OF only_key_tick])
    have fin: "wp (ret \<lparr>rl_allowed = (limiter_calls ws w c + 1 \<le> rateLimitMax cfg), rl_remaining = max 0 (rateLimitMax cfg - (limiter_calls ws w c + 1)),
          rl_resetTime = ws + rateLimitWindowMs cfg\<rparr>)
        (\<lambda>r w'. r = Ok (limiter_answer cfg ws (limiter_calls ws w c + 1)) \<and> limiter_calls ws w' = (limiter_calls ws w)(c := limiter_calls ws w c + 1)
          \<and> in_window cfg ws w' \<and> only_key ?k w w' \<and> w_tick w' \<le> w_tick w + 3) w3"
      if "limiter_calls ws w3 = (limiter_calls ws w)(c := limiter_calls ws w c + 1)" "in_window cfg ws w3" "only_key ?k w w3" "w_tick w3 \<le> w_tick w + 3" for w3
      using that by (simp add: wp_ret limiter_answer_def)
    show ?case
    proof (cases "limiter_calls ws w c + 1 = 1")
      case True
      have x: "\<forall>n \<ge> w_tick w2. e_clock (w_env w2) n < ws + rateLimitWindowMs cfg" using clock_in_window [OF win2] by blast
      show ?thesis
        unfolding n(1) res.case True wp_thenM wp_whenM simp_thms(6) if_True
      proof (rule wp_mono [OF expireat_kept [OF q2 alive_in_window [OF win2] x]], elim conjE, goal_cases)
        case (1 r3 w3)
        obtain t where k2: "w_redis w2 ?k = Some (v, t)" using up(1) by simp
        have "in_window cfg ws w3"
          by (rule in_window_write [OF win2 1(2)]) (auto split: option.splits)
        moreover have "limiter_calls ws w3 = limiter_calls ws w2" using redis_to_sel(1) [OF 1(2)] k2 by (auto simp: limiter_calls_def counter_def fun_eq_iff)
        moreover have "only_key ?k w2 w3" using 1(2) unfolding only_key_def by blast
        ultimately show ?case
          using fin [of w3] calls2 only_key_trans [OF only2] by (simp add: 1(1,3) time True wp_ret)
      qed
    next
      case False
      then show ?thesis
        unfolding n(1) res.case wp_thenM wp_whenM if_not_P [OF False] using fin [OF calls2 win2 only2] time by (simp add: wp_ret)
    qed
  qed
qed

end


section \<open>A sequence of calls\<close>

fun limiter_run :: "redis_client \<Rightarrow> app_config \<Rightarrow> string list \<Rightarrow> rate_limit_result list io" where
  "limiter_run C cfg [] = ret []"
| "limiter_run C cfg (c # cs) = bindM (isAllowed C cfg c) (\<lambda>r. bindM (limiter_run C cfg cs) (\<lambda>rs. ret (r # rs)))"

text \<open>The abstract limiter: a counter per client.\<close>

fun limiter_answers :: "app_config \<Rightarrow> int \<Rightarrow> (string \<Rightarrow> int) \<Rightarrow> string list \<Rightarrow> rate_limit_result list" where
  "limiter_answers cfg ws f [] = []"
| "limiter_answers cfg ws f (c # cs) = limiter_answer cfg ws (f c + 1) # limiter_answers cfg ws (f(c := f c + 1)) cs"

definition granted :: "string \<Rightarrow> string list \<Rightarrow> rate_limit_result list \<Rightarrow> nat" where
  "granted c cs rs = length (filter (\<lambda>(c', r). c' = c \<and> rl_allowed r) (zip cs rs))"

lemma length_limiter_answers [simp]: "length (limiter_answers cfg ws f cs) = length cs"
  by (induction cs arbitrary: f) simp_all

lemma granted_limiter_answers:
  "granted c cs (limiter_answers cfg ws f cs) = min (count_list cs c) (nat (rateLimitMax cfg - f c))"
  by (induction cs arbitrary: f) (auto simp: granted_def limiter_answer_def)

lemma nth_limiter_answers:
  "i < length cs \<Longrightarrow> limiter_answers cfg ws f cs ! i = limiter_answer cfg ws (f (cs ! i) + int (count_list (take (Suc i) cs) (cs ! i)))"
  by (induction cs arbitrary: f i) (auto simp: nth_Cons add.assoc split: nat.split)

context redis_server
begin

lemma limiter_refines:
  "quiet w \<Longrightarrow> in_window cfg ws w \<Longrightarrow> wp (limiter_run C cfg cs) (\<lambda>r w'. r = Ok (limiter_answers cfg ws (limiter_calls ws w) cs)) w"
proof (induction cs arbitrary: w)
  case Nil
  then show ?case by (simp add: wp_ret)
next
  case (Cons c cs)
  show ?case
    unfolding limiter_run.simps wp_bindM
  proof (rule wp_mono [OF isAllowed_counts [OF Cons.prems]], elim conjE, goal_cases)
    case (1 r w1)
    have q1: "quiet w1" using 1(4) Cons.prems(1) redis_to_sel by (auto simp: only_key_def)
    show ?case
      unfolding 1(1) res.case by (rule wp_mono [OF Cons.IH [OF q1 1(3)]]) (simp add: 1(2) wp_ret fun_upd_def)
  qed
qed

end


section \<open>The property\<close>

text \<open>
  C19. A window of the rate limiter: in any sequence of calls, of any clients in any order, made while the
  clock stays in one window and Redis answers, each client is let through exactly as often as its counter
  leaves room below the maximum (or as often as it calls), the i-th answer being decided by how many
  calls the client had made; the clients do not disturb one another.
\<close>

theorem rate_limit_window:
  assumes "redis_server C" and "quiet w" and "in_window cfg ws w"
  shows "wp (limiter_run C cfg cs) (\<lambda>r w'. \<exists>rs. r = Ok rs \<and> length rs = length cs
     \<and> (\<forall>c. granted c cs rs = min (count_list cs c) (nat (rateLimitMax cfg - counter (rate_key c ws) w)))
     \<and> (\<forall>i < length cs. let n = counter (rate_key (cs ! i) ws) w + int (count_list (take (Suc i) cs) (cs ! i)) in
          rs ! i = \<lparr>rl_allowed = (n \<le> rateLimitMax cfg), rl_remaining = max 0 (rateLimitMax cfg - n),
                    rl_resetTime = ws + rateLimitWindowMs cfg\<rparr>)) w"
  by (rule wp_mono [OF redis_server.limiter_refines [OF assms]])
    (simp add: granted_limiter_answers nth_limiter_answers limiter_calls_def Let_def limiter_answer_def)

theorem rate_limit_window_witness:
  "wp (limiter_run mem_redis (example_config\<lparr>rateLimitMax := 2, rateLimitWindowMs := 1000\<rparr>) [''a'', ''b'', ''a'', ''a'', ''b''])
     (\<lambda>r w'. \<exists>rs. r = Ok rs \<and> granted ''a'' [''a'', ''b'', ''a'', ''a'', ''b''] rs = 2)
     (world_of (quiet_env\<lparr>e_clock := \<lambda>_. 5500\<rparr>) empty_db)"
  by (rule wp_mono [OF rate_limit_window [where ws = 5000, OF mem.redis_server_axioms]])
    (auto simp: quiet_def quiet_env_def world_of_def in_window_def window_start_def counter_def)

end
