(* ===== verification/Json_Parse.thy ===== *)
theory Json_Parse
  imports Webhooks
begin

text \<open>
  \<open>JSON.parse\<close>, which the idempotency store and its middleware use (\<open>idempotency-store.ts\<close>,
  \<open>idempotency.ts\<close>), on strings of code units below 256: the grammar of JSON with white space, escapes and
  repeated members, of which the last counts.  A number that is not an integer of at most 53 bits is
  rounded to a double by the parameter \<open>pn\<close>.  What \<open>JSON.stringify\<close> prints is read back.
\<close>


section \<open>Strings\<close>

definition hex4 :: "char \<Rightarrow> char \<Rightarrow> char \<Rightarrow> char \<Rightarrow> nat option" where
  "hex4 a b c d =
     (case (hex_value a, hex_value b, hex_value c, hex_value d) of
        (Some w, Some x, Some y, Some z) \<Rightarrow> Some (4096 * w + 256 * x + 16 * y + z)
      | _ \<Rightarrow> None)"

text \<open>The character a letter after the backslash stands for.\<close>

definition unescape :: "char \<Rightarrow> char option" where
  "unescape e =
     (if e = CHR 0x22 \<or> e = CHR 0x5C \<or> e = CHR ''/'' then Some e
      else if e = CHR ''b'' then Some (CHR 0x08)
      else if e = CHR ''f'' then Some (CHR 0x0C)
      else if e = CHR ''n'' then Some (CHR 0x0A)
      else if e = CHR ''r'' then Some (CHR 0x0D)
      else if e = CHR ''t'' then Some (CHR 0x09)
      else None)"

text \<open>The rest of a string after its opening quote; a unit above 255 is not represented.\<close>

fun read_string :: "string \<Rightarrow> (string \<times> string) option" where
  "read_string [] = None"
| "read_string (c # s) =
     (if c = CHR 0x22 then Some ([], s)
      else if c = CHR 0x5C
      then (case s of
              [] \<Rightarrow> None
            | e # s1 \<Rightarrow>
                if e = CHR ''u''
                then (case s1 of
                        w # x # y # z # s2 \<Rightarrow>
                          (case hex4 w x y z of
                             Some n \<Rightarrow> if n < 256 then map_option (\<lambda>(t, r). (char_of n # t, r)) (read_string s2) else None
                           | None \<Rightarrow> None)
                      | _ \<Rightarrow> None)
                else (case unescape e of
                        Some d \<Rightarrow> map_option (\<lambda>(t, r). (d # t, r)) (read_string s1)
                      | None \<Rightarrow> None))
      else if of_char c < (32 :: nat) then None
      else map_option (\<lambda>(t, r). (c # t, r)) (read_string s))"

lemma read_escape: "read_string (escape_char c @ s) = map_option (\<lambda>(t, r). (c # t, r)) (read_string s)"
proof (cases "c \<in> {CHR 0x22, CHR 0x5C, CHR 0x08, CHR 0x0C, CHR 0x0A, CHR 0x0D, CHR 0x09} \<or> 32 \<le> (of_char c :: nat)")
  case True
  then show ?thesis by (auto simp: escape_char_def unescape_def)
next
  case False
  let ?n = "of_char c :: nat"
  have n: "?n < 32" "?n div 16 < 16" "?n mod 16 < 16" using False by auto
  have "hex_value (CHR ''0'') = Some 0" by code_simp
  then have "hex4 (CHR ''0'') (CHR ''0'') (hex_digit (?n div 16)) (hex_digit (?n mod 16)) = Some ?n"
    using n by (simp add: hex4_def hex_value_digit)
  then show ?thesis using False n by (simp add: escape_char_def)
qed

lemma read_quoted: "read_string (concat (map escape_char s) @ CHR 0x22 # r) = Some (s, r)"
  by (induction s) (simp_all add: read_escape)


section \<open>Numbers\<close>

definition num_char :: "char \<Rightarrow> bool" where
  "num_char c \<longleftrightarrow> is_digit c \<or> c \<in> set ''+-.eE''"

definition digits_ok :: "string \<Rightarrow> bool" where
  "digits_ok ds \<longleftrightarrow> ds \<noteq> [] \<and> list_all is_digit ds \<and> (1 < length ds \<longrightarrow> hd ds \<noteq> CHR ''0'')"

definition read_number :: "(string \<Rightarrow> js_number option) \<Rightarrow> string \<Rightarrow> js_number option" where
  "read_number pn s =
     (let neg = (s \<noteq> [] \<and> hd s = CHR ''-''); ds = (if neg then tl s else s);
          k = (if neg then - int (number_of ds) else int (number_of ds))
      in if digits_ok ds \<and> \<bar>k\<bar> \<le> 2 ^ 53 then Some (Whole k) else pn s)"

lemma digits_of_head: "0 < n \<Longrightarrow> hd (digits_of n) \<noteq> CHR ''0''"
proof (induction n rule: digits_of.induct)
  case (1 n)
  have d: "digit_char n \<noteq> CHR ''0''" if "n < 10"
    using digit_char_props(1) [OF that] 1(2) by (auto simp: digit_val_def)
  show ?case
    by (subst digits_of.simps) (use 1 d in auto)
qed

lemma digits_of_ok: "digits_ok (digits_of n)"
proof (cases n)
  case 0
  then show ?thesis by (subst digits_of.simps) (simp add: digits_ok_def digit_char_props)
next
  case (Suc m)
  then show ?thesis using digits_of_head [of n] digits_of_digits [of n] by (simp add: digits_ok_def list_all_iff)
qed

lemma read_int_string:
  assumes "\<bar>k\<bar> \<le> 2 ^ 53"
  shows "read_number pn (int_string k) = Some (Whole k)"
proof -
  have "hd (digits_of n) \<noteq> CHR ''-''" for n
    using digits_of_digits [of n] digit_not_minus [of "hd (digits_of n)"] by (simp add: list.set_sel(1))
  then show ?thesis
    using assms by (auto simp: read_number_def int_string_def Let_def digits_of_ok)
qed

lemma int_string_chars: "c \<in> set (int_string k) \<Longrightarrow> num_char c"
  using digits_of_digits by (auto simp: int_string_def num_char_def split: if_splits)


section \<open>Values\<close>

definition is_space :: "char \<Rightarrow> bool" where
  "is_space c \<longleftrightarrow> c = CHR 0x20 \<or> c = CHR 0x09 \<or> c = CHR 0x0A \<or> c = CHR 0x0D"

definition skip :: "string \<Rightarrow> string" where
  "skip s = dropWhile is_space s"

text \<open>A member that comes again takes its new value in its old place.\<close>

fun put_member :: "string \<Rightarrow> json \<Rightarrow> (string \<times> json) list \<Rightarrow> (string \<times> json) list" where
  "put_member k v [] = [(k, v)]"
| "put_member k v ((k', v') # kvs) = (if k = k' then (k, v) # kvs else (k', v') # put_member k v kvs)"

definition object_of :: "(string \<times> json) list \<Rightarrow> json" where
  "object_of kvs = JObj (foldl (\<lambda>acc (k, v). put_member k v acc) [] kvs)"

lemma put_member_new: "k \<notin> fst ` set kvs \<Longrightarrow> put_member k v kvs = kvs @ [(k, v)]"
  by (induction kvs) force+

lemma object_of_distinct: "distinct (map fst kvs) \<Longrightarrow> object_of kvs = JObj kvs"
proof -
  have "distinct (map fst (acc @ kvs)) \<Longrightarrow> foldl (\<lambda>acc (k, v). put_member k v acc) acc kvs = acc @ kvs" for acc
    by (induction kvs arbitrary: acc) (auto simp: put_member_new)
  from this [of "[]"] show "distinct (map fst kvs) \<Longrightarrow> object_of kvs = JObj kvs" by (simp add: object_of_def)
qed

text \<open>The first argument bounds the depth of the calls; \<open>json_parse\<close> starts with enough of it.\<close>

fun read_value :: "(string \<Rightarrow> js_number option) \<Rightarrow> nat \<Rightarrow> string \<Rightarrow> (json \<times> string) option"
  and read_items :: "(string \<Rightarrow> js_number option) \<Rightarrow> nat \<Rightarrow> string \<Rightarrow> (json list \<times> string) option"
  and read_members :: "(string \<Rightarrow> js_number option) \<Rightarrow> nat \<Rightarrow> string \<Rightarrow> ((string \<times> json) list \<times> string) option" where
  "read_value pn 0 s = None"
| "read_value pn (Suc n) s =
     (case skip s of
        [] \<Rightarrow> None
      | c # r \<Rightarrow>
          if c = CHR 0x22 then map_option (\<lambda>(t, r'). (JStr t, r')) (read_string r)
          else if c = CHR ''[''
          then (case skip r of
                  [] \<Rightarrow> None
                | d # r' \<Rightarrow> if d = CHR '']'' then Some (JArr [], r')
                            else map_option (\<lambda>(vs, t). (JArr vs, t)) (read_items pn n r))
          else if c = CHR ''{''
          then (case skip r of
                  [] \<Rightarrow> None
                | d # r' \<Rightarrow> if d = CHR ''}'' then Some (JObj [], r')
                            else map_option (\<lambda>(kvs, t). (object_of kvs, t)) (read_members pn n r))
          else if take 4 (c # r) = ''null'' then Some (JNull, drop 4 (c # r))
          else if take 4 (c # r) = ''true'' then Some (JBool True, drop 4 (c # r))
          else if take 5 (c # r) = ''false'' then Some (JBool False, drop 5 (c # r))
          else if num_char c
          then map_option (\<lambda>q. (JNum q, dropWhile num_char r)) (read_number pn (takeWhile num_char (c # r)))
          else None)"
| "read_items pn 0 s = None"
| "read_items pn (Suc n) s =
     (case read_value pn n s of
        None \<Rightarrow> None
      | Some (v, r) \<Rightarrow>
          (case skip r of
             [] \<Rightarrow> None
           | d # r' \<Rightarrow> if d = CHR '']'' then Some ([v], r')
                       else if d = CHR '','' then map_option (\<lambda>(vs, t). (v # vs, t)) (read_items pn n r')
                       else None))"
| "read_members pn 0 s = None"
| "read_members pn (Suc n) s =
     (case skip s of
        [] \<Rightarrow> None
      | c # r \<Rightarrow>
          if c \<noteq> CHR 0x22 then None
          else (case read_string r of
                  None \<Rightarrow> None
                | Some (k, r1) \<Rightarrow>
                    (case skip r1 of
                       [] \<Rightarrow> None
                     | d # r2 \<Rightarrow>
                         if d \<noteq> CHR '':'' then None
                         else (case read_value pn n r2 of
                                 None \<Rightarrow> None
                               | Some (v, r3) \<Rightarrow>
                                   (case skip r3 of
                                      [] \<Rightarrow> None
                                    | e # r4 \<Rightarrow>
                                        if e = CHR ''}'' then Some ([(k, v)], r4)
                                        else if e = CHR '','' then map_option (\<lambda>(kvs, t). ((k, v) # kvs, t)) (read_members pn n r4)
                                        else None)))))"

definition json_parse :: "(string \<Rightarrow> js_number option) \<Rightarrow> string \<Rightarrow> json option" where
  "json_parse pn s =
     (case read_value pn (2 * length s + 1) s of
        Some (j, r) \<Rightarrow> if skip r = [] then Some j else None
      | None \<Rightarrow> None)"

section \<open>The depth suffices\<close>

text \<open>Every reader consumes input, so that a depth of twice the length of the text is never used up.\<close>

lemma skip_length: "length (skip s) \<le> length s"
  by (simp add: skip_def length_dropWhile_le)

lemma skip_Cons: "skip s = c # r \<Longrightarrow> length r < length s"
  using skip_length [of s] by simp

lemma read_string_consumes: "read_string s = Some (t, r) \<Longrightarrow> length r < length s"
  by (induction s arbitrary: t r rule: read_string.induct) (fastforce split: if_splits option.splits list.splits)+

lemma reads_consume:
  "read_value pn n s = Some (v, r) \<Longrightarrow> length r < length s"
  "read_items pn n s = Some (vs, r) \<Longrightarrow> length r < length s"
  "read_members pn n s = Some (kvs, r) \<Longrightarrow> length r < length s"
proof (induction pn n s and pn n s and pn n s arbitrary: v r and vs r and kvs r rule: read_value_read_items_read_members.induct)
  case (2 pn n s)
  then obtain c t where ct: "skip s = c # t" by (auto split: list.splits)
  note len = skip_Cons [OF ct]
  have "length (dropWhile num_char t) \<le> length t" by (rule length_dropWhile_le)
  then show ?case
    using 2 len read_string_consumes unfolding read_value.simps ct list.case
    by (fastforce dest: skip_Cons split: if_splits list.splits)
next
  case (4 pn n s)
  then show ?case by (fastforce dest!: skip_Cons split: if_splits list.splits option.splits)
next
  case (6 pn n s)
  then show ?case by (fastforce dest!: skip_Cons read_string_consumes split: if_splits list.splits option.splits)
qed simp_all

lemma depth_suffices:
  shows "2 * length s < n \<Longrightarrow> 2 * length s < m \<Longrightarrow> read_value pn n s = read_value pn m s"
    and "2 * length s + 1 < n \<Longrightarrow> 2 * length s + 1 < m \<Longrightarrow> read_items pn n s = read_items pn m s"
    and "2 * length s + 1 < n \<Longrightarrow> 2 * length s + 1 < m \<Longrightarrow> read_members pn n s = read_members pn m s"
proof (induction s arbitrary: n m rule: length_induct)
  case (1 s)
  have items: "read_items pn n r = read_items pn m r" and members: "read_members pn n r = read_members pn m r"
    and val: "read_value pn n r = read_value pn m r"
    if "length r < length s" "2 * length s \<le> n" "2 * length s \<le> m" for r n m
    using 1(1) that by simp_all
  have v: "read_value pn n s = read_value pn m s" if nm: "2 * length s < n" "2 * length s < m" for n m
  proof -
    obtain a b where ab: "n = Suc a" "m = Suc b" "2 * length s \<le> a" "2 * length s \<le> b" using nm by (cases n; cases m) auto
    show ?thesis
    proof (cases "skip s")
      case (Cons c r)
      then show ?thesis unfolding ab(1,2) using items [of r a b] members [of r a b] skip_Cons [OF Cons] ab(3,4) by (simp split: list.split)
    qed (simp add: ab)
  qed
  {
    case 1
    then show ?case by (rule v)
  next
    case 2
    then obtain a b where ab: "n = Suc a" "m = Suc b" "2 * length s < a" "2 * length s < b" by (cases n; cases m) auto
    have "read_items pn a t = read_items pn b t" if "read_value pn b s = Some (x, r)" "skip r = c # t" for x r c t
      by (rule items) (use that ab reads_consume(1) [OF that(1)] skip_Cons [OF that(2)] in auto)
    then show ?case unfolding ab(1,2) read_items.simps v [OF ab(3,4)] by (auto split: option.split list.split)
  next
    case 3
    then obtain a b where ab: "n = Suc a" "m = Suc b" "2 * length s < a" "2 * length s < b" by (cases n; cases m) auto
    have short: "length r2 < length s"
      if "skip s = c # r" "read_string r = Some (k, r1)" "skip r1 = d # r2" for c r k r1 d r2
      using skip_Cons [OF that(1)] read_string_consumes [OF that(2)] skip_Cons [OF that(3)] by simp
    have "read_value pn a r2 = read_value pn b r2"
      "read_value pn b r2 = Some (x, r3) \<Longrightarrow> skip r3 = e # r4 \<Longrightarrow> read_members pn a r4 = read_members pn b r4"
      if "skip s = c # r" "read_string r = Some (k, r1)" "skip r1 = d # r2" for c r k r1 d r2 x r3 e r4
      using short [OF that] reads_consume(1) [of pn b r2 x r3] skip_Cons [of r3 e r4] ab(3,4)
      by (auto intro!: val members)
    then show ?case unfolding ab(1,2) read_members.simps by (auto split: option.split list.split)
  }
qed

section \<open>What is printed is read back\<close>

text \<open>The values that JSON carries unchanged: integers of 53 bits, no member twice.\<close>

primrec plain :: "json \<Rightarrow> bool" where
  "plain JNull = True"
| "plain (JBool b) = True"
| "plain (JNum q) = (case q of Whole k \<Rightarrow> \<bar>k\<bar> \<le> 2 ^ 53 | _ \<Rightarrow> False)"
| "plain (JStr s) = True"
| "plain (JArr vs) = list_all id (map plain vs)"
| "plain (JObj kvs) = (distinct (map fst kvs) \<and> list_all snd (map (map_prod id plain) kvs))"

definition ends :: "string \<Rightarrow> bool" where
  "ends r \<longleftrightarrow> r = [] \<or> \<not> num_char (hd r)"

lemma ends_simps [simp]: "ends []" "ends (CHR '','' # r)" "ends (CHR '']'' # r)" "ends (CHR ''}'' # r)"
proof -
  have "\<not> num_char (CHR '','')" "\<not> num_char (CHR '']'')" "\<not> num_char (CHR ''}'')" by code_simp+
  then show "ends []" "ends (CHR '','' # r)" "ends (CHR '']'' # r)" "ends (CHR ''}'' # r)" by (simp_all add: ends_def)
qed

lemma takeWhile_chars:
  "\<forall>c \<in> set s. P c \<Longrightarrow> r = [] \<or> \<not> P (hd r) \<Longrightarrow> takeWhile P (s @ r) = s \<and> dropWhile P (s @ r) = r"
  by (cases r) (auto simp: takeWhile_append2 dropWhile_append2)

lemma num_char_head:
  assumes "num_char c"
  shows "c \<noteq> CHR 0x22" "c \<noteq> CHR ''[''" "c \<noteq> CHR ''{''" "c \<noteq> CHR ''n''" "c \<noteq> CHR ''t''" "c \<noteq> CHR ''f''" "\<not> is_space c"
    "c \<noteq> CHR '']''"
proof -
  have "\<forall>d \<in> set [CHR 0x22, CHR ''['', CHR ''{'', CHR ''n'', CHR ''t'', CHR ''f'', CHR 0x20, CHR 0x09, CHR 0x0A, CHR 0x0D, CHR '']''].
      \<not> num_char d" by code_simp
  then show "c \<noteq> CHR 0x22" "c \<noteq> CHR ''[''" "c \<noteq> CHR ''{''" "c \<noteq> CHR ''n''" "c \<noteq> CHR ''t''" "c \<noteq> CHR ''f''" "\<not> is_space c"
    "c \<noteq> CHR '']''"
    using assms by (auto simp: is_space_def)
qed

lemma read_value_number:
  assumes "\<bar>k\<bar> \<le> 2 ^ 53" and "ends r"
  shows "read_value pn (Suc n) (int_string k @ r) = Some (JNum (Whole k), r)"
proof -
  obtain c t where ct: "int_string k = c # t"
    by (cases "int_string k") (auto simp: int_string_def split: if_splits)
  have all: "\<forall>c \<in> set (int_string k). num_char c" using int_string_chars by blast
  then have c: "num_char c" using ct by simp
  have "takeWhile num_char (c # t @ r) = c # t" "dropWhile num_char (t @ r) = r"
    using takeWhile_chars [of "int_string k" num_char r] takeWhile_chars [of t num_char r] all assms(2) ct
    by (simp_all add: ends_def)
  moreover have "skip (c # t @ r) = c # t @ r" using num_char_head [OF c] by (simp add: skip_def)
  ultimately show ?thesis
    using num_char_head [OF c] c read_int_string [OF assms(1), of pn] ct by simp
qed

lemma stringify_head:
  "plain j \<Longrightarrow> \<exists>c t. stringify ps j = c # t \<and> \<not> is_space c \<and> c \<noteq> CHR '']''"
proof (cases j)
  case (JNum q)
  assume "plain j"
  then obtain k where q: "q = Whole k" using JNum by (cases q) auto
  obtain c t where ct: "int_string k = c # t"
    by (cases "int_string k") (auto simp: int_string_def split: if_splits)
  then have "num_char c" using int_string_chars [of c k] by simp
  then show ?thesis using num_char_head [of c] ct JNum q by (simp add: number_string_def)
qed (auto simp: is_space_def quote_string_def)

lemma skip_stringify: "plain j \<Longrightarrow> skip (stringify ps j @ r) = stringify ps j @ r"
  using stringify_head [of j ps] by (auto simp: skip_def)

lemma commas_Cons: "commas (s # ss) = s @ (if ss = [] then [] else CHR '','' # commas ss)"
  by (cases ss) simp_all

lemma skip_delim [simp]: "skip (CHR '','' # r) = CHR '','' # r" "skip (CHR '']'' # r) = CHR '']'' # r"
  "skip (CHR ''}'' # r) = CHR ''}'' # r" "skip (CHR '':'' # r) = CHR '':'' # r" "skip (CHR 0x22 # r) = CHR 0x22 # r"
  "skip (CHR ''['' # r) = CHR ''['' # r" "skip (CHR ''{'' # r) = CHR ''{'' # r"
  by (simp_all add: skip_def is_space_def)

definition reads :: "(rat \<Rightarrow> string) \<Rightarrow> (string \<Rightarrow> js_number option) \<Rightarrow> json \<Rightarrow> bool" where
  "reads ps pn j \<longleftrightarrow> (\<forall>n r. 2 * length (stringify ps j) \<le> n \<longrightarrow> ends r \<longrightarrow> read_value pn n (stringify ps j @ r) = Some (j, r))"

lemma readsD: "reads ps pn j \<Longrightarrow> 2 * length (stringify ps j) \<le> n \<Longrightarrow> ends r \<Longrightarrow> read_value pn n (stringify ps j @ r) = Some (j, r)"
  by (simp add: reads_def)

lemma read_items_stringify:
  assumes "\<And>x. x \<in> set (v # vs) \<Longrightarrow> reads ps pn x" and "2 * length (commas (map (stringify ps) (v # vs))) < n"
  shows "read_items pn n (commas (map (stringify ps) (v # vs)) @ CHR '']'' # r) = Some (v # vs, r)"
  using assms
proof (induction vs arbitrary: v n)
  case Nil
  then obtain m where "n = Suc m" "2 * length (stringify ps v) \<le> m" by (cases n) auto
  then show ?case using readsD [OF Nil(1) [of v], of m "CHR '']'' # r"] by simp
next
  case (Cons x xs)
  then obtain m where n: "n = Suc m" by (cases n) auto
  let ?t = "commas (map (stringify ps) (x # xs))"
  have eq: "commas (map (stringify ps) (v # x # xs)) = stringify ps v @ CHR '','' # ?t" by (simp add: commas_Cons)
  have len: "2 * length (stringify ps v) \<le> m" "2 * length ?t < m" using Cons.prems(2) unfolding eq n by simp_all
  have v: "read_value pn m (stringify ps v @ CHR '','' # ?t @ CHR '']'' # r) = Some (v, CHR '','' # ?t @ CHR '']'' # r)"
    by (rule readsD) (use Cons.prems(1) len in simp_all)
  have "read_items pn m (?t @ CHR '']'' # r) = Some (x # xs, r)"
    by (rule Cons.IH) (use Cons.prems(1) len in auto)
  then show ?case unfolding eq n using v by simp
qed

abbreviation member_strings :: "(rat \<Rightarrow> string) \<Rightarrow> (string \<times> json) list \<Rightarrow> string list" where
  "member_strings ps kvs \<equiv> map (\<lambda>kv. quote_string (fst kv) @ '':'' @ snd kv) (map (map_prod id (stringify ps)) kvs)"

lemma read_member:
  assumes "reads ps pn v" and "2 * length (stringify ps v) \<le> m" and "ends r"
  shows "read_members pn (Suc m) (quote_string k @ '':'' @ stringify ps v @ r) =
    (case skip r of [] \<Rightarrow> None
     | e # r4 \<Rightarrow> if e = CHR ''}'' then Some ([(k, v)], r4)
                else if e = CHR '','' then map_option (\<lambda>(kvs, t). ((k, v) # kvs, t)) (read_members pn m r4) else None)"
  using readsD [OF assms] by (simp add: quote_string_def read_quoted)

lemma read_members_stringify:
  assumes "\<And>kv. kv \<in> set (p # kvs) \<Longrightarrow> reads ps pn (snd kv)" and "2 * length (commas (member_strings ps (p # kvs))) < n"
  shows "read_members pn n (commas (member_strings ps (p # kvs)) @ CHR ''}'' # r) = Some (p # kvs, r)"
  using assms
proof (induction kvs arbitrary: p n)
  case Nil
  then obtain m where n: "n = Suc m" "2 * length (stringify ps (snd p)) \<le> m" by (cases n) auto
  show ?case
    using read_member [OF Nil(1) n(2), of "CHR ''}'' # r" "fst p"] n(1) by simp
next
  case (Cons x xs)
  then obtain m where n: "n = Suc m" by (cases n) auto
  let ?t = "commas (member_strings ps (x # xs))"
  have eq: "commas (member_strings ps (p # x # xs)) = quote_string (fst p) @ '':'' @ stringify ps (snd p) @ CHR '','' # ?t"
    by (simp add: commas_Cons)
  have len: "2 * length (stringify ps (snd p)) \<le> m" "2 * length ?t < m" using Cons.prems(2) unfolding eq n by simp_all
  have "read_members pn m (?t @ CHR ''}'' # r) = Some (x # xs, r)"
    by (rule Cons.IH [OF Cons.prems(1) len(2)]) simp
  then show ?case
    unfolding eq n using read_member [OF Cons.prems(1) len(1), of "CHR '','' # ?t @ CHR ''}'' # r" "fst p"] by simp
qed

lemma read_words:
  assumes "0 < n"
  shows "read_value pn n (CHR ''n'' # CHR ''u'' # CHR ''l'' # CHR ''l'' # r) = Some (JNull, r)"
    "read_value pn n (CHR ''t'' # CHR ''r'' # CHR ''u'' # CHR ''e'' # r) = Some (JBool True, r)"
    "read_value pn n (CHR ''f'' # CHR ''a'' # CHR ''l'' # CHR ''s'' # CHR ''e'' # r) = Some (JBool False, r)"
  using assms by (cases n; simp add: skip_def is_space_def)+

lemma read_array:
  "skip s = c # u \<Longrightarrow> c \<noteq> CHR '']'' \<Longrightarrow> read_items pn m s = Some (vs, r) \<Longrightarrow> read_value pn (Suc m) (CHR ''['' # s) = Some (JArr vs, r)"
  by simp

lemma read_object:
  "skip s = c # u \<Longrightarrow> c \<noteq> CHR ''}'' \<Longrightarrow> read_members pn m s = Some (kvs, r) \<Longrightarrow> distinct (map fst kvs)
     \<Longrightarrow> read_value pn (Suc m) (CHR ''{'' # s) = Some (JObj kvs, r)"
  by (simp add: object_of_distinct)

lemma reads_plain: "plain j \<Longrightarrow> reads ps pn j"
proof (induction j)
  case (JArr vs)
  then have vs: "\<And>v. v \<in> set vs \<Longrightarrow> reads ps pn v" "\<And>v. v \<in> set vs \<Longrightarrow> plain v" by (auto simp: list_all_iff)
  show ?case
    unfolding reads_def
  proof (intro allI impI)
    fix n r
    assume n: "2 * length (stringify ps (JArr vs)) \<le> n"
    then obtain m where m: "n = Suc m" by (cases n) auto
    show "read_value pn n (stringify ps (JArr vs) @ r) = Some (JArr vs, r)"
    proof (cases vs)
      case Nil
      then show ?thesis by (simp add: m)
    next
      case (Cons v us)
      obtain c t where ct: "stringify ps v = c # t" "\<not> is_space c" "c \<noteq> CHR '']''" using stringify_head [OF vs(2) [of v], of ps] Cons by auto
      let ?s = "commas (map (stringify ps) (v # us)) @ CHR '']'' # r"
      obtain u where "?s = c # u" using ct(1) by (simp add: commas_Cons)
      then have skip: "skip ?s = c # u" using ct(2) by (simp add: skip_def)
      have items: "read_items pn m ?s = Some (v # us, r)"
        by (rule read_items_stringify, rule vs(1), unfold Cons, assumption) (use n m Cons in simp)
      have "read_value pn n (stringify ps (JArr vs) @ r) = read_value pn (Suc m) (CHR ''['' # ?s)" by (simp add: m Cons)
      also have "\<dots> = Some (JArr vs, r)" using read_array [OF skip ct(3) items] Cons by blast
      finally show ?thesis .
    qed
  qed
next
  case (JObj kvs)
  then have kvs: "\<And>kv. kv \<in> set kvs \<Longrightarrow> reads ps pn (snd kv)" "distinct (map fst kvs)"
    by (auto simp: list_all_iff snds.simps)
  show ?case
    unfolding reads_def
  proof (intro allI impI)
    fix n r
    assume n: "2 * length (stringify ps (JObj kvs)) \<le> n"
    then obtain m where m: "n = Suc m" by (cases n) auto
    show "read_value pn n (stringify ps (JObj kvs) @ r) = Some (JObj kvs, r)"
    proof (cases kvs)
      case Nil
      then show ?thesis by (simp add: m)
    next
      case (Cons p us)
      let ?s = "commas (member_strings ps (p # us)) @ CHR ''}'' # r"
      obtain u where "?s = CHR 0x22 # u" by (simp add: commas_Cons quote_string_def)
      then have skip: "skip ?s = CHR 0x22 # u" by simp
      have members: "read_members pn m ?s = Some (p # us, r)"
        by (rule read_members_stringify, rule kvs(1), unfold Cons, assumption) (use n m Cons in simp)
      have "read_value pn n (stringify ps (JObj kvs) @ r) = read_value pn (Suc m) (CHR ''{'' # ?s)" by (simp add: m Cons)
      also have "\<dots> = Some (JObj kvs, r)" using read_object [OF skip _ members] kvs(2) Cons by simp
      finally show ?thesis .
    qed
  qed
next
  case (JNum q)
  then obtain k where "q = Whole k" "\<bar>k\<bar> \<le> 2 ^ 53" by (cases q) auto
  moreover have "read_value pn n (int_string k @ r) = Some (JNum (Whole k), r)"
    if k: "\<bar>k\<bar> \<le> 2 ^ 53" and n: "2 * length (int_string k) \<le> n" and r: "ends r" for n r
  proof -
    have "int_string k \<noteq> []" by (simp add: int_string_def)
    then obtain m where "n = Suc m" using n by (cases n) auto
    then show ?thesis using read_value_number [OF k r] by blast
  qed
  ultimately show ?case by (simp add: reads_def number_string_def)
next
  case (JStr s)
  then show ?case by (auto simp: reads_def quote_string_def read_quoted dest!: Suc_le_D)
qed (auto simp: reads_def read_words)

lemma json_parse_stringify: "plain j \<Longrightarrow> json_parse pn (stringify ps j) = Some j"
  using readsD [OF reads_plain [of j ps pn], of "2 * length (stringify ps j) + 1" "[]"]
  by (simp add: json_parse_def skip_def)

text \<open>Any greater depth reads the same.\<close>

lemma json_parse_depth:
  "2 * length s < n \<Longrightarrow>
     json_parse pn s = (case read_value pn n s of Some (j, r) \<Rightarrow> if skip r = [] then Some j else None | None \<Rightarrow> None)"
  unfolding json_parse_def using depth_suffices(1) [of s n "2 * length s + 1" pn] by simp

end
