(* ===== verification/Post_Order.thy ===== *)
theory Post_Order
  imports Api Rate_Window Triples Json_Parse
begin

text \<open>
  \<open>POST /orders\<close> from the request to the database: the hooks of the route, the handler, the order
  service with its transaction, and the \<open>onSend\<close> hook together, when the request repeats one.
\<close>


section \<open>Programs that keep a condition\<close>

text \<open>However it ends, the program keeps \<open>I\<close>; when it fulfils, its value satisfies \<open>Q\<close>.\<close>

definition keeps :: "(world \<Rightarrow> bool) \<Rightarrow> 'a io \<Rightarrow> ('a \<Rightarrow> bool) \<Rightarrow> bool" where
  "keeps I m Q \<longleftrightarrow> (\<forall>w. I w \<longrightarrow> wp m (\<lambda>r w'. I w' \<and> (\<forall>a. r = Ok a \<longrightarrow> Q a)) w)"

lemma keepsD: "keeps I m Q \<Longrightarrow> I w \<Longrightarrow> wp m (\<lambda>r w'. I w' \<and> (\<forall>a. r = Ok a \<longrightarrow> Q a)) w"
  by (simp add: keeps_def)

lemma keeps_ret: "Q a \<Longrightarrow> keeps I (ret a) Q"
  by (simp add: keeps_def wp_ret)

lemma keeps_throw: "keeps I (throw e) Q"
  by (simp add: keeps_def wp_throw)

lemma keeps_yields: "yields R Q m \<Longrightarrow> (\<And>w w'. R w w' \<Longrightarrow> I w \<Longrightarrow> I w') \<Longrightarrow> keeps I m Q"
  unfolding keeps_def yields_def wp_def by blast

lemma keeps_upholds: "upholds R m \<Longrightarrow> (\<And>w w'. R w w' \<Longrightarrow> I w \<Longrightarrow> I w') \<Longrightarrow> keeps I m (\<lambda>_. True)"
  unfolding keeps_def upholds_def wp_def by blast

lemma keeps_bindM:
  assumes "keeps I m P" and "\<And>a. P a \<Longrightarrow> keeps I (f a) Q"
  shows "keeps I (bindM m f) Q"
  unfolding keeps_def wp_bindM
  by (intro allI impI, rule wp_mono [OF keepsD [OF assms(1)]])
    (use assms(2) in \<open>auto simp: keeps_def split: res.split\<close>)

lemma keeps_after: "keeps I m (\<lambda>_. True) \<Longrightarrow> (\<And>a. keeps I (f a) Q) \<Longrightarrow> keeps I (bindM m f) Q"
  by (rule keeps_bindM)

lemma keeps_catchM:
  assumes "keeps I m Q" and "\<And>e. keeps I (h e) Q"
  shows "keeps I (catchM m h) Q"
  unfolding keeps_def wp_catchM
  by (intro allI impI, rule wp_mono [OF keepsD [OF assms(1)]])
    (use assms(2) in \<open>auto simp: keeps_def split: res.split\<close>)

text \<open>The condition may be weakened on the way.\<close>

lemma keeps_seq:
  assumes "keeps I m P" and "\<And>w. I w \<Longrightarrow> J w" and "\<And>a. P a \<Longrightarrow> keeps J (f a) Q" and "I w"
  shows "wp (bindM m f) (\<lambda>r w'. J w' \<and> (\<forall>a. r = Ok a \<longrightarrow> Q a)) w"
  unfolding wp_bindM
  by (rule wp_mono [OF keepsD [OF assms(1,4)]])
    (use assms(2) keepsD [OF assms(3)] in \<open>auto split: res.split\<close>)


section \<open>The hooks with a remembered answer\<close>

definition success :: "int \<Rightarrow> bool" where
  "success st \<longleftrightarrow> 200 \<le> st \<and> st < 300"

text \<open>The environment, the data and some keys of Redis stay as they are.\<close>

definition stays :: "env \<Rightarrow> db \<Rightarrow> (string \<Rightarrow> (string \<times> int option) option) \<Rightarrow> string set \<Rightarrow> world \<Rightarrow> bool" where
  "stays e d f K w \<longleftrightarrow> w_env w = e \<and> w_db w = d \<and> (\<forall>k \<in> K. w_redis w k = f k)"

lemma stays_tick [simp]: "stays e d f K (tick w) = stays e d f K w"
  by (simp add: stays_def)

lemma keeps_nowM: "keeps (stays e d f K) nowM (\<lambda>_. True)"
  by (simp add: keeps_def wp_nowM)

lemma keeps_uuidM: "keeps (stays e d f K) uuidM (\<lambda>_. True)"
  by (simp add: keeps_def wp_uuidM)

text \<open>What the record under a key of the store answers.\<close>

definition remembered :: "server \<Rightarrow> http_req \<Rightarrow> (string \<Rightarrow> (string \<times> int option) option) \<Rightarrow> string \<Rightarrow> int \<Rightarrow> json \<Rightarrow> bool" where
  "remembered sv rq f key st body \<longleftrightarrow>
     (\<exists>client v t j rec. rx_headers rq ''x-client-id'' = Some client \<and> f (idempotency_key client key) = Some (v, t)
        \<and> sv_parse sv v = Some j \<and> read_record j = Some rec \<and> ir_requestHash rec = hashBody (sv_sha sv) (sv_ps sv) rq
        \<and> st = ir_status rec \<and> sv_parse sv (ir_response rec) = Some body)"

definition store_keys :: "string \<Rightarrow> string set" where
  "store_keys key = (\<lambda>client. idempotency_key client key) ` UNIV"

lemma rate_key_not_stored: "rate_key c ws \<notin> store_keys key"
  by (auto simp: rate_key_def store_keys_def idempotency_key_def)

text \<open>A reply that reports success repeats a remembered answer.\<close>

definition only_repeats :: "server \<Rightarrow> http_req \<Rightarrow> (string \<Rightarrow> (string \<times> int option) option) \<Rightarrow> string \<Rightarrow> exchange \<Rightarrow> bool" where
  "only_repeats sv rq f key ex \<longleftrightarrow> (\<exists>rp. ex_sent ex = Some rp
     \<and> (success (rp_status rp) \<longrightarrow> ex_meta ex = None \<and> remembered sv rq f key (rp_status rp) (rp_body rp)))"

definition marked :: "server \<Rightarrow> http_req \<Rightarrow> string \<Rightarrow> exchange \<Rightarrow> bool" where
  "marked sv rq key ex \<longleftrightarrow> (\<exists>client. rx_headers rq ''x-client-id'' = Some client
     \<and> ex_meta ex = Some \<lparr>im_clientId = client, im_key = key, im_hash = hashBody (sv_sha sv) (sv_ps sv) rq\<rparr>)"

definition hooked :: "server \<Rightarrow> http_req \<Rightarrow> (string \<Rightarrow> (string \<times> int option) option) \<Rightarrow> string \<Rightarrow> exchange \<Rightarrow> bool" where
  "hooked sv rq f key ex \<longleftrightarrow> rx_headers (ex_req ex) = rx_headers rq
     \<and> (ex_sent ex \<noteq> None \<longrightarrow> ex_error ex = None \<longrightarrow> only_repeats sv rq f key ex)
     \<and> (\<not> answered ex \<longrightarrow> marked sv rq key ex)"

lemma keeps_run_hooks_Cons:
  assumes "keeps I (h ex) P"
    and "\<And>ex'. P ex' \<Longrightarrow> \<not> answered ex' \<Longrightarrow> keeps I (run_hooks hs ex') Q"
    and "\<And>ex'. P ex' \<Longrightarrow> answered ex' \<Longrightarrow> Q ex'"
  shows "keeps I (run_hooks (h # hs) ex) Q"
  unfolding run_hooks.simps
proof (rule keeps_bindM [OF assms(1)])
  show "keeps I (if ex_sent a \<noteq> None \<or> ex_error a \<noteq> None then ret a else run_hooks hs a) Q" if "P a" for a
    using assms(2,3) [OF that] keeps_ret [of Q a] by (simp add: answered_def)
qed

lemma keeps_requestContext:
  "keeps (stays e d f K) (requestContextMiddleware ex) (\<lambda>ex'. ex_req ex' = ex_req ex \<and> ex_meta ex' = ex_meta ex
     \<and> answered ex' = answered ex)"
  unfolding requestContextMiddleware_def
  by (auto split: option.split intro!: keeps_after keeps_ret keeps_nowM keeps_uuidM simp: answered_def)

lemma keeps_redis:
  assumes C: "redis_laws C" and k: "\<And>k. k \<in> K \<Longrightarrow> k \<noteq> key"
  shows "keeps (stays e d f K) (rd_incr C key) (\<lambda>_. True)" "keeps (stays e d f K) (rd_pexpireat C key t) (\<lambda>_. True)"
  unfolding keeps_def
  by (intro allI impI wp_mono [OF redis_lawsD(4) [OF C]] wp_mono [OF redis_lawsD(5) [OF C]];
      use k in \<open>auto simp: stays_def only_redis_sel\<close>)+

lemma keeps_isAllowed:
  assumes C: "redis_laws C"
  shows "keeps (stays e d f (store_keys key)) (isAllowed C cfg c) (\<lambda>_. True)"
proof -
  have "keeps (stays e d f (store_keys key)) (rd_incr C (rate_key c ws)) (\<lambda>_. True)"
    "keeps (stays e d f (store_keys key)) (rd_pexpireat C (rate_key c ws) t) (\<lambda>_. True)" for ws t
    by (rule keeps_redis [OF C]; use rate_key_not_stored in metis)+
  then show ?thesis
    unfolding isAllowed_def Let_def thenM_def whenM_def
    by (auto intro!: keeps_after keeps_catchM keeps_ret keeps_nowM)
qed

lemma keeps_rateLimit:
  assumes C: "redis_laws C"
  shows "keeps (stays e d f (store_keys key)) (rateLimitMiddleware C dt cfg ex) (\<lambda>ex'. ex_req ex' = ex_req ex \<and> ex_meta ex' = ex_meta ex
     \<and> (answered ex' \<longrightarrow> answered ex \<or> ex_error ex' = None \<and> map_option rp_status (ex_sent ex') = Some 429))"
  unfolding rateLimitMiddleware_def Let_def
  by (rule keeps_bindM [OF keeps_isAllowed [OF C]])
    (auto intro!: keeps_after keeps_ret keeps_nowM simp: answered_def send_problem_def send_def)

lemma keeps_get:
  assumes C: "redis_laws C" and key: "idempotency_key client key \<in> K"
  shows "keeps (stays e d f K) (idempotency_get C parse client key) (\<lambda>x. \<forall>r. x = Some r \<longrightarrow>
     (\<exists>v t j. f (idempotency_key client key) = Some (v, t) \<and> parse v = Some j \<and> read_record j = Some r))"
proof -
  let ?k = "idempotency_key client key"
  have "keeps (stays e d f K) (rd_get C ?k) (\<lambda>raw. \<forall>v. raw = Some v \<longrightarrow> (\<exists>t. f ?k = Some (v, t)))"
    unfolding keeps_def
    by (intro allI impI wp_mono [OF redis_lawsD(1) [OF C]]) (use key in \<open>auto simp: stays_def only_redis_sel\<close>)
  then show ?thesis
    unfolding idempotency_get_def
    by (intro keeps_catchM keeps_ret) (erule keeps_bindM, auto intro!: keeps_ret keeps_throw split: option.split)
qed

lemma keeps_idempotency:
  assumes C: "redis_laws (sv_redis sv)" and ex: "\<not> answered ex" "ex_meta ex = None" "ex_req ex = rq"
    and hdr: "rx_headers rq ''idempotency-key'' = Some key"
  shows "keeps (stays e d f (store_keys key)) (idempotencyMiddleware (sv_redis sv) (sv_parse sv) (sv_sha sv) (sv_ps sv) ex)
    (\<lambda>ex'. ex_req ex' = rq \<and> (answered ex' \<longrightarrow> ex_error ex' = None \<longrightarrow> only_repeats sv rq f key ex')
       \<and> (\<not> answered ex' \<longrightarrow> marked sv rq key ex'))"
proof (cases "truthy_header rq ''idempotency-key'' = Some key \<and> truthy_header rq ''x-client-id'' \<noteq> None")
  case True
  then obtain client where th: "truthy_header rq ''idempotency-key'' = Some key" "truthy_header rq ''x-client-id'' = Some client"
    by auto
  have client: "rx_headers rq ''x-client-id'' = Some client"
    using th(2) by (auto simp: truthy_header_def split: option.splits if_splits)
  have "idempotency_key client key \<in> store_keys key" by (simp add: store_keys_def)
  note get = keeps_get [OF C this]
  show ?thesis
    unfolding idempotencyMiddleware_def ex th option.case prod.case Let_def
    by (rule keeps_bindM [OF get])
      (use ex client in \<open>auto simp: answered_def marked_def only_repeats_def remembered_def success_def send_problem_def send_def set_header_def
        split: option.split intro!: keeps_ret\<close>)
next
  case False
  then have none: "truthy_header rq ''idempotency-key'' = None \<or> truthy_header rq ''x-client-id'' = None"
    using hdr by (auto simp: truthy_header_def split: if_splits)
  show ?thesis
    unfolding idempotencyMiddleware_def ex
    using none ex by (elim disjE; auto simp: only_repeats_def success_def send_problem_def send_def set_header_def answered_def
        split: option.split intro!: keeps_ret)
qed

lemma keeps_validateBody:
  "keeps I (validateBody iss ex) (\<lambda>ex'. rx_headers (ex_req ex') = rx_headers (ex_req ex) \<and> ex_meta ex' = ex_meta ex
     \<and> (ex_sent ex' = ex_sent ex \<and> ex_error ex' = ex_error ex \<or> map_option rp_status (ex_sent ex') = Some 422))"
  by (auto simp: validateBody_def Let_def send_problem_def send_def set_header_def intro!: keeps_ret split: option.split)

lemma keeps_order_hooks:
  assumes C: "redis_laws (sv_redis sv)" and hdr: "rx_headers rq ''idempotency-key'' = Some key"
  shows "keeps (stays e d f (store_keys key)) (run_hooks (requestContextMiddleware # order_hooks sv) (open_exchange rq)) (hooked sv rq f key)"
  unfolding order_hooks_def
proof (rule keeps_run_hooks_Cons [OF keeps_requestContext])
  fix ex1
  assume 1: "ex_req ex1 = ex_req (open_exchange rq) \<and> ex_meta ex1 = ex_meta (open_exchange rq)
      \<and> answered ex1 = answered (open_exchange rq)" "\<not> answered ex1"
  show "keeps (stays e d f (store_keys key)) (run_hooks [rateLimitMiddleware (sv_redis sv) (sv_toISOString sv) (sv_cfg sv),
      idempotencyMiddleware (sv_redis sv) (sv_parse sv) (sv_sha sv) (sv_ps sv), validateBody (sv_issues sv)] ex1) (hooked sv rq f key)"
  proof (rule keeps_run_hooks_Cons [OF keeps_rateLimit [OF C]])
    fix ex2
    assume 2: "ex_req ex2 = ex_req ex1 \<and> ex_meta ex2 = ex_meta ex1
      \<and> (answered ex2 \<longrightarrow> answered ex1 \<or> ex_error ex2 = None \<and> map_option rp_status (ex_sent ex2) = Some 429)"
    show "hooked sv rq f key ex2" if "answered ex2"
      using 1 2 that by (auto simp: hooked_def only_repeats_def success_def open_exchange_def)
    assume no: "\<not> answered ex2"
    then have ex2: "ex_meta ex2 = None" "ex_req ex2 = rq" using 1 2 by (auto simp: open_exchange_def)
    show "keeps (stays e d f (store_keys key)) (run_hooks [idempotencyMiddleware (sv_redis sv) (sv_parse sv) (sv_sha sv) (sv_ps sv),
        validateBody (sv_issues sv)] ex2) (hooked sv rq f key)"
    proof (rule keeps_run_hooks_Cons [where P = "\<lambda>ex'. ex_req ex' = rq \<and> (answered ex' \<longrightarrow> ex_error ex' = None \<longrightarrow> only_repeats sv rq f key ex')
        \<and> (\<not> answered ex' \<longrightarrow> marked sv rq key ex')"])
      show "keeps (stays e d f (store_keys key)) (idempotencyMiddleware (sv_redis sv) (sv_parse sv) (sv_sha sv) (sv_ps sv) ex2)
          (\<lambda>ex'. ex_req ex' = rq \<and> (answered ex' \<longrightarrow> ex_error ex' = None \<longrightarrow> only_repeats sv rq f key ex')
            \<and> (\<not> answered ex' \<longrightarrow> marked sv rq key ex'))"
        by (rule keeps_idempotency [OF C no ex2 hdr])
      fix ex3
      assume 3: "ex_req ex3 = rq \<and> (answered ex3 \<longrightarrow> ex_error ex3 = None \<longrightarrow> only_repeats sv rq f key ex3)
        \<and> (\<not> answered ex3 \<longrightarrow> marked sv rq key ex3)"
      then show "hooked sv rq f key ex3" if "answered ex3" using that by (auto simp: hooked_def answered_def)
      assume no: "\<not> answered ex3"
      have "hooked sv rq f key ex'" if "rx_headers (ex_req ex') = rx_headers (ex_req ex3) \<and> ex_meta ex' = ex_meta ex3
          \<and> (ex_sent ex' = ex_sent ex3 \<and> ex_error ex' = ex_error ex3 \<or> map_option rp_status (ex_sent ex') = Some 422)" for ex'
        using that no 3 by (auto simp: hooked_def answered_def only_repeats_def success_def marked_def)
      then show "keeps (stays e d f (store_keys key)) (run_hooks [validateBody (sv_issues sv)] ex3) (hooked sv rq f key)"
        by (intro keeps_run_hooks_Cons [OF keeps_validateBody]) (auto intro!: keeps_ret)
    qed
  qed
qed (auto simp: hooked_def only_repeats_def open_exchange_def answered_def)


section \<open>The service refuses a used key\<close>

definition used :: "string \<Rightarrow> db \<Rightarrow> bool" where
  "used key d \<longleftrightarrow> Some key \<in> or_idempotency_key ` set (db_orders d)"

lemma createOrder_key: "createOrder L oid cid items cur key t1 t2 = Inr ord \<Longrightarrow> order_idempotencyKey ord = key"
  by (auto dest: createOrder_Inr)

lemma recorded_with_fresh:
  assumes "order_from L request ord" "recorded_with request ord d d'" "co_idempotencyKey request = Some key"
  shows "\<not> used key d"
proof -
  have "order_idempotencyKey ord = Some key"
    using assms(1,3) createOrder_key by (auto simp: order_from_def)
  moreover obtain d1 where "insert_order (order_row_of ord) d = Inr ((), d1)"
    using assms(2) by (auto simp: recorded_with_def order_recorded_def)
  ultimately show ?thesis
    using insert_order_Inr [of "order_row_of ord" d "()" d1] by (simp add: used_def)
qed

lemma keeps_createOrder:
  assumes B: "bullmq_laws B" and key: "co_idempotencyKey request = Some key" "used key d"
  shows "keeps (\<lambda>w. w_db w = d) (service_createOrder L (pg_order_repo L') pg_outbox_repo (saga_enqueue B cfg) pg_tx_manager request)
     (\<lambda>_. False)"
  unfolding keeps_def
proof (intro allI impI, rule wp_mono [OF pg_tx.createOrder_wp])
  show "upholds (on_db (=)) (saga_enqueue B cfg c)" for c
    using B by (rule upholds_saga_enqueue) simp
qed (use key recorded_with_fresh in blast)

lemma keeps_post_order:
  assumes "\<And>rq. co_idempotencyKey rq = rx_headers (ex_req ex) ''idempotency-key'' \<Longrightarrow> keeps (\<lambda>w. w_db w = d) (create rq) (\<lambda>_. False)"
  shows "keeps (\<lambda>w. w_db w = d) (post_order iss dt create ex) (\<lambda>_. False)"
proof -
  have now: "keeps (\<lambda>w. w_db w = d) nowM (\<lambda>_. True)" by (simp add: keeps_def wp_nowM)
  show ?thesis
    unfolding post_order_def
    by (rule keeps_after [OF now]) (auto split: option.split intro!: keeps_throw keeps_bindM [OF assms])
qed


section \<open>The property\<close>

text \<open>An error is no success, whatever view of it Fastify has.\<close>

definition honest :: "(error \<Rightarrow> fastify_error) \<Rightarrow> bool" where
  "honest err_view \<longleftrightarrow> (\<forall>e c. fe_statusCode (err_view e) = Some c \<longrightarrow> \<not> success c)"

lemma errorHandler_fails:
  "honest err_view \<Longrightarrow> ex_sent (errorHandler err_view e ex) = Some rp \<Longrightarrow> \<not> success (rp_status rp)"
  by (cases e; cases "fe_statusCode (err_view e)";
      simp add: errorHandler_def Let_def send_problem_def send_def honest_def success_def split: if_splits; auto)

lemma errorHandler_repeats: "honest err_view \<Longrightarrow> only_repeats sv rq f key (errorHandler err_view e ex)"
  using errorHandler_fails errorHandler_sel(3) unfolding only_repeats_def by blast

lemma onSend_idle:
  assumes "only_repeats sv rq f key ex"
  shows "onSend C ps dt ser cfg ex = ret ()"
  using assms by (auto simp: only_repeats_def onSend_def success_def split: option.split)

text \<open>
  C7. An idempotency key makes at most one order, whatever fails: once an order holds the key of a
  request, the request changes nothing in the database, with or without Redis, and it is answered with
  success only by repeating an answer that the store holds for the client, the key and the same body.
\<close>

theorem key_used_once:
  assumes C: "redis_laws (sv_redis sv)" and B: "bullmq_laws B" and view: "honest (sv_view sv)"
    and key: "rx_headers rq ''idempotency-key'' = Some key" "used key (w_db w)"
  shows "wp (serve_post_order sv (service_createOrder L (pg_order_repo L') pg_outbox_repo (saga_enqueue B cfg) pg_tx_manager) rq)
     (\<lambda>r w'. w_db w' = w_db w \<and> (\<forall>ex. r = Ok ex \<longrightarrow> (\<exists>rp. ex_sent ex = Some rp
        \<and> (200 \<le> rp_status rp \<and> rp_status rp < 300 \<longrightarrow>
             (\<exists>b. sv_bodySchema sv (rx_body rq) = Inr b
                \<and> remembered sv (rq\<lparr>rx_body := b\<rparr>) (w_redis w) key (rp_status rp) (rp_body rp)))))) w"
proof -
  let ?create = "service_createOrder L (pg_order_repo L') pg_outbox_repo (saga_enqueue B cfg) pg_tx_manager"
  let ?I = "stays (w_env w) (w_db w) (w_redis w) (store_keys key)" and ?J = "\<lambda>w'. w_db w' = w_db w"
  let ?Q = "\<lambda>ex. \<exists>rq'. only_repeats sv rq' (w_redis w) key ex \<and> (\<forall>rp. ex_sent ex = Some rp \<longrightarrow> success (rp_status rp) \<longrightarrow>
      (\<exists>b. sv_bodySchema sv (rx_body rq) = Inr b \<and> rq' = rq\<lparr>rx_body := b\<rparr>))"
  have I: "?I w" by (simp add: stays_def)
  have inner: "wp (case body_schema sv rq of Inl e \<Rightarrow> ret (errorHandler (sv_view sv) e (open_exchange rq))
      | Inr rq' \<Rightarrow> run_route (sv_view sv) (requestContextMiddleware # order_hooks sv) (post_order (sv_issues sv) (sv_toISOString sv) ?create)
          (open_exchange rq')) (\<lambda>r w'. ?J w' \<and> (\<forall>ex. r = Ok ex \<longrightarrow> ?Q ex)) w"
  proof (cases "sv_bodySchema sv (rx_body rq)")
    case (Inl e)
    have "only_repeats sv rq (w_redis w) key (errorHandler (sv_view sv) e (open_exchange rq))"
      "\<And>rp. ex_sent (errorHandler (sv_view sv) e (open_exchange rq)) = Some rp \<Longrightarrow> \<not> success (rp_status rp)"
      using errorHandler_repeats [OF view] errorHandler_fails [OF view] by blast+
    then show ?thesis by (auto simp: body_schema_def Inl wp_ret)
  next
    case (Inr b)
    let ?rq = "rq\<lparr>rx_body := b\<rparr>"
    have hdr: "rx_headers ?rq ''idempotency-key'' = Some key" using key(1) by simp
    have "wp (run_route (sv_view sv) (requestContextMiddleware # order_hooks sv) (post_order (sv_issues sv) (sv_toISOString sv) ?create)
          (open_exchange ?rq)) (\<lambda>r w'. ?J w' \<and> (\<forall>ex. r = Ok ex \<longrightarrow> only_repeats sv ?rq (w_redis w) key ex)) w"
      unfolding run_route_def
    proof (rule keeps_seq [OF keeps_order_hooks [OF C hdr] _ _ I])
      fix ex1
      assume ex1: "hooked sv ?rq (w_redis w) key ex1"
      have "keeps ?J (post_order (sv_issues sv) (sv_toISOString sv) ?create ex1) (\<lambda>_. False)"
        using ex1 hdr by (intro keeps_post_order keeps_createOrder [OF B _ key(2)]) (simp add: hooked_def)
      then have "keeps ?J (catchM (post_order (sv_issues sv) (sv_toISOString sv) ?create ex1) (\<lambda>e. ret (errorHandler (sv_view sv) e ex1)))
          (only_repeats sv ?rq (w_redis w) key)"
        by (intro keeps_catchM keeps_ret errorHandler_repeats [OF view]) (auto simp: keeps_def intro: wp_mono)
      then show "keeps ?J (case ex_error ex1 of Some e \<Rightarrow> ret (errorHandler (sv_view sv) e ex1)
          | None \<Rightarrow> if ex_sent ex1 \<noteq> None then ret ex1
                    else catchM (post_order (sv_issues sv) (sv_toISOString sv) ?create ex1) (\<lambda>e. ret (errorHandler (sv_view sv) e ex1)))
          (only_repeats sv ?rq (w_redis w) key)"
        using ex1 by (auto simp: hooked_def split: option.split intro!: keeps_ret errorHandler_repeats [OF view])
    qed (simp add: stays_def)
    then show ?thesis
      unfolding body_schema_def Inr sum.case by (rule wp_mono) auto
  qed
  show ?thesis
    unfolding serve_post_order_def serve_def wp_bindM [of "case body_schema sv rq of Inl e \<Rightarrow> _ e | Inr x \<Rightarrow> _ x"]
  proof (rule wp_mono [OF inner], elim conjE, goal_cases)
    case (1 r w1)
    show ?case
    proof (cases r)
      case (Ok ex)
      then obtain rq' where ex: "only_repeats sv rq' (w_redis w) key ex" "\<forall>rp. ex_sent ex = Some rp \<longrightarrow> success (rp_status rp) \<longrightarrow>
          (\<exists>b. sv_bodySchema sv (rx_body rq) = Inr b \<and> rq' = rq\<lparr>rx_body := b\<rparr>)" using 1(2) by blast
      show ?thesis
        unfolding Ok res.case onSend_idle [OF ex(1)] wp_thenM wp_ret
        using ex 1(1) by (auto simp: only_repeats_def success_def)
    qed (use 1 in simp_all)
  qed
qed

theorem key_used_once_witness:
  "wp (serve_post_order example_server (service_createOrder cents_lib (pg_order_repo cents_lib) pg_outbox_repo
         (saga_enqueue list_bullmq example_config) pg_tx_manager)
        \<lparr>rx_id = ''r1'', rx_method = ''POST'', rx_url = ''/'', rx_headers = [''idempotency-key'' \<mapsto> ''k1'', ''x-client-id'' \<mapsto> ''c1''],
         rx_body = None, rx_ip = None, rx_params = Map.empty, rx_query = Map.empty\<rparr>)
     (\<lambda>r w'. length (db_orders (w_db w')) = 1 \<and> (\<forall>ex rp. r = Ok ex \<longrightarrow> ex_sent ex = Some rp \<longrightarrow> rp_status rp \<noteq> 201))
     (world_of quiet_env (empty_db\<lparr>db_orders := [\<lparr>or_id = ''o1'', or_customer_id = ''c1'', or_status = PENDING, or_total_amount = ''1.00'',
        or_currency = ''USD'', or_idempotency_key = Some ''k1'', or_created_at = 0, or_updated_at = 0\<rparr>]\<rparr>))"
  by (rule wp_mono [OF key_used_once [where key = "''k1''", OF _ list_bullmq_laws]])
    (auto simp: example_server_def mem_redis_laws honest_def used_def world_of_def remembered_def)

end
