(* ===== verification/Post_Replay.thy ===== *)
theory Post_Replay
  imports Post_Order
begin

text \<open>
  The replay of \<open>POST /orders\<close>, from the first request to the second: what the first leaves in the store
  is what the second is answered with.
\<close>


section \<open>The creation of an order leaves Redis alone\<close>

definition same_redis :: "world \<Rightarrow> world \<Rightarrow> bool" where
  "same_redis w w' \<longleftrightarrow> w_redis w' = w_redis w"

lemma preord_same_redis [simp]: "preord same_redis"
  by (simp add: preord_def same_redis_def)

lemma ticks_same_redis [simp]: "ticks same_redis"
  by (simp add: ticks_def same_redis_def)

lemma same_redis_sqlM: "upholds same_redis (sqlM c st)"
  unfolding sqlM_def
  by (rule upholds_ioM) (auto simp: upholds_def same_redis_def split: sum.split)

lemma same_redis_begin:
  assumes "upholds same_redis (fn Tx)"
  shows "upholds same_redis (pg_begin fn)"
proof (rule upholdsI)
  fix w
  have step: "upholds same_redis (ioM (modifyM f))" if "\<And>w. w_redis (f w) = w_redis w" for f
    by (rule upholds_ioM) (simp_all add: upholds_def same_redis_def modifyM_def that)
  have "upholds same_redis (bindM (ioM (modifyM (\<lambda>w. w\<lparr>w_tx := Some (w_db w)\<rparr>)))
          (\<lambda>_. bindM (fn Tx) (\<lambda>a. thenM (ioM (modifyM (\<lambda>w. w\<lparr>w_db := view Tx w\<rparr>))) (ret a))))"
    by (intro upholds_intros preord_same_redis step assms) simp_all
  from upholds_snd [OF this, of w] show "same_redis w (snd (pg_begin fn w))"
    by (auto simp: pg_begin_def same_redis_def split: prod.split)
qed

lemma same_redis_createOrder:
  assumes "bullmq_laws B"
  shows "upholds same_redis (service_createOrder L (pg_order_repo L') pg_outbox_repo (saga_enqueue B cfg) pg_tx_manager request)"
proof -
  have items: "upholds same_redis (create_items L oid cur lines)" for oid cur lines
    by (induction lines) (auto intro!: upholds_intros)
  have queue: "upholds same_redis (bq_add B h n d opts)" for h n d opts
    using bullmq_add_wp [OF assms, of h n d opts] by (auto simp: upholds_def wp_def same_redis_def only_queues_sel)
  have counted: "upholds same_redis (increment n l)" for n l
    by (simp add: increment_def upholds_def modifyM_def same_redis_def)
  show ?thesis
    unfolding service_createOrder_def pg_tx_manager_def tx_manager.simps pg_order_sel order_createWithSql_def
      outbox_createWithSql_def saga_enqueue_def
    by (intro upholds_intros preord_same_redis ticks_same_redis items queue counted same_redis_begin same_redis_sqlM)
qed


section \<open>What the handler answers\<close>

definition no_answer :: "string \<Rightarrow> world \<Rightarrow> bool" where
  "no_answer k w \<longleftrightarrow> w_redis w k = None"

lemma keeps_order_made:
  assumes B: "bullmq_laws B"
  shows "keeps (no_answer k) (service_createOrder L (pg_order_repo L') pg_outbox_repo (saga_enqueue B cfg) pg_tx_manager request)
     (\<lambda>x. order_from L request (fst x))"
  unfolding keeps_def
proof (intro allI impI)
  fix w
  assume "no_answer k w"
  moreover have "upholds (on_db (=)) (saga_enqueue B cfg c)" for c
    using B by (rule upholds_saga_enqueue) simp
  ultimately show "wp (service_createOrder L (pg_order_repo L') pg_outbox_repo (saga_enqueue B cfg) pg_tx_manager request)
      (\<lambda>r w'. no_answer k w' \<and> (\<forall>x. r = Ok x \<longrightarrow> order_from L request (fst x))) w"
    using upholds_snd [OF same_redis_createOrder [OF B], of w L L' cfg request] pg_tx.createOrder_wp [of _ L L' request w]
    by (simp add: wp_def no_answer_def same_redis_def) blast
qed

lemma order_body_plain:
  assumes "\<And>i. i \<in> set (order_items ord) \<Longrightarrow> \<bar>item_quantity i\<bar> \<le> 2 ^ 53"
  shows "plain (order_json_body dt ord)"
  using assms by (auto simp: order_json_body_def money_json_def list_all_iff)

lemma list_all2_right: "list_all2 R xs ys \<Longrightarrow> y \<in> set ys \<Longrightarrow> \<exists>x \<in> set xs. R x y"
  by (induction rule: list_all2_induct) auto

lemma accepted_order_plain:
  assumes "order_from L request ord" and "CreateOrderSchema j = Some inp" and "co_items request = in_items inp"
  shows "plain (order_json_body dt ord)"
proof (rule order_body_plain)
  fix i
  assume i: "i \<in> set (order_items ord)"
  have "list_all2 (\<lambda>l i. createOrderItem L (item_id i) (order_id ord) (ol_sku l) (ol_quantity l) (ol_unitPrice l) (co_currency request)
      = Inr i) (in_items inp) (order_items ord)"
    using assms(1,3) by (simp add: order_from_def items_from_def)
  from list_all2_right [OF this i] obtain l where l: "l \<in> set (in_items inp)"
    "createOrderItem L (item_id i) (order_id ord) (ol_sku l) (ol_quantity l) (ol_unitPrice l) (co_currency request) = Inr i"
    by blast
  obtain x where "CreateOrderItemSchema x = Some l" using schema_Some(4) [OF assms(2) l(1)] by blast
  from line_Some(6) [OF this] createOrderItem_Inr(1,2) [OF l(2)] show "\<bar>item_quantity i\<bar> \<le> 2 ^ 53"
    by (simp add: whole_def)
qed

lemma keeps_handler:
  assumes B: "bullmq_laws B"
  shows "keeps (no_answer k) (post_order iss dt (service_createOrder L (pg_order_repo L') pg_outbox_repo (saga_enqueue B cfg) pg_tx_manager) ex)
     (\<lambda>ex'. \<exists>body. ex' = send ex 201 body \<and> plain body)"
proof -
  have now: "keeps (no_answer k) nowM (\<lambda>_. True)" by (simp add: keeps_def wp_nowM no_answer_def)
  have hist: "keeps (no_answer k) (recordHistogram n v l) (\<lambda>_. True)" for n v l
    by (simp add: keeps_def recordHistogram_def wp_modifyM no_answer_def)
  show ?thesis
    unfolding post_order_def thenM_def
    by (rule keeps_after [OF now])
      (auto split: option.split intro!: keeps_throw keeps_bindM [OF keeps_order_made [OF B]] keeps_after [OF now] keeps_after [OF hist] keeps_ret
        dest: accepted_order_plain)
qed


section \<open>What the first request leaves behind\<close>

text \<open>The record of an answer: the next request reads it under the key.\<close>

definition record_of :: "server \<Rightarrow> string \<Rightarrow> reply \<Rightarrow> idempotency_record \<Rightarrow> bool" where
  "record_of sv h rp rec \<longleftrightarrow> ir_status rec = rp_status rp \<and> ir_response rec = sv_serialize sv (rp_status rp) (rp_body rp)
     \<and> ir_requestHash rec = h"

definition holds_record :: "server \<Rightarrow> string \<Rightarrow> string \<Rightarrow> reply \<Rightarrow> world \<Rightarrow> bool" where
  "holds_record sv k h rp w \<longleftrightarrow> (\<exists>rec t. w_redis w k = Some (stringify (sv_ps sv) (record_json rec), t) \<and> record_of sv h rp rec)"

lemma onSend_stores:
  assumes C: "redis_laws (sv_redis sv)" and "no_answer k w"
    and ex: "ex_meta ex = Some m" "k = idempotency_key (im_clientId m) (im_key m)" "ex_sent ex = Some rp" "success (rp_status rp)"
  shows "wp (onSend (sv_redis sv) (sv_ps sv) (sv_toISOString sv) (sv_serialize sv) (sv_cfg sv) ex)
     (\<lambda>r w'. no_answer k w' \<or> holds_record sv k (im_hash m) rp w') w"
proof -
  have none: "w_redis (tick w) k = None" using assms(2) by (simp add: no_answer_def)
  show ?thesis
    unfolding onSend_def ex(1,3) prod.case option.case if_P [OF ex(4) [unfolded success_def]] wp_bindM wp_nowM res.case wp_catchM
      idempotency_set_def ex(2) [symmetric]
    by (rule wp_mono [OF redis_lawsD(2) [OF C]])
      (use none in \<open>auto simp: wp_ret no_answer_def holds_record_def record_of_def split: res.split\<close>)
qed

definition accepted :: "server \<Rightarrow> http_req \<Rightarrow> string \<Rightarrow> exchange \<Rightarrow> bool" where
  "accepted sv rq key ex \<longleftrightarrow> (\<forall>rp. ex_sent ex = Some rp \<longrightarrow> success (rp_status rp) \<longrightarrow>
      plain (rp_body rp) \<and> (\<exists>b. sv_bodySchema sv (rx_body rq) = Inr b \<and> marked sv (rq\<lparr>rx_body := b\<rparr>) key ex))"

lemma accepted_error: "honest (sv_view sv) \<Longrightarrow> accepted sv rq key (errorHandler (sv_view sv) e ex)"
  using errorHandler_fails unfolding accepted_def by blast

lemma first_request:
  assumes C: "redis_laws (sv_redis sv)" and B: "bullmq_laws B" and honest: "honest (sv_view sv)"
    and hdr: "rx_headers rq ''idempotency-key'' = Some key" "rx_headers rq ''x-client-id'' = Some client"
    and new: "no_answer (idempotency_key client key) w"
  shows "wp (serve_post_order sv (service_createOrder L (pg_order_repo L') pg_outbox_repo (saga_enqueue B cfg) pg_tx_manager) rq)
     (\<lambda>r w1. \<forall>ex rp. r = Ok ex \<longrightarrow> ex_sent ex = Some rp \<longrightarrow> success (rp_status rp) \<longrightarrow>
        plain (rp_body rp) \<and> (\<exists>b. sv_bodySchema sv (rx_body rq) = Inr b
          \<and> (no_answer (idempotency_key client key) w1
             \<or> holds_record sv (idempotency_key client key) (hashBody (sv_sha sv) (sv_ps sv) (rq\<lparr>rx_body := b\<rparr>)) rp w1))) w"
proof -
  let ?create = "service_createOrder L (pg_order_repo L') pg_outbox_repo (saga_enqueue B cfg) pg_tx_manager"
  let ?k = "idempotency_key client key"
  let ?Q = "accepted sv rq key"
  have I: "stays (w_env w) (w_db w) (w_redis w) (store_keys key) w" by (simp add: stays_def)
  have inner: "wp (case body_schema sv rq of Inl e \<Rightarrow> ret (errorHandler (sv_view sv) e (open_exchange rq))
      | Inr rq' \<Rightarrow> run_route (sv_view sv) (requestContextMiddleware # order_hooks sv) (post_order (sv_issues sv) (sv_toISOString sv) ?create)
          (open_exchange rq')) (\<lambda>r w'. no_answer ?k w' \<and> (\<forall>ex. r = Ok ex \<longrightarrow> ?Q ex)) w"
  proof (cases "sv_bodySchema sv (rx_body rq)")
    case (Inl e)
    then show ?thesis
      using accepted_error [of sv, OF honest] new by (simp add: body_schema_def wp_ret)
  next
    case (Inr b)
    let ?rq = "rq\<lparr>rx_body := b\<rparr>"
    have hdr': "rx_headers ?rq ''idempotency-key'' = Some key" using hdr(1) by simp
    have "wp (run_route (sv_view sv) (requestContextMiddleware # order_hooks sv) (post_order (sv_issues sv) (sv_toISOString sv) ?create)
          (open_exchange ?rq)) (\<lambda>r w'. no_answer ?k w' \<and> (\<forall>ex. r = Ok ex \<longrightarrow> ?Q ex)) w"
      unfolding run_route_def
    proof (rule keeps_seq [OF keeps_order_hooks [OF C hdr'] _ _ I])
      show "no_answer ?k w'" if "stays (w_env w) (w_db w) (w_redis w) (store_keys key) w'" for w'
        using that new by (simp add: stays_def no_answer_def store_keys_def)
      fix ex1
      assume ex1: "hooked sv ?rq (w_redis w) key ex1"
      have err: "keeps (no_answer ?k) (ret (errorHandler (sv_view sv) e ex1)) ?Q" for e
        using accepted_error [of sv, OF honest] by (rule keeps_ret)
      have rep: "?Q ex1" if "ex_sent ex1 \<noteq> None" "ex_error ex1 = None"
        using ex1 that new hdr by (auto simp: hooked_def only_repeats_def remembered_def no_answer_def accepted_def)
      have "keeps (no_answer ?k) (catchM (post_order (sv_issues sv) (sv_toISOString sv) ?create ex1) (\<lambda>e. ret (errorHandler (sv_view sv) e ex1))) ?Q"
        if "\<not> answered ex1"
      proof (rule keeps_catchM [OF _ err])
        have "marked sv ?rq key ex1" using ex1 that by (simp add: hooked_def)
        then have "?Q (send ex1 201 body)" if "plain body" for body
          using that Inr by (auto simp: accepted_def marked_def send_def)
        then show "keeps (no_answer ?k) (post_order (sv_issues sv) (sv_toISOString sv) ?create ex1) ?Q"
          using keeps_handler [OF B, of ?k "sv_issues sv" "sv_toISOString sv" L L' cfg ex1] unfolding keeps_def
          by (fastforce elim!: wp_mono)
      qed
      then show "keeps (no_answer ?k) (case ex_error ex1 of Some e \<Rightarrow> ret (errorHandler (sv_view sv) e ex1)
          | None \<Rightarrow> if ex_sent ex1 \<noteq> None then ret ex1
                    else catchM (post_order (sv_issues sv) (sv_toISOString sv) ?create ex1) (\<lambda>e. ret (errorHandler (sv_view sv) e ex1))) ?Q"
        using err keeps_ret [of ?Q ex1] rep by (auto simp: answered_def split: option.split)
    qed
    then show ?thesis unfolding body_schema_def Inr sum.case .
  qed
  show ?thesis
    unfolding serve_post_order_def serve_def wp_bindM [of "case body_schema sv rq of Inl e \<Rightarrow> _ e | Inr x \<Rightarrow> _ x"]
  proof (rule wp_mono [OF inner], elim conjE, goal_cases)
    case (1 r w1)
    show ?case
    proof (cases r)
      case (Ok ex)
      show ?thesis
      proof (cases "\<exists>rp. ex_sent ex = Some rp \<and> success (rp_status rp)")
        case True
        then obtain rp b where rp: "ex_sent ex = Some rp" "success (rp_status rp)" "plain (rp_body rp)"
            "sv_bodySchema sv (rx_body rq) = Inr b" "marked sv (rq\<lparr>rx_body := b\<rparr>) key ex"
          using 1(2) Ok by (auto simp: accepted_def)
        then obtain m where m: "ex_meta ex = Some m" "?k = idempotency_key (im_clientId m) (im_key m)"
            "im_hash m = hashBody (sv_sha sv) (sv_ps sv) (rq\<lparr>rx_body := b\<rparr>)"
          using hdr by (auto simp: marked_def)
        show ?thesis
          unfolding Ok res.case wp_thenM
          by (rule wp_mono [OF onSend_stores [OF C 1(1) m(1,2) rp(1,2)]]) (use rp m in \<open>auto simp: wp_ret split: res.split\<close>)
      qed (auto simp: Ok wp_thenM wp_ret wp_always split: res.split intro!: wp_always)
    qed simp_all
  qed
qed


section \<open>What the second request is answered with\<close>

text \<open>A key has not expired at any reading of the clock.\<close>

definition unexpired :: "string \<Rightarrow> world \<Rightarrow> bool" where
  "unexpired k w \<longleftrightarrow> (\<forall>v t n. w_redis w k = Some (v, Some t) \<longrightarrow> e_clock (w_env w) n < t)"

text \<open>\<open>wire\<close> is the value that a client reads from the text of an answer.\<close>

definition replayed :: "(int \<Rightarrow> json \<Rightarrow> json) \<Rightarrow> reply \<Rightarrow> reply \<Rightarrow> bool" where
  "replayed wire rp rp' \<longleftrightarrow> rp_status rp' = 429
     \<or> rp_status rp' = rp_status rp \<and> rp_body rp' = wire (rp_status rp) (rp_body rp)
       \<and> (''X-Idempotent-Replay'', ''true'') \<in> set (rp_headers rp')"

definition answered_again :: "(int \<Rightarrow> json \<Rightarrow> json) \<Rightarrow> reply \<Rightarrow> exchange \<Rightarrow> bool" where
  "answered_again wire rp ex \<longleftrightarrow> ex_error ex = None \<and> ex_meta ex = None \<and> (\<exists>rp'. ex_sent ex = Some rp' \<and> replayed wire rp rp')"

definition json_laws :: "server \<Rightarrow> (int \<Rightarrow> json \<Rightarrow> json) \<Rightarrow> bool" where
  "json_laws sv wire \<longleftrightarrow> (\<forall>j. plain j \<longrightarrow> sv_parse sv (stringify (sv_ps sv) j) = Some j)
     \<and> (\<forall>st j. plain j \<longrightarrow> sv_parse sv (sv_serialize sv st j) = Some (wire st j))"

context redis_server
begin

lemma get_remembered:
  assumes e: "\<forall>n. e_fault e n = Fine" and k: "idempotency_key client key \<in> K"
    and f: "f (idempotency_key client key) = Some (v, t)" "\<forall>x n. t = Some x \<longrightarrow> e_clock e n < x"
    and v: "v \<noteq> []" "parse v = Some j"
  shows "keeps (stays e d f K) (idempotency_get C parse client key) (\<lambda>x. x = read_record j)"
  unfolding keeps_def
proof (intro allI impI)
  fix w
  let ?k = "idempotency_key client key"
  assume w: "stays e d f K w"
  then have "quiet w" "alive ?k w" using e k f by (auto simp: stays_def quiet_def alive_def)
  note get = get_alive [OF this]
  have fk: "map_option fst (w_redis w ?k) = Some v" using w k f(1) by (simp add: stays_def)
  show "wp (idempotency_get C parse client key) (\<lambda>r w'. stays e d f K w' \<and> (\<forall>x. r = Ok x \<longrightarrow> x = read_record j)) w"
    unfolding idempotency_get_def wp_catchM wp_bindM
    by (rule wp_mono [OF get]) (use fk v w in \<open>auto simp: wp_ret stays_def dest: redis_to_sel\<close>)
qed

lemma idempotency_replays:
  assumes C: "C = sv_redis sv" and e: "\<forall>n. e_fault e n = Fine"
    and hdr: "rx_headers rq ''idempotency-key'' = Some key" "rx_headers rq ''x-client-id'' = Some client" "key \<noteq> []" "client \<noteq> []"
    and f: "f (idempotency_key client key) = Some (stringify (sv_ps sv) (record_json rec), t)" "\<forall>x n. t = Some x \<longrightarrow> e_clock e n < x"
    and rec: "record_of sv (hashBody (sv_sha sv) (sv_ps sv) rq) rp rec" "plain (rp_body rp)" "success (rp_status rp)" "json_laws sv wire"
    and ex: "ex_req ex = rq" "ex_meta ex = None" "ex_error ex = None"
  shows "keeps (stays e d f (store_keys key)) (idempotencyMiddleware (sv_redis sv) (sv_parse sv) (sv_sha sv) (sv_ps sv) ex) (answered_again wire rp)"
proof -
  have th: "truthy_header rq ''idempotency-key'' = Some key" "truthy_header rq ''x-client-id'' = Some client"
    using hdr by (simp_all add: truthy_header_def)
  have parse: "sv_parse sv (stringify (sv_ps sv) (record_json rec)) = Some (record_json rec)"
    "sv_parse sv (ir_response rec) = Some (wire (rp_status rp) (rp_body rp))"
  proof -
    have "plain (record_json rec)" using rec(1,3) by (simp add: record_json_def record_of_def success_def)
    then show "sv_parse sv (stringify (sv_ps sv) (record_json rec)) = Some (record_json rec)"
      using rec(4) unfolding json_laws_def by blast
    show "sv_parse sv (ir_response rec) = Some (wire (rp_status rp) (rp_body rp))"
      using rec by (simp add: json_laws_def record_of_def)
  qed
  have k: "idempotency_key client key \<in> store_keys key" by (simp add: store_keys_def)
  have ne: "stringify (sv_ps sv) (record_json rec) \<noteq> []" by (simp add: record_json_def)
  show ?thesis
    unfolding idempotencyMiddleware_def ex(1) th option.case prod.case Let_def
    by (rule keeps_bindM [OF get_remembered [where K = "store_keys key" and f = f and parse = "sv_parse sv", OF e k f ne parse(1), unfolded C]])
      (use rec ex parse in \<open>auto simp: record_of_def answered_again_def replayed_def send_def set_header_def intro!: keeps_ret\<close>)
qed

end

lemma run_hooks_answers:
  assumes "keeps I (h ex) P" and "\<And>ex'. P ex' \<Longrightarrow> answered ex'"
  shows "keeps I (run_hooks (h # hs) ex) P"
  by (rule keeps_run_hooks_Cons [where P = P]) (use assms in blast)+

lemma second_request:
  assumes S: "redis_server (sv_redis sv)" and q: "quiet w"
    and hdr: "rx_headers rq ''idempotency-key'' = Some key" "rx_headers rq ''x-client-id'' = Some client" "key \<noteq> []" "client \<noteq> []"
    and held: "holds_record sv (idempotency_key client key) (hashBody (sv_sha sv) (sv_ps sv) (rq\<lparr>rx_body := b\<rparr>)) rp w"
      "unexpired (idempotency_key client key) w"
    and rp: "plain (rp_body rp)" "success (rp_status rp)" "json_laws sv wire" "sv_bodySchema sv (rx_body rq) = Inr b"
  shows "wp (serve_post_order sv create rq) (\<lambda>r w'. w_db w' = w_db w
     \<and> (\<forall>ex. r = Ok ex \<longrightarrow> (\<exists>rp'. ex_sent ex = Some rp' \<and> replayed wire rp rp'))) w"
proof -
  let ?rq = "rq\<lparr>rx_body := b\<rparr>" and ?I = "stays (w_env w) (w_db w) (w_redis w) (store_keys key)" and ?k = "idempotency_key client key"
  note C = redis_server.laws [OF S]
  have e: "\<forall>n. e_fault (w_env w) n = Fine" using q by (simp add: quiet_def)
  obtain rec t where f: "w_redis w ?k = Some (stringify (sv_ps sv) (record_json rec), t)" "\<forall>x n. t = Some x \<longrightarrow> e_clock (w_env w) n < x"
      and rec: "record_of sv (hashBody (sv_sha sv) (sv_ps sv) ?rq) rp rec"
    using held by (auto 4 4 simp: holds_record_def unexpired_def)
  have hdr': "rx_headers ?rq ''idempotency-key'' = Some key" "rx_headers ?rq ''x-client-id'' = Some client" using hdr by simp_all
  have "keeps ?I (run_hooks (requestContextMiddleware # order_hooks sv) (open_exchange ?rq)) (answered_again wire rp)"
    unfolding order_hooks_def
  proof (rule keeps_run_hooks_Cons [OF keeps_requestContext])
    fix ex1
    assume 1: "ex_req ex1 = ex_req (open_exchange ?rq) \<and> ex_meta ex1 = ex_meta (open_exchange ?rq)
        \<and> answered ex1 = answered (open_exchange ?rq)" "\<not> answered ex1"
    show "keeps ?I (run_hooks [rateLimitMiddleware (sv_redis sv) (sv_toISOString sv) (sv_cfg sv),
        idempotencyMiddleware (sv_redis sv) (sv_parse sv) (sv_sha sv) (sv_ps sv), validateBody (sv_issues sv)] ex1) (answered_again wire rp)"
    proof (rule keeps_run_hooks_Cons [OF keeps_rateLimit [OF C]])
      fix ex2
      assume 2: "ex_req ex2 = ex_req ex1 \<and> ex_meta ex2 = ex_meta ex1
        \<and> (answered ex2 \<longrightarrow> answered ex1 \<or> ex_error ex2 = None \<and> map_option rp_status (ex_sent ex2) = Some 429)"
      show "answered_again wire rp ex2" if "answered ex2"
        using 1 2 that by (auto simp: answered_again_def replayed_def open_exchange_def)
      assume "\<not> answered ex2"
      then have ex2: "ex_req ex2 = ?rq" "ex_meta ex2 = None" "ex_error ex2 = None"
        using 1 2 by (auto simp: open_exchange_def answered_def)
      show "keeps ?I (run_hooks [idempotencyMiddleware (sv_redis sv) (sv_parse sv) (sv_sha sv) (sv_ps sv),
          validateBody (sv_issues sv)] ex2) (answered_again wire rp)"
        by (rule run_hooks_answers, rule redis_server.idempotency_replays [where f = "w_redis w" and sv = sv, OF S HOL.refl e hdr' hdr(3,4) f rec rp(1,2,3) ex2])
          (auto simp: answered_again_def answered_def)
    qed
  qed (auto simp: answered_def open_exchange_def)
  from keepsD [OF this] have hooks: "wp (run_hooks (requestContextMiddleware # order_hooks sv) (open_exchange ?rq))
      (\<lambda>r w'. w_db w' = w_db w \<and> (\<forall>ex. r = Ok ex \<longrightarrow> answered_again wire rp ex)) w"
    by (rule wp_mono) (auto simp: stays_def)
  have idle: "onSend (sv_redis sv) (sv_ps sv) (sv_toISOString sv) (sv_serialize sv) (sv_cfg sv) ex = ret ()" if "ex_meta ex = None" for ex
    using that by (simp add: onSend_def)
  show ?thesis
    unfolding serve_post_order_def serve_def body_schema_def rp(4) sum.case run_route_def wp_bindM
  proof (rule wp_mono [OF hooks], elim conjE, goal_cases)
    case (1 r w1)
    then show ?case
      by (cases r) (auto simp: answered_again_def wp_ret wp_thenM idle)
  qed
qed


section \<open>A server with a parser\<close>

text \<open>A server whose \<open>JSON.parse\<close> is \<open>json_parse\<close>.\<close>

definition json_server :: server where
  "json_server = example_server\<lparr>sv_parse := json_parse (\<lambda>_. None), sv_serialize := (\<lambda>_. stringify (\<lambda>_. []))\<rparr>"

lemma json_server_laws: "json_laws json_server (\<lambda>_ j. j)" "redis_server (sv_redis json_server)" "honest (sv_view json_server)"
  by (simp_all add: json_laws_def json_server_def example_server_def json_parse_stringify mem.redis_server_axioms honest_def)

definition example_post :: http_req where
  "example_post = \<lparr>rx_id = ''r1'', rx_method = ''POST'', rx_url = ''/'',
     rx_headers = [''idempotency-key'' \<mapsto> ''k1'', ''x-client-id'' \<mapsto> ''c1''],
     rx_body = Some (JObj [(''customerId'', JStr ''c''), (''items'', JArr [JObj [(''sku'', JStr ''A''),
        (''quantity'', JNum (Whole 2)), (''unitPrice'', JStr ''19.99'')]]), (''paymentToken'', JStr ''tok'')]),
     rx_ip = None, rx_params = Map.empty, rx_query = Map.empty\<rparr>"

definition example_creator :: order_creator where
  "example_creator = service_createOrder cents_lib (pg_order_repo cents_lib) pg_outbox_repo (saga_enqueue list_bullmq example_config) pg_tx_manager"

end
