(* ===== verification/Post_Accept.thy ===== *)
theory Post_Accept
  imports Post_Replay Saga_Liveness Outbox_Processor
begin

text \<open>
  \<open>POST /orders\<close> where nothing fails: an acceptable order is accepted.  The service by triples of total
  correctness, the hooks by the laws of \<open>redis_server\<close>.
\<close>


section \<open>The service\<close>

text \<open>Nothing fails, the queues are \<open>Q\<close> and the data \<open>d\<close>, and no identifier still to be drawn is in \<open>U\<close>.\<close>

type_synonym queues = "string \<Rightarrow> job list"

definition stage :: "env \<Rightarrow> queues \<Rightarrow> db \<Rightarrow> string set \<Rightarrow> world \<Rightarrow> bool" where
  "stage e Q d U w \<longleftrightarrow> calm_env e \<and> w_env w = e \<and> w_queues w = Q \<and> w_db w = d \<and> (\<forall>n \<ge> w_tick w. e_uuid e n \<notin> U)"

text \<open>The next \<open>N\<close> identifiers fit a column of 64 characters.\<close>

definition short_ids :: "env \<Rightarrow> nat \<Rightarrow> world \<Rightarrow> bool" where
  "short_ids e N w \<longleftrightarrow> (\<forall>n. w_tick w \<le> n \<longrightarrow> n < w_tick w + N \<longrightarrow> length (e_uuid e n) \<le> 64)"

lemma short_ids_later: "short_ids e N w \<Longrightarrow> w_tick w \<le> w_tick w' \<Longrightarrow> w_tick w' + M \<le> w_tick w + N \<Longrightarrow> short_ids e M w'"
  by (simp add: short_ids_def)

definition stage_tx :: "env \<Rightarrow> queues \<Rightarrow> db \<Rightarrow> string set \<Rightarrow> world \<Rightarrow> bool" where
  "stage_tx e Q d U w \<longleftrightarrow> calm_env e \<and> w_env w = e \<and> w_queues w = Q \<and> w_tx w = Some d \<and> (\<forall>n \<ge> w_tick w. e_uuid e n \<notin> U)"

lemma stage_later: "stage e Q d U w \<Longrightarrow> w_env w' = w_env w \<Longrightarrow> w_queues w' = w_queues w \<Longrightarrow> w_db w' = w_db w \<Longrightarrow> w_tick w \<le> w_tick w' \<Longrightarrow> stage e Q d U w'"
  by (auto simp: stage_def)

lemma later_uuid: "calm_env e \<Longrightarrow> m < n \<Longrightarrow> e_uuid e n \<noteq> e_uuid e m"
  by (auto simp: calm_env_def dest: injD)

lemma total_stage_uuid: "total (stage e Q d U) uuidM (\<lambda>i w. i \<notin> U \<and> stage e Q d (insert i U) w)"
  unfolding total_def wp_uuidM by (auto simp: stage_def later_uuid)

lemma total_first_uuid:
  "total (\<lambda>w. stage e Q d U w \<and> short_ids e (Suc N) w) uuidM (\<lambda>i w. (i \<notin> U \<and> length i \<le> 64) \<and> stage e Q d (insert i U) w)"
  unfolding total_def wp_uuidM by (auto simp: stage_def short_ids_def later_uuid)

lemma total_short_now: "total (\<lambda>w. stage e Q d U w \<and> short_ids e (Suc N) w) nowM (\<lambda>_ w. stage e Q d U w \<and> short_ids e N w)"
  unfolding total_def wp_nowM by (auto simp: stage_def short_ids_def)

lemma total_stage_now: "total (stage e Q d U) nowM (\<lambda>_. stage e Q d U)"
  unfolding total_def wp_nowM by (simp add: stage_def)

lemma total_tx_uuid: "total (stage_tx e Q d U) uuidM (\<lambda>i w. i \<notin> U \<and> stage_tx e Q d (insert i U) w)"
  unfolding total_def wp_uuidM by (auto simp: stage_tx_def tick_def later_uuid)

lemma total_tx_now: "total (stage_tx e Q d U) nowM (\<lambda>_. stage_tx e Q d U)"
  unfolding total_def wp_nowM by (simp add: stage_tx_def)

lemma total_tx_sql:
  assumes "st d = Inr (a, d')"
  shows "total (stage_tx e Q d U) (sqlM Tx st) (\<lambda>_. stage_tx e Q d' U)"
  unfolding total_def
proof (intro allI impI)
  fix w
  assume "stage_tx e Q d U w"
  then have w: "calm_env e" "w_env w = e" "w_queues w = Q" "w_tx w = Some d" "\<forall>n \<ge> w_tick w. e_uuid e n \<notin> U" by (auto simp: stage_tx_def)
  moreover have "e_fault (w_env w) (w_tick w) = Fine" using w(1,2) by (simp add: calm_env_def)
  ultimately show "wp (sqlM Tx st) (\<lambda>r w'. \<exists>a. r = Ok a \<and> stage_tx e Q d' U w') w"
    using assms by (simp add: sqlM_def ioM_def wp_def view_def stage_tx_def put_view_def)
qed

lemma total_begin:
  assumes "total (stage_tx e Q d U) (fn Tx) (\<lambda>_ w. \<exists>d'. stage_tx e Q d' U w)"
  shows "total (stage e Q d U) (tm_begin pg_tx_manager fn) (\<lambda>_ w. \<exists>d'. stage e Q d' U w)"
proof -
  have start: "total (stage e Q d U) (ioM (modifyM (\<lambda>w. w\<lparr>w_tx := Some (w_db w)\<rparr>))) (\<lambda>_. stage_tx e Q d U)"
    unfolding total_def wp_ioM by (auto simp: stage_def stage_tx_def calm_env_def wp_modifyM tick_def)
  have commit: "total (\<lambda>w. \<exists>d'. stage_tx e Q d' U w) (ioM (modifyM (\<lambda>w. w\<lparr>w_db := view Tx w\<rparr>))) (\<lambda>_ w. \<exists>d'. stage e Q d' U w)"
    unfolding total_def wp_ioM by (auto simp: stage_def stage_tx_def calm_env_def wp_modifyM tick_def view_def)
  have "total (stage e Q d U) (bindM (ioM (modifyM (\<lambda>w. w\<lparr>w_tx := Some (w_db w)\<rparr>)))
            (\<lambda>_. bindM (fn Tx) (\<lambda>a. thenM (ioM (modifyM (\<lambda>w. w\<lparr>w_db := view Tx w\<rparr>))) (ret a)))) (\<lambda>_ w. \<exists>d'. stage e Q d' U w)"
    by (intro total_bindM [OF start] total_bindM [OF assms] total_thenM [OF commit] total_ret)
  then show ?thesis
    unfolding total_def pg_tx_manager_def tx_manager.simps wp_pg_begin
    by (auto simp: stage_def elim!: wp_mono)
qed

text \<open>The items are made, with identifiers of their own.\<close>

definition made :: "env \<Rightarrow> 'd decimal_lib \<Rightarrow> string \<Rightarrow> string \<Rightarrow> order_line list \<Rightarrow> string set \<Rightarrow> order_item list \<Rightarrow> bool" where
  "made e L oid cur lines U items \<longleftrightarrow> items_from L oid cur lines items \<and> distinct (map item_id items)
     \<and> item_id ` set items \<inter> U = {}"

lemma made_from: "made e L oid cur lines U items \<Longrightarrow> items_from L oid cur lines items"
  by (simp add: made_def)

lemma total_create_items:
  assumes "\<And>l iid. l \<in> set lines \<Longrightarrow> \<exists>i. createOrderItem L iid oid (ol_sku l) (ol_quantity l) (ol_unitPrice l) cur = Inr i"
  shows "total (stage e Q d U) (create_items L oid cur lines)
     (\<lambda>items w. made e L oid cur lines U items \<and> stage e Q d (U \<union> item_id ` set items) w)"
  using assms
proof (induction lines arbitrary: U)
  case Nil
  then show ?case by (auto simp: made_def items_from_def intro: total_ret)
next
  case (Cons l lines)
  have rest: "total (stage e Q d (insert iid U)) (bindM (liftR (createOrderItem L iid oid (ol_sku l) (ol_quantity l) (ol_unitPrice l) cur))
       (\<lambda>item. bindM (create_items L oid cur lines) (\<lambda>items. ret (item # items))))
     (\<lambda>items w. made e L oid cur (l # lines) U items \<and> stage e Q d (U \<union> item_id ` set items) w)" if "iid \<notin> U" for iid
  proof -
    obtain i where i: "createOrderItem L iid oid (ol_sku l) (ol_quantity l) (ol_unitPrice l) cur = Inr i" using Cons.prems by auto
    have iid: "item_id i = iid" using createOrderItem_Inr(3) [OF i] .
    have more: "total (stage e Q d (insert iid U)) (create_items L oid cur lines)
        (\<lambda>items w. made e L oid cur lines (insert iid U) items \<and> stage e Q d (insert iid U \<union> item_id ` set items) w)"
      by (rule Cons.IH) (use Cons.prems in auto)
    show ?thesis
      by (intro total_bindR [OF i] total_bindM [OF more] total_ret)
        (use i iid that in \<open>auto simp: made_def items_from_def\<close>)
  qed
  show ?case
    unfolding create_items.simps
    by (rule total_bindM [OF total_stage_uuid]) (use rest in \<open>auto simp: total_def\<close>)
qed

text \<open>The total of a valid body, in cents, and what the tables demand of an order.\<close>

definition line_cents :: "order_line \<Rightarrow> nat" where
  "line_cents l = (case price_cents (ol_unitPrice l) of Some n \<Rightarrow> n | None \<Rightarrow> 0) * nat (whole (ol_quantity l))"

definition body_cents :: "order_input \<Rightarrow> nat" where
  "body_cents inp = sum_list (map line_cents (in_items inp))"

definition table_ids :: "db \<Rightarrow> string set" where
  "table_ids d = or_id ` set (db_orders d) \<union> oi_id ` set (db_items d) \<union> ev_id ` set (db_outbox d)"

lemma digits_length: "n < 10 ^ k \<Longrightarrow> 0 < k \<Longrightarrow> length (digits_of n) \<le> k"
proof (induction k arbitrary: n)
  case (Suc k)
  show ?case
  proof (cases "n < 10")
    case False
    then have "length (digits_of (n div 10)) \<le> k" using Suc.prems Suc.IH [of "n div 10"] by (cases k) auto
    then show ?thesis using False by (subst digits_of.simps) simp
  qed (subst digits_of.simps, simp)
qed simp

lemma numeric_cents: "n < 10 ^ 12 \<Longrightarrow> numeric_12_2 (cents_string n)"
proof -
  assume "n < 10 ^ 12"
  then have len: "length (digits_of (n div 100)) \<le> 10" by (intro digits_length) simp_all
  have "takeWhile (\<lambda>c. c \<noteq> CHR ''.'') (cents_string n) = digits_of (n div 100)"
  proof -
    have "\<not> is_digit (CHR ''.'')" by code_simp
    then have "\<forall>c \<in> set (digits_of (n div 100)). c \<noteq> CHR ''.''" using digits_of_digits by blast
    then show ?thesis by (simp add: cents_string_def takeWhile_append2)
  qed
  with len show "numeric_12_2 (cents_string n)" by (simp add: numeric_12_2_def)
qed

lemma made_line:
  assumes L: "decimal_laws L rep" and cur: "length cur = 3" and l: "CreateOrderItemSchema x = Some l"
    and i: "createOrderItem L iid oid (ol_sku l) (ol_quantity l) (ol_unitPrice l) cur = Inr i"
  shows "priced_in (toUpperCase cur) i" "item_cents i = line_cents l" "item_orderId i = oid"
    "length (oi_sku (item_row_of i)) \<le> 64 \<and> 0 < oi_quantity (item_row_of i) \<and> int4 (oi_quantity (item_row_of i))"
    "\<exists>n \<le> line_cents l. oi_unit_price (item_row_of i) = cents_string n"
proof -
  obtain n where n: "price_cents (ol_unitPrice l) = Some n" using line_Some(7) [OF l] by auto
  note q = createOrderItem_Inr [OF i]
  have price: "item_unitPrice i = cents n (toUpperCase cur)" using q(6) new_money_price [OF L n cur] by simp
  show "priced_in (toUpperCase cur) i" using createOrderItem_priced [OF L n i] .
  show lc: "item_cents i = line_cents l" using price q(1) n by (simp add: item_cents_def line_cents_def whole_def)
  show "item_orderId i = oid" by (rule q(4))
  have "item_quantity i \<le> 1000" using line_Some(6) [OF l] q(1) by (simp add: whole_def)
  then show "length (oi_sku (item_row_of i)) \<le> 64 \<and> 0 < oi_quantity (item_row_of i) \<and> int4 (oi_quantity (item_row_of i))"
    using q(2,5) by (auto simp: item_row_of_def new_sku_Inr_iff int4_def)
  show "\<exists>n \<le> line_cents l. oi_unit_price (item_row_of i) = cents_string n"
    using price q(1,2) n by (intro exI [of _ n]) (simp add: item_row_of_def line_cents_def whole_def Suc_le_eq)
qed

text \<open>The items made of a valid body, together.\<close>

lemma made_items:
  assumes L: "decimal_laws L rep" and ok: "CreateOrderSchema j = Some inp" and m: "items_from L oid (in_currency inp) (in_items inp) items"
    and small: "body_cents inp < 10 ^ 12"
  shows "items \<noteq> []" "list_all (priced_in (toUpperCase (in_currency inp))) items" "total_cents items = body_cents inp"
    "list_all (item_row_ok d) (map item_row_of items)" "oi_order_id ` set (map item_row_of items) \<subseteq> {oid}"
proof -
  have cur: "length (in_currency inp) = 3" and ne: "in_items inp \<noteq> []"
    and line: "\<And>l. l \<in> set (in_items inp) \<Longrightarrow> \<exists>x. CreateOrderItemSchema x = Some l"
    using schema_Some [OF ok] by auto
  have le: "line_cents l \<le> body_cents inp" if "l \<in> set (in_items inp)" for l
    using member_le_sum_list [of "line_cents l" "map line_cents (in_items inp)"] that by (simp add: body_cents_def)
  let ?R = "\<lambda>l i. createOrderItem L (item_id i) oid (ol_sku l) (ol_quantity l) (ol_unitPrice l) (in_currency inp) = Inr i"
  have all: "list_all2 ?R (in_items inp) items" using m by (simp add: items_from_def)
  have one: "priced_in (toUpperCase (in_currency inp)) i \<and> item_cents i = line_cents l \<and> item_row_ok d (item_row_of i) \<and> item_orderId i = oid"
    if l: "l \<in> set (in_items inp)" and i: "?R l i" for l i
  proof -
    obtain x where x: "CreateOrderItemSchema x = Some l" using line [OF l] by blast
    note ml = made_line [OF L cur x i]
    obtain n where "n \<le> line_cents l" "oi_unit_price (item_row_of i) = cents_string n" using ml(5) by blast
    moreover have "n < 10 ^ 12" using calculation(1) le [OF l] small by linarith
    ultimately have "numeric_12_2 (oi_unit_price (item_row_of i))" using numeric_cents by simp
    then show ?thesis using ml by (simp add: item_row_ok_def)
  qed
  have each: "list_all2 (\<lambda>l i. priced_in (toUpperCase (in_currency inp)) i \<and> item_cents i = line_cents l
      \<and> item_row_ok d (item_row_of i) \<and> item_orderId i = oid) (in_items inp) items"
    using all by (rule list.rel_mono_strong) (use one in blast)
  then show "items \<noteq> []" using ne by auto
  show "list_all (priced_in (toUpperCase (in_currency inp))) items" "list_all (item_row_ok d) (map item_row_of items)"
    "oi_order_id ` set (map item_row_of items) \<subseteq> {oid}"
    using list_all2_right [OF each] by (auto simp: list_all_iff item_row_of_def)
  have "map item_cents items = map line_cents (in_items inp)"
    using each by (induction rule: list_all2_induct) simp_all
  then show "total_cents items = body_cents inp" by (simp add: total_cents_def body_cents_def)
qed

text \<open>The transaction commits.\<close>

lemma total_create_tx:
  assumes rows: "insert_order (order_row_of ord) d = Inr ((), d1)" "order_items ord \<noteq> []"
      "insert_items (map item_row_of (order_items ord)) d1 = Inr ((), d2)"
    and ev: "ev_id ` set (db_outbox d2) \<subseteq> U" "length (order_id ord) \<le> 64"
  shows "total (stage_tx e Q d U) (thenM (or_createWithSql (pg_order_repo L') ord Tx)
      (bindM (ob_createWithSql pg_outbox_repo (created_event request ord) Tx) (\<lambda>_. ret ()))) (\<lambda>_ w. \<exists>d'. stage_tx e Q d' U w)"
proof -
  have event: "total (stage_tx e Q d2 (insert i U)) (sqlM Tx (insert_event (event_row_of (created_event request ord) i t)))
      (\<lambda>_ w. \<exists>d'. stage_tx e Q d' U w)" if "i \<notin> U" for i t
  proof -
    have "\<exists>d3. insert_event (event_row_of (created_event request ord) i t) d2 = Inr ((), d3)"
      using that ev by (auto simp: insert_event_def created_event_def event_row_of_def)
    then obtain d3 where d3: "insert_event (event_row_of (created_event request ord) i t) d2 = Inr ((), d3)" by blast
    show ?thesis
      by (rule total_weaken [OF total_tx_sql [where st = "insert_event (event_row_of (created_event request ord) i t)" and d = d2 and U = "insert i U", OF d3]]) (auto simp: stage_tx_def)
  qed
  have timed: "total (stage_tx e Q d2 (insert i U)) (bindM nowM (\<lambda>t.
        thenM (sqlM Tx (insert_event (event_row_of (created_event request ord) i t))) (ret i))) (\<lambda>_ w. \<exists>d'. stage_tx e Q d' U w)"
    if "i \<notin> U" for i
    by (intro total_bindM [OF total_tx_now] total_thenM [OF event [OF that]] total_ret)
  have out: "total (stage_tx e Q d2 U) (outbox_createWithSql (created_event request ord) Tx) (\<lambda>_ w. \<exists>d'. stage_tx e Q d' U w)"
    unfolding outbox_createWithSql_def
    by (rule total_bindM [OF total_tx_uuid]) (use timed in \<open>auto simp: total_def\<close>)
  have orders: "total (stage_tx e Q d U) (order_createWithSql ord Tx) (\<lambda>_. stage_tx e Q d2 U)"
    unfolding order_createWithSql_def whenM_def using rows(2)
    by (simp, intro total_thenM [OF total_tx_sql [where st = "insert_order (order_row_of ord)" and d = d, OF rows(1)]] total_tx_sql [where st = "insert_items (map item_row_of (order_items ord))" and d = d1, OF rows(3)])
  show ?thesis
    unfolding pg_order_sel by (intro total_thenM [OF orders] total_bindM [OF out] total_ret)
qed

text \<open>The request for a valid body, and the data it can be stored in.\<close>

definition request_of :: "order_input \<Rightarrow> string \<Rightarrow> order_request" where
  "request_of inp key = \<lparr>co_customerId = in_customerId inp, co_items = in_items inp, co_currency = in_currency inp,
     co_idempotencyKey = Some key, co_paymentToken = in_paymentToken inp\<rparr>"

definition storable :: "order_input \<Rightarrow> string \<Rightarrow> db \<Rightarrow> bool" where
  "storable inp key d \<longleftrightarrow> body_cents inp < 10 ^ 12 \<and> length key \<le> 255 \<and> \<not> used key d \<and> keyed oi_id (db_items d)"

lemma schema_customer: "CreateOrderSchema j = Some inp \<Longrightarrow> length (in_customerId inp) \<le> 64"
  unfolding CreateOrderSchema_def by (auto split: option.splits json.splits if_splits)

lemma order_insertable:
  assumes L: "decimal_laws L rep" and ok: "CreateOrderSchema j = Some inp" and st: "storable inp key d"
    and m: "made e L oid (in_currency inp) (in_items inp) U items" and ids: "table_ids d \<subseteq> U" "oid \<notin> table_ids d"
  shows "\<exists>ord d1 d2. createOrder L oid (in_customerId inp) items (in_currency inp) (Some key) t1 t2 = Inr ord
     \<and> order_items ord = items \<and> order_id ord = oid \<and> insert_order (order_row_of ord) d = Inr ((), d1)
     \<and> insert_items (map item_row_of items) d1 = Inr ((), d2) \<and> db_outbox d2 = db_outbox d"
proof -
  have cur: "length (in_currency inp) = 3" using schema_Some [OF ok] by simp
  have small: "body_cents inp < 10 ^ 12" using st by (simp add: storable_def)
  note mi = made_items [OF L ok made_from [OF m] small]
  have "total_cents items < 10 ^ 28" using mi(3) small by simp
  note ord = createOrder_total [OF L cur mi(1,2) this, of oid "in_customerId inp" "Some key" t1 t2]
  let ?ord = "\<lparr>order_id = oid, order_customerId = in_customerId inp, order_status = PENDING,
          order_totalAmount = cents (total_cents items) (toUpperCase (in_currency inp)),
          order_currency = toUpperCase (in_currency inp), order_idempotencyKey = Some key,
          order_items = items, order_createdAt = t1, order_updatedAt = t2\<rparr>"
  let ?d1 = "d\<lparr>db_orders := db_orders d @ [order_row_of ?ord]\<rparr>"
  have "insert_order (order_row_of ?ord) d = Inr ((), ?d1)"
    unfolding insert_order_def require_Inr_iff
    using schema_customer [OF ok] cur numeric_cents mi(3) small st ids(2)
    by (auto simp: order_row_of_def storable_def used_def table_ids_def)
  moreover have "insert_items (map item_row_of items) ?d1 = Inr ((), ?d1\<lparr>db_items := db_items d @ map item_row_of items\<rparr>)"
  proof -
    have "distinct (map item_id items)" "item_id ` set items \<inter> oi_id ` set (db_items d) = {}"
      using m ids(1) unfolding made_def table_ids_def by blast+
    then have "keyed oi_id (db_items d @ map item_row_of items)"
      using st by (auto simp: storable_def keyed_def item_row_of_def comp_def)
    then show ?thesis
      unfolding insert_items_def require_Inr_iff using mi(4) [of ?d1] mi(5) by auto
  qed
  ultimately show ?thesis
    using ord by - (rule exI [of _ ?ord], rule exI [of _ ?d1], rule exI [of _ "?d1\<lparr>db_items := db_items d @ map item_row_of items\<rparr>"], simp)
qed

text \<open>The job of a saga is in its queue with data that read back as the context.\<close>

definition queued :: "app_config \<Rightarrow> saga_context \<Rightarrow> world \<Rightarrow> bool" where
  "queued cfg c w \<longleftrightarrow> (\<exists>job \<in> set (jobs_of (createQueue cfg ''saga-execution'') w).
     job_id job = ''saga-'' @ cx_orderId c \<and> read_context (job_data job) = Some c)"

definition queued_ids :: "app_config \<Rightarrow> queues \<Rightarrow> string set" where
  "queued_ids cfg Q = {i. ''saga-'' @ i \<in> job_id ` set (Q (queue_key (createQueue cfg ''saga-execution'')))}"

lemma saga_enqueue_adds:
  assumes "bullmq_laws B" and new: "cx_orderId c \<notin> queued_ids cfg (w_queues w)"
  shows "wp (saga_enqueue B cfg c) (\<lambda>r w'. only_queues w w' \<and> (\<forall>i. r = Ok i \<longrightarrow> queued cfg c w')) w"
  unfolding saga_enqueue_def wp_bindM
proof (rule wp_mono [OF bullmq_add_wp [OF assms(1)]], elim conjE, goal_cases)
  case (1 r w1)
  have none: "\<not> has_job (createQueue cfg ''saga-execution'') (''saga-'' @ cx_orderId c) w"
    using new by (auto simp: has_job_def jobs_of_def queued_ids_def)
  have "queued cfg c w1" if "r = Ok x" for x
  proof -
    have "has_job (createQueue cfg ''saga-execution'') (''saga-'' @ cx_orderId c) w1" using 1(3) that by auto
    with none have "w_queues w1 \<noteq> w_queues w" by (auto simp: has_job_def jobs_of_def)
    with 1(2) show ?thesis by (auto simp: added_def queued_def jobs_of_def)
  qed
  then show ?case using 1(1) by (cases r) (auto simp: wp_ret)
qed

lemma total_enqueue:
  assumes B: "bullmq_laws B" "bullmq_answers B" and new: "cx_orderId c \<notin> queued_ids cfg Q"
  shows "total (stage e Q d U) (catchM (saga_enqueue B cfg c) h) (\<lambda>i w. w_env w = e \<and> queued cfg c w)"
proof (rule total_catchM, unfold total_def, intro allI impI)
  fix w
  assume w: "stage e Q d U w"
  then have "quiet w" and new': "cx_orderId c \<notin> queued_ids cfg (w_queues w)" using new by (auto simp: stage_def calm_env_def quiet_def)
  then have "wp (saga_enqueue B cfg c) (\<lambda>r w'. \<exists>i. r = Ok i) w"
    unfolding saga_enqueue_def wp_bindM
    by (intro wp_mono [OF quiet_add [OF B]]) (auto simp: wp_ret)
  then show "wp (saga_enqueue B cfg c) (\<lambda>r w'. \<exists>i. r = Ok i \<and> w_env w' = e \<and> queued cfg c w') w"
    using saga_enqueue_adds [OF B(1) new'] w by (auto simp: wp_def stage_def only_queues_sel)
qed

lemma total_createOrder:
  assumes L: "decimal_laws L rep" and B: "bullmq_laws B" "bullmq_answers B"
    and ok: "CreateOrderSchema j = Some inp" and st: "storable inp key d"
    and ids: "table_ids d \<subseteq> U" "queued_ids cfg Q \<subseteq> U"
  shows "total (\<lambda>w. stage e Q d U w \<and> short_ids e (Suc N) w) (service_createOrder L (pg_order_repo L') pg_outbox_repo (saga_enqueue B cfg) pg_tx_manager (request_of inp key))
     (\<lambda>x w. w_env w = e \<and> queued cfg (context_of (request_of inp key) (fst x)) w)"
proof -
  let ?rq = "request_of inp key"
  have cur: "length (in_currency inp) = 3" and line: "\<And>l. l \<in> set (in_items inp) \<Longrightarrow> \<exists>x. CreateOrderItemSchema x = Some l"
    using schema_Some [OF ok] by auto
  have tail: "total (\<lambda>w. \<exists>d'. stage e Q d' V w) (thenM (increment n l) (bindM (catchM (saga_enqueue B cfg (context_of ?rq ord)) (\<lambda>err. uuidM))
      (\<lambda>sagaId. ret (ord, sagaId))))
    (\<lambda>x w. w_env w = e \<and> queued cfg (context_of (request_of inp key) (fst x)) w)" if new: "order_id ord \<notin> U" for n l ord V
  proof -
    have "total (\<lambda>w. \<exists>d'. stage e Q d' V w) (increment n l) (\<lambda>_ w. \<exists>d'. stage e Q d' V w)"
      unfolding total_def wp_increment by (auto simp: stage_def)
    moreover have "total (\<lambda>w. \<exists>d'. stage e Q d' V w) (bindM (catchM (saga_enqueue B cfg (context_of ?rq ord)) (\<lambda>err. uuidM)) (\<lambda>sagaId. ret (ord, sagaId)))
        (\<lambda>x w. w_env w = e \<and> queued cfg (context_of (request_of inp key) (fst x)) w)"
      unfolding total_ex using new ids by (intro allI total_bindM [OF total_enqueue [OF B]] total_ret) (auto simp: context_of_def)
    ultimately show ?thesis by (rule total_thenM)
  qed
  have rest: "total (stage e Q d V) (bindM (liftR (createOrder L oid (co_customerId ?rq) items (co_currency ?rq) (co_idempotencyKey ?rq) t1 t2))
      (\<lambda>ord. thenM (tm_begin pg_tx_manager (\<lambda>tx. thenM (or_createWithSql (pg_order_repo L') ord tx)
                (bindM (ob_createWithSql pg_outbox_repo (created_event ?rq ord) tx) (\<lambda>_. ret ()))))
       (thenM (increment ''orders.created'' [(''currency'', co_currency ?rq), (''status'', ''pending'')])
          (bindM (catchM (saga_enqueue B cfg (context_of ?rq ord)) (\<lambda>err. uuidM)) (\<lambda>sagaId. ret (ord, sagaId))))))
    (\<lambda>x w. w_env w = e \<and> queued cfg (context_of (request_of inp key) (fst x)) w)"
    if m: "made e L oid (in_currency inp) (in_items inp) (insert oid U) items" and oid: "oid \<notin> U" "length oid \<le> 64" and V: "U \<subseteq> V" for oid items t1 t2 V
  proof -
    obtain ord d1 d2 where o: "createOrder L oid (in_customerId inp) items (in_currency inp) (Some key) t1 t2 = Inr ord"
        "order_items ord = items" "order_id ord = oid" "insert_order (order_row_of ord) d = Inr ((), d1)"
        "insert_items (map item_row_of items) d1 = Inr ((), d2)" "db_outbox d2 = db_outbox d"
      using order_insertable [OF L ok st m, of t1 t2] ids(1) oid by blast
    have ne: "order_items ord \<noteq> []" using made_items(1) [OF L ok made_from [OF m]] st o(2) by (simp add: storable_def)
    have "ev_id ` set (db_outbox d2) \<subseteq> V" "length (order_id ord) \<le> 64" using o(3,6) ids V oid by (auto simp: table_ids_def)
    note tx = total_create_tx [OF o(4) ne o(5) [folded o(2)] this]
    show ?thesis
      unfolding request_of_def order_request.simps
      by (rule total_bindR [OF o(1)], rule total_thenM, rule total_begin, rule tx [unfolded request_of_def], rule tail [unfolded request_of_def order_request.simps],
          use o(3) oid in simp)
  qed
  have items: "total (stage e Q d (insert oid U)) (create_items L oid (co_currency ?rq) (co_items ?rq))
      (\<lambda>items w. made e L oid (in_currency inp) (in_items inp) (insert oid U) items \<and> stage e Q d (insert oid U \<union> item_id ` set items) w)" for oid
    unfolding request_of_def order_request.simps
    by (rule total_create_items) (use line_makes_item [OF L _ cur] line in blast)
  have after: "total (\<lambda>w. made e L oid (in_currency inp) (in_items inp) (insert oid U) items \<and> stage e Q d (insert oid U \<union> item_id ` set items) w)
      (bindM nowM (\<lambda>t1. bindM nowM (\<lambda>t2. bindM (liftR (createOrder L oid (co_customerId ?rq) items (co_currency ?rq) (co_idempotencyKey ?rq) t1 t2))
      (\<lambda>ord. thenM (tm_begin pg_tx_manager (\<lambda>tx. thenM (or_createWithSql (pg_order_repo L') ord tx)
                (bindM (ob_createWithSql pg_outbox_repo (created_event ?rq ord) tx) (\<lambda>_. ret ()))))
       (thenM (increment ''orders.created'' [(''currency'', co_currency ?rq), (''status'', ''pending'')])
          (bindM (catchM (saga_enqueue B cfg (context_of ?rq ord)) (\<lambda>err. uuidM)) (\<lambda>sagaId. ret (ord, sagaId))))))))
    (\<lambda>x w. w_env w = e \<and> queued cfg (context_of (request_of inp key) (fst x)) w)"
    if oid: "oid \<notin> U" "length oid \<le> 64" for oid items
    unfolding total_pure
    by (intro impI total_bindM [OF total_stage_now] rest oid) auto
  have whole: "total (\<lambda>w. (oid \<notin> U \<and> length oid \<le> 64) \<and> stage e Q d (insert oid U) w)
      (bindM (create_items L oid (co_currency ?rq) (co_items ?rq)) (\<lambda>items. bindM nowM (\<lambda>t1. bindM nowM (\<lambda>t2.
         bindM (liftR (createOrder L oid (co_customerId ?rq) items (co_currency ?rq) (co_idempotencyKey ?rq) t1 t2))
      (\<lambda>ord. thenM (tm_begin pg_tx_manager (\<lambda>tx. thenM (or_createWithSql (pg_order_repo L') ord tx)
                (bindM (ob_createWithSql pg_outbox_repo (created_event ?rq ord) tx) (\<lambda>_. ret ()))))
       (thenM (increment ''orders.created'' [(''currency'', co_currency ?rq), (''status'', ''pending'')])
          (bindM (catchM (saga_enqueue B cfg (context_of ?rq ord)) (\<lambda>err. uuidM)) (\<lambda>sagaId. ret (ord, sagaId)))))))))
    (\<lambda>x w. w_env w = e \<and> queued cfg (context_of (request_of inp key) (fst x)) w)" for oid
    unfolding total_pure by (intro impI total_bindM [OF items] after) simp_all
  show ?thesis
    unfolding service_createOrder_def by (rule total_bindM [OF total_first_uuid whole])
qed


text \<open>What the service leaves behind when it fulfils.\<close>

definition created :: "'d decimal_lib \<Rightarrow> app_config \<Rightarrow> env \<Rightarrow> db \<Rightarrow> order_request \<Rightarrow> order \<Rightarrow> world \<Rightarrow> bool" where
  "created L cfg e d request ord w \<longleftrightarrow> w_env w = e \<and> order_from L request ord \<and> recorded_with request ord d (w_db w)
     \<and> queued cfg (context_of request ord) w"

lemma created_cong:
  "created L cfg e d request ord w \<Longrightarrow> w_env w' = w_env w \<Longrightarrow> w_db w' = w_db w \<Longrightarrow> w_queues w' = w_queues w \<Longrightarrow> created L cfg e d request ord w'"
  by (simp add: created_def queued_def jobs_of_def)

lemma total_created:
  assumes L: "decimal_laws L rep" and B: "bullmq_laws B" "bullmq_answers B"
    and ok: "CreateOrderSchema j = Some inp" and st: "storable inp key d"
    and ids: "table_ids d \<subseteq> U" "queued_ids cfg Q \<subseteq> U"
  shows "total (\<lambda>w. stage e Q d U w \<and> short_ids e (Suc N) w) (service_createOrder L (pg_order_repo L') pg_outbox_repo (saga_enqueue B cfg) pg_tx_manager (request_of inp key))
     (\<lambda>x. created L cfg e d (request_of inp key) (fst x))"
  unfolding total_def
proof (intro allI impI)
  fix w
  assume w: "stage e Q d U w \<and> short_ids e (Suc N) w"
  have enq: "upholds (on_db (=)) (saga_enqueue B cfg c)" for c using B(1) by (rule upholds_saga_enqueue) simp
  show "wp (service_createOrder L (pg_order_repo L') pg_outbox_repo (saga_enqueue B cfg) pg_tx_manager (request_of inp key))
      (\<lambda>r w'. \<exists>x. r = Ok x \<and> created L cfg e d (request_of inp key) (fst x) w') w"
  proof (rule wp_mono [OF wp_conj [THEN iffD2, OF conjI]], rule totalD [OF total_createOrder [OF L B ok st ids] w],
      rule pg_tx.createOrder_wp [where L = L, OF enq], elim conjE exE, goal_cases)
    case (1 r w1 x)
    then have "order_from L (request_of inp key) (fst x)" "recorded_with (request_of inp key) (fst x) (w_db w) (w_db w1)" by auto
    then show ?case using 1 w by (auto simp: created_def stage_def)
  qed
qed


section \<open>The request\<close>

lemma those_back: "(\<And>x. x \<in> set xs \<Longrightarrow> f (g x) = Some x) \<Longrightarrow> those (map f (map g xs)) = Some xs"
  by (induction xs) simp_all

text \<open>The body that \<open>validateBody\<close> passes on satisfies the schema once more.\<close>

lemma schema_again:
  assumes "CreateOrderSchema j = Some inp"
  shows "CreateOrderSchema (input_json inp) = Some inp"
proof -
  have "CreateOrderItemSchema (line_json l) = Some l" if l: "CreateOrderItemSchema x = Some l" for x l
    using line_Some [OF l] by (simp add: CreateOrderItemSchema_def line_json_def str_member_def)
  then have lines: "those (map CreateOrderItemSchema (map line_json (in_items inp))) = Some (in_items inp)"
    using schema_Some(4) [OF assms] by (intro those_back) blast
  have "1 \<le> length (in_items inp)" "length (in_items inp) \<le> 50" "length (in_currency inp) = 3"
    using schema_Some [OF assms] by (cases "in_items inp"; simp)+
  moreover have "1 \<le> length (in_customerId inp)" "length (in_customerId inp) \<le> 64" "1 \<le> length (in_paymentToken inp)"
    "length (in_paymentToken inp) \<le> 512"
    using assms unfolding CreateOrderSchema_def by (auto split: option.splits json.splits if_splits)
  ultimately show ?thesis using lines
    by (simp add: CreateOrderSchema_def input_json_def str_member_def)
qed

lemma redis_to_queues: "redis_to f w w' \<Longrightarrow> w_queues w' = w_queues w"
  by (auto simp: redis_to_def)

definition opened :: "http_req \<Rightarrow> exchange \<Rightarrow> bool" where
  "opened rq ex \<longleftrightarrow> ex_req ex = rq \<and> ex_sent ex = None \<and> ex_error ex = None"

definition fresh :: "env \<Rightarrow> queues \<Rightarrow> db \<Rightarrow> string set \<Rightarrow> nat \<Rightarrow> world \<Rightarrow> bool" where
  "fresh e Q d U N w \<longleftrightarrow> stage e Q d U w \<and> short_ids e N w"

lemma fresh_later:
  "fresh e Q d U N w \<Longrightarrow> w_env w' = w_env w \<Longrightarrow> w_queues w' = w_queues w \<Longrightarrow> w_db w' = w_db w \<Longrightarrow> w_tick w \<le> w_tick w' \<Longrightarrow> w_tick w' + M \<le> w_tick w + N \<Longrightarrow> fresh e Q d U M w'"
  using stage_later short_ids_later unfolding fresh_def by blast

text \<open>Room under the limit, and no answer under the key.\<close>

definition admits :: "server \<Rightarrow> env \<Rightarrow> queues \<Rightarrow> db \<Rightarrow> string set \<Rightarrow> string \<Rightarrow> string \<Rightarrow> int \<Rightarrow> nat \<Rightarrow> world \<Rightarrow> bool" where
  "admits sv e Q d U client key ws N w \<longleftrightarrow> fresh e Q d U N w \<and> no_answer (idempotency_key client key) w
     \<and> in_window (sv_cfg sv) ws w \<and> limiter_calls ws w client < rateLimitMax (sv_cfg sv)"

lemma admits_tick: "admits sv e Q d U client key ws (Suc N) w \<Longrightarrow> admits sv e Q d U client key ws N (tick w)"
  using fresh_later [of e Q d U "Suc N" w "tick w" N]
  by (auto simp: admits_def no_answer_def in_window_def limiter_calls_def)

lemma admits_less: "admits sv e Q d U client key ws N w \<Longrightarrow> M \<le> N \<Longrightarrow> admits sv e Q d U client key ws M w"
  using fresh_later [of e Q d U N w w M] by (auto simp: admits_def)

lemma total_requestContext:
  assumes "opened rq ex"
  shows "total (admits sv e Q d U client key ws (Suc (Suc N))) (requestContextMiddleware ex) (\<lambda>ex' w. opened rq ex' \<and> admits sv e Q d U client key ws N w)"
  unfolding total_def requestContextMiddleware_def
  using assms admits_tick admits_less [OF admits_tick, of sv e Q d U client key ws "Suc N"]
  by (auto simp: wp_bindM wp_nowM wp_uuidM wp_ret opened_def split: option.split)

lemma client_named: "rx_headers rq ''x-client-id'' = Some client \<Longrightarrow> client_of rq = client"
  by (simp add: client_of_def)

context redis_server
begin

lemma total_rateLimit:
  assumes C: "C = sv_redis sv" and ex: "opened rq ex" and hdr: "rx_headers rq ''x-client-id'' = Some client"
  shows "total (admits sv e Q d U client key ws (N + 3)) (rateLimitMiddleware (sv_redis sv) dt (sv_cfg sv) ex)
    (\<lambda>ex' w. opened rq ex' \<and> fresh e Q d U N w \<and> no_answer (idempotency_key client key) w)"
  unfolding total_def
proof (intro allI impI)
  fix w
  assume w: "admits sv e Q d U client key ws (N + 3) w"
  then have q: "quiet w" and win: "in_window (sv_cfg sv) ws w" and room: "limiter_calls ws w client + 1 \<le> rateLimitMax (sv_cfg sv)"
    by (auto simp: admits_def fresh_def stage_def calm_env_def quiet_def)
  have cl: "client_of (ex_req ex) = client" using ex hdr client_named by (simp add: opened_def)
  show "wp (rateLimitMiddleware (sv_redis sv) dt (sv_cfg sv) ex)
      (\<lambda>r w'. \<exists>ex'. r = Ok ex' \<and> opened rq ex' \<and> fresh e Q d U N w' \<and> no_answer (idempotency_key client key) w') w"
    unfolding rateLimitMiddleware_def Let_def wp_bindM [of "isAllowed _ _ _"] cl C [symmetric]
  proof (rule wp_mono [OF isAllowed_counts [OF q win]], elim conjE, goal_cases)
    case (1 r w1)
    obtain x where x: "redis_to ((w_redis w)(rate_key client ws := x)) w w1" using 1(4) by (auto simp: only_key_def)
    note sel = redis_to_sel [OF x] redis_to_queues [OF x]
    have "idempotency_key client key \<noteq> rate_key client ws" by (simp add: idempotency_key_def rate_key_def)
    then have "no_answer (idempotency_key client key) w1" using w sel(1) by (simp add: admits_def no_answer_def)
    moreover have "fresh e Q d U N w1" using w sel 1(5) by (auto simp: admits_def intro: fresh_later)
    moreover have "rl_allowed (limiter_answer (sv_cfg sv) ws (limiter_calls ws w client + 1))" using room by (simp add: limiter_answer_def)
    ultimately show ?case using ex by (simp add: 1(1) wp_ret opened_def)
  qed
qed

lemma total_idempotency:
  assumes C: "C = sv_redis sv" and ex: "opened rq ex"
    and hdr: "rx_headers rq ''idempotency-key'' = Some key" "rx_headers rq ''x-client-id'' = Some client" "key \<noteq> []" "client \<noteq> []"
  shows "total (\<lambda>w. fresh e Q d U (Suc N) w \<and> no_answer (idempotency_key client key) w)
    (idempotencyMiddleware (sv_redis sv) (sv_parse sv) (sv_sha sv) (sv_ps sv) ex)
    (\<lambda>ex' w. opened rq ex' \<and> marked sv rq key ex' \<and> fresh e Q d U N w)"
  unfolding total_def
proof (intro allI impI)
  fix w
  let ?k = "idempotency_key client key"
  assume w: "fresh e Q d U (Suc N) w \<and> no_answer ?k w"
  then have q: "quiet w" and a: "alive ?k w" by (auto simp: fresh_def stage_def calm_env_def quiet_def no_answer_def alive_def)
  have th: "truthy_header rq ''idempotency-key'' = Some key" "truthy_header rq ''x-client-id'' = Some client"
    using hdr by (simp_all add: truthy_header_def)
  have get: "wp (idempotency_get C (sv_parse sv) client key) (\<lambda>r w'. r = Ok None \<and> fresh e Q d U N w') w"
    unfolding idempotency_get_def wp_catchM wp_bindM
  proof (rule wp_mono [OF get_alive [OF q a]], elim conjE, goal_cases)
    case (1 r w1)
    have "fresh e Q d U N w1"
      using w redis_to_sel [OF 1(2)] redis_to_queues [OF 1(2)] 1(3) by (auto intro: fresh_later)
    then show ?case using w by (simp add: 1(1) wp_ret no_answer_def)
  qed
  show "wp (idempotencyMiddleware (sv_redis sv) (sv_parse sv) (sv_sha sv) (sv_ps sv) ex)
      (\<lambda>r w'. \<exists>ex'. r = Ok ex' \<and> opened rq ex' \<and> marked sv rq key ex' \<and> fresh e Q d U N w') w"
    using ex unfolding idempotencyMiddleware_def opened_def
    by (simp add: th Let_def wp_bindM C [symmetric], intro wp_mono [OF get])
      (use hdr(2) in \<open>auto simp: wp_ret marked_def\<close>)
qed

end

lemma total_run_hooks_Cons:
  assumes "total I (h ex) (\<lambda>ex' w. P ex' \<and> J w)" and "\<And>ex'. P ex' \<Longrightarrow> \<not> answered ex'"
    and "\<And>ex'. P ex' \<Longrightarrow> total J (run_hooks hs ex') Q"
  shows "total I (run_hooks (h # hs) ex) Q"
  unfolding run_hooks.simps
proof (rule total_bindM [OF assms(1)])
  show "total (\<lambda>w. P a \<and> J w) (if ex_sent a \<noteq> None \<or> ex_error a \<noteq> None then ret a else run_hooks hs a) Q" for a
    unfolding total_pure using assms(2,3) [of a] by (auto simp: answered_def)
qed

text \<open>A request that is through the hooks.\<close>

definition passed :: "server \<Rightarrow> http_req \<Rightarrow> string \<Rightarrow> order_input \<Rightarrow> exchange \<Rightarrow> bool" where
  "passed sv rq key inp ex \<longleftrightarrow> opened (rq\<lparr>rx_body := Some (input_json inp)\<rparr>) ex \<and> marked sv rq key ex"

lemma total_validateBody:
  assumes "opened rq ex" "marked sv rq key ex" and ok: "CreateOrderSchema (body_json rq) = Some inp"
  shows "total I (validateBody iss ex) (\<lambda>ex' w. passed sv rq key inp ex' \<and> I w)"
  unfolding validateBody_def Let_def
  using assms by (auto simp: opened_def passed_def marked_def intro!: total_ret)

lemma total_order_hooks:
  assumes S: "redis_server (sv_redis sv)" and ok: "CreateOrderSchema (body_json rq) = Some inp"
    and hdr: "rx_headers rq ''idempotency-key'' = Some key" "rx_headers rq ''x-client-id'' = Some client" "key \<noteq> []" "client \<noteq> []"
  shows "total (admits sv e Q d U client key ws (Suc (Suc (Suc N + 3)))) (run_hooks (requestContextMiddleware # order_hooks sv) (open_exchange rq))
    (\<lambda>ex' w. passed sv rq key inp ex' \<and> fresh e Q d U N w)"
proof -
  note opened = opened_def answered_def
  have four: "total (fresh e Q d U N) (run_hooks [validateBody (sv_issues sv)] ex)
      (\<lambda>ex' w. passed sv rq key inp ex' \<and> fresh e Q d U N w)" if "opened rq ex \<and> marked sv rq key ex" for ex
    by (rule total_run_hooks_Cons, rule total_validateBody [OF _ _ ok])
      (use that in \<open>auto simp: passed_def opened intro: total_ret\<close>)
  have three: "total (\<lambda>w. fresh e Q d U (Suc N) w \<and> no_answer (idempotency_key client key) w)
      (run_hooks [idempotencyMiddleware (sv_redis sv) (sv_parse sv) (sv_sha sv) (sv_ps sv), validateBody (sv_issues sv)] ex)
      (\<lambda>ex' w. passed sv rq key inp ex' \<and> fresh e Q d U N w)" if "opened rq ex" for ex
    by (rule total_run_hooks_Cons [where P = "\<lambda>ex. opened rq ex \<and> marked sv rq key ex"],
        rule total_weaken [OF redis_server.total_idempotency [OF S HOL.refl that hdr]])
      (use four in \<open>auto simp: opened\<close>)
  have two: "total (admits sv e Q d U client key ws (Suc N + 3)) (run_hooks [rateLimitMiddleware (sv_redis sv) (sv_toISOString sv) (sv_cfg sv),
        idempotencyMiddleware (sv_redis sv) (sv_parse sv) (sv_sha sv) (sv_ps sv), validateBody (sv_issues sv)] ex)
      (\<lambda>ex' w. passed sv rq key inp ex' \<and> fresh e Q d U N w)" if "opened rq ex" for ex
    by (rule total_run_hooks_Cons, rule redis_server.total_rateLimit [OF S HOL.refl that hdr(2)]) (use three in \<open>auto simp: opened\<close>)
  show ?thesis
    unfolding order_hooks_def
    by (rule total_run_hooks_Cons, rule total_requestContext [where rq = rq]) (use two in \<open>auto simp: opened open_exchange_def\<close>)
qed

lemma total_post_order:
  assumes create: "total (\<lambda>w. stage e Q d U w \<and> short_ids e (Suc N) w) (create (request_of inp key)) (\<lambda>x. created L cfg e d (request_of inp key) (fst x))"
    and ok: "CreateOrderSchema (body_json (ex_req ex)) = Some inp" and hdr: "rx_headers (ex_req ex) ''idempotency-key'' = Some key"
  shows "total (\<lambda>w. stage e Q d U w \<and> short_ids e (Suc (Suc N)) w) (post_order iss dt create ex)
    (\<lambda>ex' w. \<exists>ord. ex' = send ex 201 (order_json_body dt ord) \<and> created L cfg e d (request_of inp key) ord w)"
proof -
  have now: "total (created L cfg e d rq ord) nowM (\<lambda>_. created L cfg e d rq ord)" for rq ord
    unfolding total_def wp_nowM by (auto intro: created_cong)
  have hist: "total (created L cfg e d rq ord) (recordHistogram n v l) (\<lambda>_. created L cfg e d rq ord)" for rq ord n v l
    unfolding total_def wp_recordHistogram by (auto intro: created_cong)
  show ?thesis
    unfolding post_order_def ok option.case hdr request_of_def [symmetric]
    by (intro total_bindM [OF total_short_now] total_bindM [OF create] total_bindM [OF now] total_thenM [OF hist] total_ret) blast
qed

text \<open>The answer is remembered for as long as the store keeps it.\<close>

definition remembered_for :: "server \<Rightarrow> string \<Rightarrow> string \<Rightarrow> reply \<Rightarrow> world \<Rightarrow> bool" where
  "remembered_for sv k h rp w \<longleftrightarrow> (\<exists>rec n. record_of sv h rp rec \<and> w_redis w k =
     Some (stringify (sv_ps sv) (record_json rec), Some (e_clock (w_env w) n + idempotencyTtlSeconds (sv_cfg sv) * 1000)))"

lemma total_onSend:
  assumes S: "redis_server (sv_redis sv)" and e: "calm_env e"
    and ex: "ex_meta ex = Some m" "k = idempotency_key (im_clientId m) (im_key m)" "ex_sent ex = Some rp" "success (rp_status rp)"
  shows "total (created L cfg e d rq ord) (onSend (sv_redis sv) (sv_ps sv) (sv_toISOString sv) (sv_serialize sv) (sv_cfg sv) ex)
     (\<lambda>_ w. created L cfg e d rq ord w \<and> remembered_for sv k (im_hash m) rp w)"
  unfolding total_def
proof (intro allI impI)
  fix w
  assume "created L cfg e d rq ord w"
  then have w: "created L cfg e d rq ord (tick w)" by (auto intro: created_cong)
  then have q: "quiet (tick w)" using e by (simp add: created_def calm_env_def quiet_def)
  show "wp (onSend (sv_redis sv) (sv_ps sv) (sv_toISOString sv) (sv_serialize sv) (sv_cfg sv) ex)
      (\<lambda>r w'. \<exists>a. r = Ok a \<and> created L cfg e d rq ord w' \<and> remembered_for sv k (im_hash m) rp w') w"
    unfolding onSend_def ex(1,3) prod.case option.case if_P [OF ex(4) [unfolded success_def]] wp_bindM wp_nowM res.case wp_catchM
      idempotency_set_def ex(2) [symmetric]
  proof (rule wp_mono [OF redis_server.set_kept [OF S q]], elim conjE exE, goal_cases)
    case (1 r w1 n)
    note sel = redis_to_sel [OF 1(2)]
    have "created L cfg e d rq ord w1" using w sel redis_to_queues [OF 1(2)] by (auto intro: created_cong)
    moreover have "remembered_for sv k (im_hash m) rp w1"
      unfolding remembered_for_def
      by (rule exI [of _ "\<lparr>ir_requestId = rx_id (ex_req ex), ir_status = rp_status rp, ir_response = sv_serialize sv (rp_status rp) (rp_body rp),
            ir_requestHash = im_hash m, ir_createdAt = sv_toISOString sv (e_clock (w_env w) (w_tick w))\<rparr>"], rule exI [of _ n])
        (simp add: sel record_of_def)
    ultimately show ?case by (simp add: 1(1))
  qed
qed


lemma total_serve_post:
  assumes S: "redis_server (sv_redis sv)" and L: "decimal_laws L rep" and B: "bullmq_laws B" "bullmq_answers B" and env: "calm_env e"
    and hdr: "rx_headers rq ''idempotency-key'' = Some key" "rx_headers rq ''x-client-id'' = Some client" "key \<noteq> []" "client \<noteq> []"
    and body: "sv_bodySchema sv (rx_body rq) = Inr (Some j)" "CreateOrderSchema j = Some inp" "storable inp key d"
    and ids: "table_ids d \<subseteq> U" "queued_ids cfg Q \<subseteq> U"
  shows "total (admits sv e Q d U client key ws (Suc (Suc (Suc 2 + 3))))
    (serve_post_order sv (service_createOrder L (pg_order_repo L') pg_outbox_repo (saga_enqueue B cfg) pg_tx_manager) rq)
    (\<lambda>ex w. \<exists>rp ord. ex_sent ex = Some rp \<and> rp_status rp = 201 \<and> rp_body rp = order_json_body (sv_toISOString sv) ord
       \<and> created L cfg e d (request_of inp key) ord w
       \<and> remembered_for sv (idempotency_key client key) (hashBody (sv_sha sv) (sv_ps sv) (rq\<lparr>rx_body := Some j\<rparr>)) rp w)"
proof -
  let ?create = "service_createOrder L (pg_order_repo L') pg_outbox_repo (saga_enqueue B cfg) pg_tx_manager"
  let ?rq = "rq\<lparr>rx_body := Some j\<rparr>" and ?k = "idempotency_key client key" and ?d = "d" and ?e = "e"
  let ?C = "created L cfg ?e ?d (request_of inp key)"
  let ?h = "hashBody (sv_sha sv) (sv_ps sv) ?rq"
  have ok: "CreateOrderSchema (body_json ?rq) = Some inp" using body(2) by (simp add: body_json_def)
  have hdr': "rx_headers ?rq ''idempotency-key'' = Some key" "rx_headers ?rq ''x-client-id'' = Some client" using hdr by simp_all
  define answer where "answer = (\<lambda>ex ord. marked sv ?rq key ex \<and> (\<exists>rp. ex_sent ex = Some rp \<and> rp_status rp = 201
      \<and> rp_body rp = order_json_body (sv_toISOString sv) ord))"
  have created: "total (\<lambda>w. stage ?e Q ?d U w \<and> short_ids ?e (Suc 0) w) (?create (request_of inp key)) (\<lambda>x. ?C (fst x))"
    by (rule total_created [OF L B body(2,3) ids])
  have handler: "total (fresh ?e Q ?d U 2) (catchM (post_order (sv_issues sv) (sv_toISOString sv) ?create ex) (\<lambda>er. ret (errorHandler (sv_view sv) er ex)))
      (\<lambda>ex' w. \<exists>ord. answer ex' ord \<and> ?C ord w)" if p: "passed sv ?rq key inp ex" for ex
    unfolding fresh_def [abs_def] numeral_2_eq_2
  proof (rule total_catchM, rule total_weaken [OF total_post_order [where create = ?create, OF created]])
    show "CreateOrderSchema (body_json (ex_req ex)) = Some inp" "rx_headers (ex_req ex) ''idempotency-key'' = Some key"
      using p schema_again [OF body(2)] hdr by (auto simp: passed_def opened_def body_json_def)
  qed (use p in \<open>auto simp: answer_def passed_def marked_def send_def\<close>)
  have route: "total (admits sv ?e Q ?d U client key ws (Suc (Suc (Suc 2 + 3)))) (run_route (sv_view sv) (requestContextMiddleware # order_hooks sv)
        (post_order (sv_issues sv) (sv_toISOString sv) ?create) (open_exchange ?rq)) (\<lambda>ex' w. \<exists>ord. answer ex' ord \<and> ?C ord w)"
    unfolding run_route_def
  proof (rule total_bindM [OF total_order_hooks [OF S ok hdr' hdr(3,4)]], unfold total_pure, intro impI, goal_cases)
    case (1 ex)
    then have "ex_error ex = None" "ex_sent ex = None" by (auto simp: passed_def opened_def)
    then show ?case using handler [OF 1] by simp
  qed
  have sent: "total (\<lambda>w. \<exists>ord. answer ex ord \<and> ?C ord w) (thenM (onSend (sv_redis sv) (sv_ps sv) (sv_toISOString sv) (sv_serialize sv) (sv_cfg sv) ex) (ret ex))
      (\<lambda>ex w. \<exists>rp ord. ex_sent ex = Some rp \<and> rp_status rp = 201 \<and> rp_body rp = order_json_body (sv_toISOString sv) ord
         \<and> ?C ord w \<and> remembered_for sv ?k ?h rp w)" for ex
    unfolding total_ex total_pure
  proof (intro allI impI)
    fix ord
    assume "answer ex ord"
    then obtain rp m where ex: "ex_sent ex = Some rp" "rp_status rp = 201" "rp_body rp = order_json_body (sv_toISOString sv) ord"
        "ex_meta ex = Some m" "?k = idempotency_key (im_clientId m) (im_key m)" "im_hash m = ?h"
      using hdr' by (auto simp: answer_def marked_def)
    have "success (rp_status rp)" using ex(2) by (simp add: success_def)
    note stored = total_onSend [OF S env ex(4,5,1) this]
    show "total (?C ord) (thenM (onSend (sv_redis sv) (sv_ps sv) (sv_toISOString sv) (sv_serialize sv) (sv_cfg sv) ex) (ret ex))
      (\<lambda>ex w. \<exists>rp ord. ex_sent ex = Some rp \<and> rp_status rp = 201 \<and> rp_body rp = order_json_body (sv_toISOString sv) ord
         \<and> ?C ord w \<and> remembered_for sv ?k ?h rp w)"
      by (rule total_thenM [OF stored total_ret]) (use ex in auto)
  qed
  show ?thesis
    unfolding serve_post_order_def serve_def body_schema_def body(1) sum.case by (rule total_bindM [OF route sent])
qed


section \<open>A request and a world\<close>

definition example_input :: order_input where
  "example_input = \<lparr>in_customerId = ''c'', in_items = [\<lparr>ol_sku = ''A'', ol_quantity = Whole 2, ol_unitPrice = ''19.99''\<rparr>],
     in_currency = ''USD'', in_paymentToken = ''tok''\<rparr>"

lemma example_body: "rx_body example_post = Some (body_json example_post)" "CreateOrderSchema (body_json example_post) = Some example_input"
  "storable example_input ''k1'' empty_db"
proof -
  show "rx_body example_post = Some (body_json example_post)" by (simp add: example_post_def body_json_def)
  show "CreateOrderSchema (body_json example_post) = Some example_input"
    unfolding example_post_def example_input_def by code_simp
  have "body_cents example_input = 3998" by code_simp
  then show "storable example_input ''k1'' empty_db" by (simp add: storable_def used_def empty_db_def)
qed

lemma example_request:
  "rx_headers example_post ''idempotency-key'' = Some ''k1''" "rx_headers example_post ''x-client-id'' = Some ''c1''"
  "sv_bodySchema json_server (rx_body example_post) = Inr (Some (body_json example_post))" "sv_cfg json_server = example_config"
  "0 < rateLimitMax example_config" "idempotencyTtlSeconds example_config = 86400" "db_orders empty_db = []"
  by (simp_all add: example_body(1) [symmetric] json_server_def example_server_def example_config_def empty_db_def)
    (simp_all add: example_post_def)

text \<open>A clock that stands still in a window of the limiter.\<close>

definition still_world :: world where
  "still_world = world_of (quiet_env\<lparr>e_clock := \<lambda>_. 5500\<rparr>) empty_db"

lemma still_world:
  "calm_env (w_env still_world)" "w_redis still_world k = None" "w_db still_world = empty_db" "w_tick still_world = 0"
  "n < 10 \<Longrightarrow> length (e_uuid (w_env still_world) n) \<le> 64" "e_clock (w_env still_world) n = 5500"
  "in_window example_config 0 still_world" "table_ids empty_db = {}" "counter k still_world = 0"
  "w_queues still_world = (\<lambda>_. [])" "queued_ids cfg (\<lambda>_. []) = {}"
proof -
  have "inj digits_of" by (rule injI) (metis number_of_digits)
  then show "calm_env (w_env still_world)" by (simp add: calm_env_def still_world_def world_of_def quiet_env_def)
  show "length (e_uuid (w_env still_world) n) \<le> 64" if "n < 10"
    using that by (simp add: still_world_def world_of_def quiet_env_def digits_of.simps [of n])
qed (simp_all add: still_world_def world_of_def quiet_env_def in_window_def window_start_def example_config_def counter_def table_ids_def empty_db_def queued_ids_def)


section \<open>The property\<close>

text \<open>
  C6. An acceptable order is accepted: when nothing fails, the clock stays in the window of the rate
  limiter, the client has calls left, its key is new, the body passes the schemas and its total fits the
  column, the request is answered with 201 and the order that was made of the body; the order, its items
  and one pending event are stored, the job of its saga is in the queue, and the answer is remembered
  for the time the configuration sets.
\<close>

theorem post_accepted:
  assumes S: "redis_server (sv_redis sv)" and L: "decimal_laws L rep" and B: "bullmq_laws B" "bullmq_answers B"
    and env: "calm_env (w_env w)" "\<forall>n. w_tick w \<le> n \<longrightarrow> n < w_tick w + 8 \<longrightarrow> length (e_uuid (w_env w) n) \<le> 64"
      "\<forall>n \<ge> w_tick w. e_uuid (w_env w) n \<notin> table_ids (w_db w) \<union> queued_ids cfg (w_queues w)"
    and hdr: "rx_headers rq ''idempotency-key'' = Some key" "rx_headers rq ''x-client-id'' = Some client" "key \<noteq> []" "client \<noteq> []"
    and body: "sv_bodySchema sv (rx_body rq) = Inr (Some j)" "CreateOrderSchema j = Some inp" "storable inp key (w_db w)"
    and redis: "w_redis w (idempotency_key client key) = None" "in_window (sv_cfg sv) ws w"
      "counter (rate_key client ws) w < rateLimitMax (sv_cfg sv)"
  shows "wp (serve_post_order sv (service_createOrder L (pg_order_repo L') pg_outbox_repo (saga_enqueue B cfg) pg_tx_manager) rq)
     (\<lambda>r w'. \<exists>ex rp ord ev. r = Ok ex \<and> ex_sent ex = Some rp \<and> rp_status rp = 201
        \<and> rp_body rp = order_json_body (sv_toISOString sv) ord \<and> order_from L (request_of inp key) ord
        \<and> w_db w' = (w_db w)\<lparr>db_orders := db_orders (w_db w) @ [order_row_of ord],
                             db_items := db_items (w_db w) @ map item_row_of (order_items ord),
                             db_outbox := db_outbox (w_db w) @ [ev]\<rparr>
        \<and> ev_eventType ev = ''order.created'' \<and> ev_aggregateId ev = order_id ord \<and> ev_status ev = OUTBOX_PENDING
        \<and> queued cfg (context_of (request_of inp key) ord) w'
        \<and> remembered_for sv (idempotency_key client key) (hashBody (sv_sha sv) (sv_ps sv) (rq\<lparr>rx_body := Some j\<rparr>)) rp w'
        \<and> w_env w' = w_env w) w"
proof -
  have "admits sv (w_env w) (w_queues w) (w_db w) (table_ids (w_db w) \<union> queued_ids cfg (w_queues w)) client key ws (Suc (Suc (Suc 2 + 3))) w"
    using env redis by (simp add: admits_def fresh_def short_ids_def stage_def no_answer_def limiter_calls_def)
  from totalD [OF total_serve_post [where L' = L' and cfg = cfg, OF S L B env(1) hdr body Un_upper1 Un_upper2] this] show ?thesis
  proof (rule wp_mono, elim exE conjE, goal_cases)
    case (1 r w' ex rp ord)
    obtain eid t where "order_recorded ord (event_row_of (created_event (request_of inp key) ord) eid t) (w_db w) (w_db w')"
      using 1 by (auto simp: created_def recorded_with_def)
    from order_recorded_eq [OF this] show ?case
      using 1 by (intro exI [of _ ex] exI [of _ rp] exI [of _ ord] exI [of _ "event_row_of (created_event (request_of inp key) ord) eid t"])
        (simp add: created_def)
  qed
qed

theorem post_accepted_witness:
  "wp (serve_post_order json_server example_creator example_post)
     (\<lambda>r w'. \<exists>ex rp. r = Ok ex \<and> ex_sent ex = Some rp \<and> rp_status rp = 201 \<and> length (db_orders (w_db w')) = 1) still_world"
  unfolding example_creator_def
  by (rule wp_mono [OF post_accepted [where client = "''c1''" and key = "''k1''" and ws = 0 and rq = example_post and L = cents_lib
        and j = "body_json example_post" and inp = example_input, OF json_server_laws(2) cents_lib_laws list_bullmq_laws list_bullmq_answers]])
    (auto simp: still_world example_body example_request example_request(3) [unfolded example_body(1)])


section \<open>The same request again\<close>


text \<open>
  C8. An accepted order is accepted once: when a request whose key and client have no remembered answer is
  answered with success, whatever failed meanwhile, and the \<open>onSend\<close> hook could store the answer, the
  same request sent again, in any later world where the record is still there and nothing fails, is
  refused by the rate limiter or answered with the same status, marked as a replay, and the body a client
  has read in the first answer; it never touches the database.
\<close>

theorem post_replayed:
  assumes S: "redis_server (sv_redis sv)" and B: "bullmq_laws B" and honest: "honest (sv_view sv)" and json: "json_laws sv wire"
    and hdr: "rx_headers rq ''idempotency-key'' = Some key" "rx_headers rq ''x-client-id'' = Some client" "key \<noteq> []" "client \<noteq> []"
    and new: "w_redis w (idempotency_key client key) = None"
  shows "wp (serve_post_order sv (service_createOrder L (pg_order_repo L') pg_outbox_repo (saga_enqueue B cfg) pg_tx_manager) rq)
     (\<lambda>r w1. \<forall>ex rp w2. r = Ok ex \<longrightarrow> ex_sent ex = Some rp \<longrightarrow> 200 \<le> rp_status rp \<longrightarrow> rp_status rp < 300 \<longrightarrow>
        w_redis w1 (idempotency_key client key) \<noteq> None \<longrightarrow>
        w_redis w2 (idempotency_key client key) = w_redis w1 (idempotency_key client key) \<longrightarrow>
        unexpired (idempotency_key client key) w2 \<longrightarrow> quiet w2 \<longrightarrow>
        wp (serve_post_order sv create rq) (\<lambda>r w3. w_db w3 = w_db w2 \<and> (\<forall>ex3. r = Ok ex3 \<longrightarrow>
          (\<exists>rp3. ex_sent ex3 = Some rp3 \<and> (rp_status rp3 = 429
             \<or> rp_status rp3 = rp_status rp \<and> rp_body rp3 = wire (rp_status rp) (rp_body rp)
               \<and> (''X-Idempotent-Replay'', ''true'') \<in> set (rp_headers rp3))))) w2) w"
proof (rule wp_mono [OF first_request [OF redis_server.laws [OF S] B honest hdr(1,2)]], goal_cases)
  case 1
  show ?case using new by (simp add: no_answer_def)
next
  case (2 r w1)
  show ?case
  proof (intro allI impI)
    fix ex rp w2
    assume a: "r = Ok ex" "ex_sent ex = Some rp" "200 \<le> rp_status rp" "rp_status rp < 300"
      "w_redis w1 (idempotency_key client key) \<noteq> None"
      "w_redis w2 (idempotency_key client key) = w_redis w1 (idempotency_key client key)"
      "unexpired (idempotency_key client key) w2" "quiet w2"
    then obtain b where b: "plain (rp_body rp)" "success (rp_status rp)" "sv_bodySchema sv (rx_body rq) = Inr b"
        "holds_record sv (idempotency_key client key) (hashBody (sv_sha sv) (sv_ps sv) (rq\<lparr>rx_body := b\<rparr>)) rp w2"
      using 2 by (auto simp: success_def no_answer_def holds_record_def)
    show "wp (serve_post_order sv create rq) (\<lambda>r w3. w_db w3 = w_db w2 \<and> (\<forall>ex3. r = Ok ex3 \<longrightarrow>
          (\<exists>rp3. ex_sent ex3 = Some rp3 \<and> (rp_status rp3 = 429
             \<or> rp_status rp3 = rp_status rp \<and> rp_body rp3 = wire (rp_status rp) (rp_body rp)
               \<and> (''X-Idempotent-Replay'', ''true'') \<in> set (rp_headers rp3))))) w2"
      using second_request [OF S a(8) hdr b(4) a(7) b(1,2) json b(3)] unfolding replayed_def .
  qed
qed

lemma first_answer:
  "wp (serve_post_order json_server example_creator example_post)
     (\<lambda>r w1. \<exists>ex rp. r = Ok ex \<and> ex_sent ex = Some rp \<and> rp_status rp = 201 \<and> w_redis w1 (idempotency_key ''c1'' ''k1'') \<noteq> None
        \<and> unexpired (idempotency_key ''c1'' ''k1'') w1 \<and> quiet w1) still_world"
proof -
  have "admits json_server (w_env still_world) (\<lambda>_. []) empty_db {} ''c1'' ''k1'' 0 (Suc (Suc (Suc 2 + 3))) still_world"
    by (simp add: admits_def fresh_def short_ids_def stage_def no_answer_def limiter_calls_def still_world example_request)
  from totalD [OF total_serve_post [where L' = cents_lib and cfg = example_config, OF json_server_laws(2) cents_lib_laws list_bullmq_laws
      list_bullmq_answers still_world(1) example_request(1,2) _ _ example_request(3) example_body(2,3)] this]
  have "wp (serve_post_order json_server example_creator example_post)
     (\<lambda>r w1. \<exists>ex. r = Ok ex \<and> (\<exists>rp ord. ex_sent ex = Some rp \<and> rp_status rp = 201 \<and> rp_body rp = order_json_body (sv_toISOString json_server) ord
       \<and> created cents_lib example_config (w_env still_world) empty_db (request_of example_input ''k1'') ord w1
       \<and> remembered_for json_server (idempotency_key ''c1'' ''k1'') (hashBody (sv_sha json_server) (sv_ps json_server)
            (example_post\<lparr>rx_body := Some (body_json example_post)\<rparr>)) rp w1)) still_world"
    by (simp add: example_creator_def still_world)
  then show ?thesis
  proof (rule wp_mono, elim exE conjE, goal_cases)
    case (1 r w1 ex rp ord)
    then have "w_env w1 = w_env still_world" by (simp add: created_def)
    moreover have "quiet w1" using calculation still_world(1) by (simp add: quiet_def calm_env_def)
    ultimately show ?case
      using 1 by (auto simp: remembered_for_def unexpired_def still_world example_request)
  qed
qed

theorem post_replayed_witness:
  "wp (serve_post_order json_server example_creator example_post) (\<lambda>r w1. \<exists>ex rp. r = Ok ex \<and> ex_sent ex = Some rp \<and> rp_status rp = 201
     \<and> wp (serve_post_order json_server example_creator example_post) (\<lambda>r w3. w_db w3 = w_db w1 \<and> (\<forall>ex3. r = Ok ex3 \<longrightarrow>
          (\<exists>rp3. ex_sent ex3 = Some rp3 \<and> (rp_status rp3 = 429 \<or> rp_status rp3 = 201 \<and> rp_body rp3 = rp_body rp)))) w1) still_world"
proof (rule wp_mono [OF wp_conj [THEN iffD2, OF conjI, OF first_answer]])
  show "wp (serve_post_order json_server example_creator example_post)
     (\<lambda>r w1. \<forall>ex rp w2. r = Ok ex \<longrightarrow> ex_sent ex = Some rp \<longrightarrow> 200 \<le> rp_status rp \<longrightarrow> rp_status rp < 300 \<longrightarrow>
        w_redis w1 (idempotency_key ''c1'' ''k1'') \<noteq> None \<longrightarrow>
        w_redis w2 (idempotency_key ''c1'' ''k1'') = w_redis w1 (idempotency_key ''c1'' ''k1'') \<longrightarrow>
        unexpired (idempotency_key ''c1'' ''k1'') w2 \<longrightarrow> quiet w2 \<longrightarrow>
        wp (serve_post_order json_server example_creator example_post) (\<lambda>r w3. w_db w3 = w_db w2 \<and> (\<forall>ex3. r = Ok ex3 \<longrightarrow>
          (\<exists>rp3. ex_sent ex3 = Some rp3 \<and> (rp_status rp3 = 429
             \<or> rp_status rp3 = rp_status rp \<and> rp_body rp3 = rp_body rp
               \<and> (''X-Idempotent-Replay'', ''true'') \<in> set (rp_headers rp3))))) w2) still_world"
    unfolding example_creator_def
    by (rule post_replayed [where wire = "\<lambda>_ j. j", OF json_server_laws(2) list_bullmq_laws json_server_laws(3,1) example_request(1,2)])
      (simp_all add: still_world)
next
  fix r w1
  assume "(\<exists>ex rp. r = Ok ex \<and> ex_sent ex = Some rp \<and> rp_status rp = 201 \<and> w_redis w1 (idempotency_key ''c1'' ''k1'') \<noteq> None
        \<and> unexpired (idempotency_key ''c1'' ''k1'') w1 \<and> quiet w1) \<and>
     (\<forall>ex rp w2. r = Ok ex \<longrightarrow> ex_sent ex = Some rp \<longrightarrow> 200 \<le> rp_status rp \<longrightarrow> rp_status rp < 300 \<longrightarrow>
        w_redis w1 (idempotency_key ''c1'' ''k1'') \<noteq> None \<longrightarrow>
        w_redis w2 (idempotency_key ''c1'' ''k1'') = w_redis w1 (idempotency_key ''c1'' ''k1'') \<longrightarrow>
        unexpired (idempotency_key ''c1'' ''k1'') w2 \<longrightarrow> quiet w2 \<longrightarrow>
        wp (serve_post_order json_server example_creator example_post) (\<lambda>r w3. w_db w3 = w_db w2 \<and> (\<forall>ex3. r = Ok ex3 \<longrightarrow>
          (\<exists>rp3. ex_sent ex3 = Some rp3 \<and> (rp_status rp3 = 429
             \<or> rp_status rp3 = rp_status rp \<and> rp_body rp3 = rp_body rp
               \<and> (''X-Idempotent-Replay'', ''true'') \<in> set (rp_headers rp3))))) w2)"
  then obtain ex rp where r: "r = Ok ex" "ex_sent ex = Some rp" "rp_status rp = 201"
    and again: "wp (serve_post_order json_server example_creator example_post) (\<lambda>r w3. w_db w3 = w_db w1 \<and> (\<forall>ex3. r = Ok ex3 \<longrightarrow>
          (\<exists>rp3. ex_sent ex3 = Some rp3 \<and> (rp_status rp3 = 429
             \<or> rp_status rp3 = rp_status rp \<and> rp_body rp3 = rp_body rp
               \<and> (''X-Idempotent-Replay'', ''true'') \<in> set (rp_headers rp3))))) w1" by auto
  show "\<exists>ex rp. r = Ok ex \<and> ex_sent ex = Some rp \<and> rp_status rp = 201
     \<and> wp (serve_post_order json_server example_creator example_post) (\<lambda>r w3. w_db w3 = w_db w1 \<and> (\<forall>ex3. r = Ok ex3 \<longrightarrow>
          (\<exists>rp3. ex_sent ex3 = Some rp3 \<and> (rp_status rp3 = 429 \<or> rp_status rp3 = 201 \<and> rp_body rp3 = rp_body rp)))) w1"
  proof (intro exI conjI)
    show "wp (serve_post_order json_server example_creator example_post) (\<lambda>r w3. w_db w3 = w_db w1 \<and> (\<forall>ex3. r = Ok ex3 \<longrightarrow>
          (\<exists>rp3. ex_sent ex3 = Some rp3 \<and> (rp_status rp3 = 429 \<or> rp_status rp3 = 201 \<and> rp_body rp3 = rp_body rp)))) w1"
      by (rule wp_mono [OF again]) (use r(3) in auto)
  qed (rule r)+
qed

end
