(* ===== verification/Post_Paid.thy ===== *)
theory Post_Paid
  imports Post_Accept Workers
begin

text \<open>
  From the request to the payment: the job that an accepted \<open>POST /orders\<close> leaves in the queue, given to
  the saga worker (\<open>infrastructure/queue/workers/saga-worker.ts\<close>) in a later world, pays the order.
\<close>


section \<open>The job of an accepted order\<close>

text \<open>What a body reserves.\<close>

definition reservations :: "order_input \<Rightarrow> reservation list" where
  "reservations inp = map (\<lambda>l. \<lparr>rv_sku = ol_sku l, rv_quantity = whole (ol_quantity l)\<rparr>) (in_items inp)"

lemma context_of_request [simp]:
  "cx_orderId (context_of rq ord) = order_id ord" "cx_items (context_of (request_of inp key) ord) = reservations inp"
  "cx_totalAmount (context_of rq ord) = money_toJSON (order_totalAmount ord)"
  by (simp_all add: context_of_def request_of_def reservations_def)

text \<open>The order is there, and the worker can read its total.\<close>

lemma created_order:
  assumes L: "decimal_laws L rep" and ok: "CreateOrderSchema j = Some inp" and small: "body_cents inp < 10 ^ 12"
    and c: "created L cfg e d (request_of inp key) ord w"
  shows "order_id ord \<in> or_id ` set (db_orders (w_db w))" "length (order_id ord) \<le> 64"
    "new_money L (aj_amount (money_toJSON (order_totalAmount ord))) (aj_currency (money_toJSON (order_totalAmount ord)))
       = Inr (cents (body_cents inp) (toUpperCase (in_currency inp)))"
proof -
  obtain eid t where rec: "order_recorded ord (event_row_of (created_event (request_of inp key) ord) eid t) d (w_db w)"
    using c by (auto simp: created_def recorded_with_def)
  show "order_id ord \<in> or_id ` set (db_orders (w_db w))" using order_recorded_eq [OF rec] by simp
  show "length (order_id ord) \<le> 64"
    using rec unfolding order_recorded_def insert_event_def require_Inr_iff by auto
  have src: "items_from L (order_id ord) (in_currency inp) (in_items inp) (order_items ord)"
    "createOrder L (order_id ord) (in_customerId inp) (order_items ord) (in_currency inp) (Some key) (order_createdAt ord) (order_updatedAt ord) = Inr ord"
    using c by (auto simp: created_def order_from_def request_of_def)
  have cur: "length (in_currency inp) = 3" using schema_Some [OF ok] by simp
  note mi = made_items [OF L ok src(1) small]
  have "total_cents (order_items ord) < 10 ^ 28" using mi(3) small by simp
  from createOrder_total [OF L cur mi(1,2) this, of "order_id ord" "in_customerId inp" "Some key" "order_createdAt ord" "order_updatedAt ord"]
  have "order_totalAmount ord = cents (body_cents inp) (toUpperCase (in_currency inp))"
    using src(2) mi(3) by (metis Inr_inject order.select_convs(4))
  then show "new_money L (aj_amount (money_toJSON (order_totalAmount ord))) (aj_currency (money_toJSON (order_totalAmount ord)))
       = Inr (cents (body_cents inp) (toUpperCase (in_currency inp)))"
    using new_money_price [OF L price_cents_cents_string, of "toUpperCase (in_currency inp)" "body_cents inp"] cur
    by (simp add: money_toJSON_def)
qed


section \<open>The worker\<close>

text \<open>
  A world in which the worker can finish the order \<open>oid\<close> of the reservations \<open>rs\<close>: nothing fails, the
  identifiers to come are new, the order is there, and every item is in stock and its lock is free.
\<close>

definition fulfillable :: "(string \<Rightarrow> 8 word list) \<Rightarrow> string \<Rightarrow> reservation list \<Rightarrow> world \<Rightarrow> bool" where
  "fulfillable sha oid rs w \<longleftrightarrow> calm_env (w_env w) \<and> (\<forall>n \<ge> w_tick w. e_uuid (w_env w) n \<notin> ids (w_db w))
     \<and> oid \<in> or_id ` set (db_orders (w_db w))
     \<and> (\<forall>i \<in> set rs. in_stock i (db_inventory (w_db w)) \<and> w_locks w (item_key sha i) = None)"

lemma worker_pays:
  assumes data: "read_context data = Some c" and w: "fulfillable sha (cx_orderId c) (cx_items c) w"
    and ps: "approves (w_env w) ps" "payment_frame ps" and keys: "distinct (map (item_key sha) (cx_items c))"
    and amt: "new_money L (aj_amount (cx_totalAmount c)) (aj_currency (cx_totalAmount c)) = Inr amt" and len: "length (cx_orderId c) \<le> 64"
  shows "wp (on_data read_context (processSagaJob L (pg_orchestrator L' le sha ps)) data) (\<lambda>r w'. r = Ok () \<and> paid (cx_orderId c) w') w"
proof -
  have "calm (w_env w) (cx_orderId c) None (reservable sha (cx_items c)) w"
    using w by (simp add: fulfillable_def calm_def reservable_def)
  from totalD [OF total_run_saga [OF ps(1) amt len keys] this]
  have finished: "wp (run_saga L (pg_orchestrator L' le sha ps) c) (\<lambda>r w'. \<exists>s. r = Ok s \<and> saga_status s = SAGA_COMPLETED) w" .
  have "wp (run_saga L (pg_orchestrator L' le sha ps) c) (\<lambda>r w'. \<exists>s. r = Ok s \<and> paid (cx_orderId c) w') w"
    using finished run_saga_settles [OF ps(2), of L L' le sha c w] by (auto simp: wp_def settled_def)
  then show ?thesis
    unfolding on_data_def data option.case processSagaJob_def wp_catchM wp_thenM
    by (rule wp_mono) (auto simp: wp_ret)
qed


section \<open>The property\<close>

text \<open>
  C5. An accepted order is fulfilled: the request is answered with 201 and the identifier of an order that
  is stored, and the queue then holds a job from which the worker, in whatever later world it takes the
  job as long as nothing fails there, the order is still stored, every SKU of the body is in stock with its
  lock free and the payment is approved, brings the order to \<open>PAID\<close> and announces it.
\<close>

theorem posted_order_paid:
  assumes S: "redis_server (sv_redis sv)" and L: "decimal_laws L rep" and B: "bullmq_laws B" "bullmq_answers B"
    and env: "calm_env (w_env w)" "\<forall>n. w_tick w \<le> n \<longrightarrow> n < w_tick w + 8 \<longrightarrow> length (e_uuid (w_env w) n) \<le> 64"
      "\<forall>n \<ge> w_tick w. e_uuid (w_env w) n \<notin> table_ids (w_db w) \<union> queued_ids cfg (w_queues w)"
    and hdr: "rx_headers rq ''idempotency-key'' = Some key" "rx_headers rq ''x-client-id'' = Some client" "key \<noteq> []" "client \<noteq> []"
    and body: "sv_bodySchema sv (rx_body rq) = Inr (Some j)" "CreateOrderSchema j = Some inp" "storable inp key (w_db w)"
    and redis: "w_redis w (idempotency_key client key) = None" "in_window (sv_cfg sv) ws w"
      "counter (rate_key client ws) w < rateLimitMax (sv_cfg sv)"
    and keys: "distinct (map (item_key sha) (reservations inp))"
  shows "wp (serve_post_order sv (service_createOrder L (pg_order_repo L') pg_outbox_repo (saga_enqueue B cfg) pg_tx_manager) rq)
     (\<lambda>r w1. \<exists>ex rp oid job. r = Ok ex \<and> ex_sent ex = Some rp \<and> rp_status rp = 201
        \<and> json_get (rp_body rp) ''id'' = Some (JStr oid) \<and> oid \<in> or_id ` set (db_orders (w_db w1))
        \<and> job \<in> set (jobs_of (createQueue cfg ''saga-execution'') w1) \<and> job_id job = ''saga-'' @ oid
        \<and> (\<forall>ps w2. fulfillable sha oid (reservations inp) w2 \<longrightarrow> approves (w_env w2) ps \<longrightarrow> payment_frame ps \<longrightarrow>
             wp (on_data read_context (processSagaJob L (pg_orchestrator L' le sha ps)) (job_data job))
               (\<lambda>r w3. r = Ok () \<and> (\<forall>row \<in> set (db_orders (w_db w3)). or_id row = oid \<longrightarrow> or_status row = PAID)
                  \<and> announced (w_db w3) ''order.paid'' oid) w2)) w"
proof -
  have "admits sv (w_env w) (w_queues w) (w_db w) (table_ids (w_db w) \<union> queued_ids cfg (w_queues w)) client key ws (Suc (Suc (Suc 2 + 3))) w"
    using env redis by (simp add: admits_def fresh_def short_ids_def stage_def no_answer_def limiter_calls_def)
  from totalD [OF total_serve_post [where L' = L' and cfg = cfg, OF S L B env(1) hdr body Un_upper1 Un_upper2] this] show ?thesis
  proof (rule wp_mono, elim exE conjE, goal_cases)
    case (1 r w1 ex rp ord)
    then have made: "created L cfg (w_env w) (w_db w) (request_of inp key) ord w1" by simp
    have small: "body_cents inp < 10 ^ 12" using body(3) by (simp add: storable_def)
    note ord = created_order [OF L body(2) small made]
    obtain job where job: "job \<in> set (jobs_of (createQueue cfg ''saga-execution'') w1)" "job_id job = ''saga-'' @ order_id ord"
        "read_context (job_data job) = Some (context_of (request_of inp key) ord)"
      using made by (auto simp: created_def queued_def)
    have id: "json_get (rp_body rp) ''id'' = Some (JStr (order_id ord))" using 1 by (simp add: order_json_body_def json_get_def)
    have "wp (on_data read_context (processSagaJob L (pg_orchestrator L' le sha ps)) (job_data job)) (\<lambda>r w3. r = Ok () \<and> paid (order_id ord) w3) w2"
      if "fulfillable sha (order_id ord) (reservations inp) w2" "approves (w_env w2) ps" "payment_frame ps" for ps w2
      by (rule worker_pays [OF job(3), unfolded context_of_request, OF that keys ord(3,2)])
    with 1 id job(1,2) ord(1) show ?case
      by (intro exI [of _ ex] exI [of _ rp] exI [of _ "order_id ord"] exI [of _ job]) (simp add: paid_def)
  qed
qed

theorem posted_order_paid_witness:
  "wp (serve_post_order json_server example_creator example_post)
     (\<lambda>r w1. \<exists>oid job. job \<in> set (jobs_of (createQueue example_config ''saga-execution'') w1)
        \<and> wp (on_data read_context (processSagaJob cents_lib (pg_orchestrator cents_lib (\<le>) (\<lambda>_. replicate 8 0)
               (gateway_payment_service (\<lambda>m. m) (stripe_gateway cents_lib (example_config\<lparr>paymentGatewayApiKey := []\<rparr>))))) (job_data job))
            (\<lambda>r w3. r = Ok () \<and> announced (w_db w3) ''order.paid'' oid)
            (world_of quiet_env (stocked ''A'' 5 (empty_db\<lparr>db_orders := db_orders (w_db w1)\<rparr>)))) still_world"
  (is "wp ?post (\<lambda>r w1. \<exists>oid job. job \<in> ?jobs w1 \<and> ?work oid job w1) still_world")
proof -
  let ?ps = "gateway_payment_service (\<lambda>m. m) (stripe_gateway cents_lib (example_config\<lparr>paymentGatewayApiKey := []\<rparr>))"
  have "inj digits_of" by (rule injI) (metis number_of_digits)
  then have calm: "calm_env quiet_env" by (simp add: calm_env_def quiet_env_def)
  have ps: "payment_frame ?ps" "approves quiet_env ?ps"
    by (rule stripe_payment_frame, simp add: resilience_laws_def) (rule stripe_simulation_approves [OF calm], simp)
  have reserved: "reservations example_input = [\<lparr>rv_sku = ''A'', rv_quantity = 2\<rparr>]"
    by (simp add: reservations_def example_input_def whole_def)
  have w2: "fulfillable (\<lambda>_. replicate 8 0) oid (reservations example_input) (world_of quiet_env (stocked ''A'' 5 (empty_db\<lparr>db_orders := rows\<rparr>)))"
    if "oid \<in> or_id ` set rows" for oid rows
    using that calm by (simp add: fulfillable_def world_of_def ids_def stocked_def empty_db_def reserved in_stock_def)
  show ?thesis
    unfolding example_creator_def
  proof (rule wp_mono [OF posted_order_paid [where client = "''c1''" and key = "''k1''" and ws = 0 and rq = example_post and L = cents_lib
        and j = "body_json example_post" and inp = example_input and sha = "\<lambda>_. replicate 8 0" and le = "(\<le>)",
        OF json_server_laws(2) cents_lib_laws list_bullmq_laws list_bullmq_answers]], goal_cases)
    case (15 r w1)
    then obtain oid job where job: "job \<in> ?jobs w1" "oid \<in> or_id ` set (db_orders (w_db w1))"
      and run: "\<And>w2. fulfillable (\<lambda>_. replicate 8 0) oid (reservations example_input) w2 \<Longrightarrow> approves (w_env w2) ?ps \<Longrightarrow>
        wp (on_data read_context (processSagaJob cents_lib (pg_orchestrator cents_lib (\<le>) (\<lambda>_. replicate 8 0) ?ps)) (job_data job))
               (\<lambda>r w3. r = Ok () \<and> (\<forall>row \<in> set (db_orders (w_db w3)). or_id row = oid \<longrightarrow> or_status row = PAID)
                  \<and> announced (w_db w3) ''order.paid'' oid) w2"
      using ps(1) by blast
    have "?work oid job w1"
      by (rule wp_mono [OF run [OF w2 [OF job(2)]]]) (use ps(2) in \<open>auto simp: world_of_def\<close>)
    with job(1) show ?case by blast
  qed (auto simp: still_world example_body example_request example_request(3) [unfolded example_body(1)] reserved)
qed

end
