(* ===== verification/Spec2Isabelle.thy ===== *)
theory Spec2Isabelle
  imports Lifecycle Rows Saga_Refund Post_Paid
begin

text \<open>
  A model of Orderly, an event-driven order service in TypeScript (\<open>src/src\<close>), with the theorems that
  make it correct.

  \<^bold>\<open>The program.\<close>  A client posts an order to the public server.  The route (\<open>api/routes/v1/orders.ts\<close>)
  runs behind a rate limiter, a store of idempotent answers and the validation of the body, and calls
  \<open>OrderService.createOrder\<close>, which writes the order and an outbox event in one transaction and enqueues
  a saga job.  A worker takes the job and \<open>SagaOrchestrator.startSaga\<close> reserves the stock under advisory
  locks, charges the card through a circuit breaker and confirms the order in a second transaction; when
  the reservation or the payment is refused it compensates.  The outbox processor polls the pending events
  and turns them into jobs, and a worker posts signed webhooks for them.  A second server offers the
  failed jobs and the stuck sagas to an administrator.  \<open>index.ts\<close> wires all of it and shuts it down.

  \<^bold>\<open>How code is modelled.\<close>  An \<open>async\<close> function is a function from the world to an outcome and the world
  after it (\<open>'a io\<close>, Prelude and World): \<open>Ok\<close> a value, \<open>Throw\<close> an error, or \<open>Crashed\<close>, the death of the
  process.  The world holds the database, the transaction in progress, the advisory locks, Redis, the
  queues, the counters, the requests sent, and the environment: for every interaction with a server a
  \<open>fault\<close> (it works; it fails before or after its effect; the process dies before or after it), the
  clock, the identifiers, the sessions of the connections and the answers of HTTP.  Every theorem
  without a hypothesis on the environment holds for all faults at all points.  Integers of the database
  keep their width (\<open>int4\<close>, the range of \<open>INT\<close>), the key of a lock is computed with the wrap-around of
  64 bits, and numbers of JavaScript that may be no integer are \<open>js_number\<close>.

  \<^bold>\<open>The theories.\<close>
  \<^item> Prelude: outcomes, the control flow of JavaScript, and two calculi, \<open>wp\<close> (what holds after a run) and
    \<open>upholds\<close> (a relation between the states before and after); strings and numbers.  Triples: the partial
    and the total triples used for sagas and liveness.
  \<^item> Money, Sku, Order\_Entity, Saga\_Entity: \<open>domain/value-objects\<close> and \<open>domain/entities\<close>.
  \<^item> Config: \<open>config.ts\<close>.  World, Tables: the state, SQL statements with their constraints, transactions
    (\<open>transaction-manager.ts\<close>, the locale \<open>tx_port\<close> and its interpretation \<open>pg_tx\<close>).
  \<^item> Repositories: \<open>domain/repositories\<close>; Rows: the columns of sagas, steps and events with \<open>toDomain\<close>,
    and the proof that the statements on rows implement those on records; Seed: \<open>scripts/seed-data.ts\<close>.
  \<^item> Locking: \<open>infrastructure/locking\<close>; Payment: \<open>infrastructure/payment\<close> and \<open>payment-service.ts\<close>;
    Queue: \<open>infrastructure/queue\<close>; Redis\_Store: \<open>infrastructure/redis\<close>; Metrics: \<open>metrics.ts\<close>.
  \<^item> Inventory\_Service (the locale \<open>stock_port\<close>, with the laws a repository and a lock manager promise,
    and its interpretation \<open>pg\<close>), Order\_Service, Saga\_Orchestrator: \<open>domain/services\<close>.
  \<^item> Commits: the abstract machine, a relation \<open>commit\<close> with one rule per committed statement or
    transaction, and the locale \<open>commit_invariant\<close>; Invariants: what every commit keeps, as its
    interpretations; Saga\_Outcome: what has happened when a saga ends;
    Saga\_Liveness: the run of a saga where nothing fails; Saga\_Refund: why a saga never refunds.
  \<^item> Outbox\_Processor, Webhooks: \<open>events\<close>; Workers: \<open>infrastructure/queue/workers\<close>.
  \<^item> Api, Admin, Health, Responses, Routes: \<open>api\<close>, that is the middleware, handlers and life cycle of
    a request, the schemas of the answers and the routing tables.
  \<^item> Rate\_Window: sequences of calls of the limiter in one window; Json\_Parse: \<open>JSON.parse\<close>, and that it
    reads back what \<open>JSON.stringify\<close> writes; Post\_Order, Post\_Replay, Post\_Accept: a POST through the
    whole of its route (used keys, the remembered answer and its replay, acceptance), against the locale
    \<open>redis_server\<close> of a Redis that answers; Post\_Paid: from the POST through the queue to the payment.
  \<^item> System: the objects \<open>main\<close> wires, \<open>handle\<close> (the handler behind each route) and \<open>system_step\<close> (one
    action of the process); Lifecycle: the singletons, the start, the signals and the shutdown.

  \<^bold>\<open>What is shown.\<close>  The spine is the refinement \<open>entry_points_refine_commits\<close>: whatever a request, a job, a
  poll, a timer or the seeding does, and wherever it fails or dies, the database after it is reached by
  commits.  The invariants of the machine are therefore invariants of the program and of any
  interleaving of its operations: no order or change of status without its event, keys and references
  intact, no negative stock.  Beside it stand the functional behaviour of each component on all its
  branches, what a finished saga implies, four liveness results (an order that can be fulfilled is; polling
  empties the outbox; an acceptable POST is accepted; the job it leaves leads to its payment), what the idempotency key gives from end to end
  (\<open>key_used_once\<close> for any failures, \<open>post_replayed\<close> for the answer of the second request), round trips (rows, jobs, signatures, reservations), the
  equivalence of a reservation with that of the same items in another order and of a saga with one that
  cannot refund, and bounds.  Several lemmas
  show behaviour that differs from a comment or a document of the repository: the release of units that
  were never reserved (\<open>release_after_refusal_inflates\<close>), a lock unlocked twice
  (\<open>lock_timer_unlocks_twice\<close>) or by the wrong session (\<open>lock_release_session\<close>), a SKU named twice
  (\<open>repeated_sku_refused\<close>), a refused delivery recorded twice (\<open>refused_delivery_recorded_twice\<close>),
  a job that completes its order twice (\<open>saga_completes\<close>), the
  addresses the block list misses (\<open>blocked_urls_misses\<close>), the empty context of a manual compensation
  (\<open>manual_compensation_context\<close>), the path of the dead letters (\<open>routes_resolve\<close>).

  \<^bold>\<open>Parameters and laws.\<close>  What the repository does not contain is an argument, and a law states what its
  documentation says: decimal.js (\<open>decimal_laws\<close>, exact on amounts of cents below 28 digits), BullMQ
  (\<open>bullmq_laws\<close>, \<open>bullmq_frame\<close>, \<open>counts_laws\<close>), the Redis client (\<open>redis_laws\<close>, and the locale \<open>redis_server\<close> for
  the commands of a server that answers), the cockatiel policy
  (\<open>resilience_laws\<close>: it acts on the world only through the function it is given), the rounding of
  doubles (\<open>rounding_laws\<close>), Fastify's router (\<open>router_laws\<close>), its validation stage, serialiser and view
  of an error, the messages and formats of zod, SHA-256 and HMAC, \<open>JSON.parse\<close> (\<open>json_laws\<close>), \<open>localeCompare\<close>, the
  printing of dates, the figures of the heap, and what a JSON document is when it is read back from a
  \<open>jsonb\<close> column (\<open>codec_law\<close>).  Each law has an instance on which the theorems that use it are applied;
  that of \<open>JSON.parse\<close> is the parser \<open>json_parse\<close>, on the characters up to code 255.

  \<^bold>\<open>Bounds and fuel.\<close>  The only loop that need not end is the polling of the outbox: \<open>poll n\<close> makes \<open>n\<close>
  rounds.  Safety is stated for every \<open>n\<close> (through \<open>system_step\<close>), and \<open>outbox_empties\<close> shows how many rounds
  are enough: one for every hundred pending events.  The parser \<open>json_parse\<close> recurses to a depth of twice
  the length of the text and one, which \<open>depth_suffices\<close> shows to be enough.  Every other loop runs over a
  list.  The retries of a payment belong to the policy, those of a job to BullMQ.

  \<^bold>\<open>Not modelled.\<close>  Log lines and traces, which the program does not read back, beyond the options of the
  logger and the tracer; \<open>getRequestContext\<close>, which nothing calls; the pages of the swagger plugin; the
  filtering of answers by the response schemas, which the answers are shown to satisfy; the decoding of
  percent signs in paths; the internal state of the circuit breaker; a rate-limit window of zero; the
  overflow of \<open>retry_count\<close>; keys of objects that are array indices, whose order JavaScript changes.
  Deliveries of a webhook that run concurrently are run one after the other, and a compensation started
  from the admin route, which runs on after the reply, is run before it: both orders are chains of the
  same commits.
\<close>

end
